(* ===== verification/Go_Prelude.thy ===== *)
theory Go_Prelude
  imports Main "HOL-Library.Word"
begin

text \<open>
  Shared vocabulary of the development: Go's error values with their wrapping chains
  (\<open>errors.New\<close>, \<open>fmt.Errorf\<close> with \<open>%w\<close>, \<open>errors.Is\<close>), results of fallible calls as
  \<open>goerror + 'a\<close>, the ranges of Go's sized integers, the collections of facts the component
  theories fill, and generic lemmas on lists.
\<close>

named_theorems state_frame \<open>what an operation leaves unchanged in the state\<close>
named_theorems sql_simps \<open>definitions of the SQL statements\<close>
named_theorems invariant_intros \<open>operations preserve the table invariant\<close>

section \<open>Error values\<close>

text \<open>
  The package-level error variables of \<open>internal/service/errors.go\<close>, plus pgx's
  \<open>ErrNoRows\<close>, which the code compares against. Two of them are equal only when they are the
  same variable.
\<close>

datatype sentinel =
    ErrNotFound
  | ErrSelfVote
  | ErrAlreadyVoted
  | ErrValidation
  | ErrUnauthorized
  | ErrConflict
  | PgxErrNoRows

text \<open>
  \<open>Opaque msg\<close> is an error of some library of which only the text matters, \<open>PgError code msg\<close>
  an error reported by the database server, \<open>Wrapf pre e post\<close> is
  \<open>fmt.Errorf("pre%wpost", e)\<close>, and \<open>Wrap2 e f\<close> is \<open>fmt.Errorf("%w: %w", e, f)\<close>.
\<close>

datatype goerror =
    Sentinel sentinel
  | Opaque string
  | PgError string string
  | Wrapf string goerror string
  | Wrap2 goerror goerror

abbreviation wrap :: "string \<Rightarrow> goerror \<Rightarrow> goerror" where
  "wrap pre e \<equiv> Wrapf pre e []"

fun sentinel_text :: "sentinel \<Rightarrow> string" where
  "sentinel_text ErrNotFound = ''not found''"
| "sentinel_text ErrSelfVote = ''cannot vote on your own request''"
| "sentinel_text ErrAlreadyVoted = ''already voted''"
| "sentinel_text ErrValidation = ''validation failed''"
| "sentinel_text ErrUnauthorized = ''unauthorized''"
| "sentinel_text ErrConflict = ''conflict''"
| "sentinel_text PgxErrNoRows = ''no rows in result set''"

fun error_text :: "goerror \<Rightarrow> string" where
  "error_text (Sentinel t) = sentinel_text t"
| "error_text (Opaque msg) = msg"
| "error_text (PgError code msg) = ''ERROR: '' @ msg @ '' (SQLSTATE '' @ code @ '')''"
| "error_text (Wrapf pre e post) = pre @ error_text e @ post"
| "error_text (Wrap2 e f) = error_text e @ '': '' @ error_text f"

text \<open>\<open>errors.Is\<close> follows the whole chain; Go's \<open>==\<close> looks at the outermost value only.\<close>

fun errors_Is :: "goerror \<Rightarrow> sentinel \<Rightarrow> bool" where
  "errors_Is (Sentinel t) u \<longleftrightarrow> t = u"
| "errors_Is (Opaque msg) u \<longleftrightarrow> False"
| "errors_Is (PgError code msg) u \<longleftrightarrow> False"
| "errors_Is (Wrapf pre e post) u \<longleftrightarrow> errors_Is e u"
| "errors_Is (Wrap2 e f) u \<longleftrightarrow> errors_Is e u \<or> errors_Is f u"

fun is_sentinel_value :: "goerror \<Rightarrow> sentinel \<Rightarrow> bool" where
  "is_sentinel_value (Sentinel t) u \<longleftrightarrow> t = u"
| "is_sentinel_value _ u \<longleftrightarrow> False"

lemma is_sentinel_value_imp_errors_Is: "is_sentinel_value e u \<Longrightarrow> errors_Is e u"
  by (cases e) auto

lemma is_sentinel_value_iff: "is_sentinel_value e u \<longleftrightarrow> e = Sentinel u"
  by (cases e) auto

section \<open>Results\<close>

text \<open>A Go function returning \<open>(T, error)\<close> has the result type \<open>goerror + 'a\<close>.\<close>

type_synonym 'a result = "goerror + 'a"

text \<open>A stateful operation returns its result with the state it leaves behind.\<close>

type_synonym ('s, 'a) eff = "'s \<Rightarrow> 'a result \<times> 's"

text \<open>A call that may panic instead of returning.\<close>

datatype 'a outcome = Panic string | Done 'a

definition map_err :: "(goerror \<Rightarrow> goerror) \<Rightarrow> 'a result \<Rightarrow> 'a result" where
  "map_err f r = (case r of Inl e \<Rightarrow> Inl (f e) | Inr x \<Rightarrow> Inr x)"

lemma map_err_simps [simp]:
  "map_err f (Inl e) = Inl (f e)"
  "map_err f (Inr x) = Inr x"
  by (simp_all add: map_err_def)

lemma map_err_Inr_iff [simp]: "map_err f r = Inr x \<longleftrightarrow> r = Inr x"
  by (cases r) auto

section \<open>Sized integers\<close>

text \<open>
  The value of Go's signed \<open>w\<close>-bit integer holding the mathematical integer \<open>i\<close>: two's
  complement wrap-around. The range test says when nothing wraps.
\<close>

definition int32_range :: "int \<Rightarrow> bool" where
  "int32_range i \<longleftrightarrow> - (2 ^ 31) \<le> i \<and> i < 2 ^ 31"

definition int64_range :: "int \<Rightarrow> bool" where
  "int64_range i \<longleftrightarrow> - (2 ^ 63) \<le> i \<and> i < 2 ^ 63"

definition wrap64 :: "int \<Rightarrow> int" where
  "wrap64 i = sint (word_of_int i :: 64 word)"

lemma wrap64_id: "int64_range i \<Longrightarrow> wrap64 i = i"
  unfolding wrap64_def int64_range_def
  by (subst sint_sbintrunc', subst signed_take_bit_int_eq_self) simp_all

lemma wrap64_range: "int64_range (wrap64 i)"
  using sint_greater_eq[of "word_of_int i :: 64 word"] sint_less[of "word_of_int i :: 64 word"]
  by (simp add: wrap64_def int64_range_def)

section \<open>Lists\<close>

lemma sum_list_map_const_filter:
  "length (filter P xs) = sum_list (map (\<lambda>x. if P x then 1 else 0) xs)"
  by (induction xs) auto

lemma distinct_map_filter_card:
  "distinct (map f (filter P xs)) \<Longrightarrow> length (filter P xs) = card (f ` {x \<in> set xs. P x})"
  by (metis distinct_card length_map list.set_map set_filter)

lemma find_eq_of_distinct:
  assumes "distinct (map f xs)" and "x \<in> set xs"
  shows "find (\<lambda>y. f y = f x) xs = Some x"
  using assms
proof (induction xs)
  case Nil
  then show ?case by simp
next
  case (Cons y ys)
  then show ?case by (cases "f y = f x") (auto simp: rev_image_eqI)
qed

lemma find_SomeD: "find P xs = Some x \<Longrightarrow> x \<in> set xs \<and> P x"
  by (auto simp: find_Some_iff)

lemma find_None_iff': "find P xs = None \<longleftrightarrow> (\<forall>x \<in> set xs. \<not> P x)"
  by (auto simp: find_None_iff)

lemma find_map_same_key:
  assumes "\<And>x. P (g x) = P x"
  shows "find P (map g xs) = map_option g (find P xs)"
  by (induction xs) (auto simp: assms)

lemma find_append:
  "find P (xs @ ys) = (case find P xs of None \<Rightarrow> find P ys | Some x \<Rightarrow> Some x)"
  by (induction xs) auto

end
