(* ===== verification/Go_Text.thy ===== *)
theory Go_Text
  imports Go_Prelude "HOL-Library.Sublist"
begin

text \<open>
  The parts of Go's string library the program calls, on byte strings (a HOL \<open>char\<close> is a
  byte): \<open>strings.TrimSpace\<close>, \<open>strings.Split\<close> and \<open>strings.SplitN\<close> at a one-byte separator,
  \<open>strings.EqualFold\<close> against an ASCII word, the decimal verbs of \<open>fmt.Sprintf\<close> and
  \<open>fmt.Sscanf\<close>, \<open>strconv.Atoi\<close> and \<open>strconv.ParseInt\<close>. The lemmas are the inverse laws
  of printing and scanning and the shape of the pieces a split returns.
\<close>

section \<open>Decimal numbers\<close>

abbreviation byte_code :: "char \<Rightarrow> nat" where
  "byte_code c \<equiv> of_char c"

definition digit_char :: "nat \<Rightarrow> char" where
  "digit_char d = char_of (48 + d)"

definition is_digit :: "char \<Rightarrow> bool" where
  "is_digit c \<longleftrightarrow> 48 \<le> (of_char c :: nat) \<and> (of_char c :: nat) \<le> 57"

definition digit_val :: "char \<Rightarrow> nat" where
  "digit_val c = of_char c - 48"

lemma digit_char_is_digit [simp]: "d < 10 \<Longrightarrow> is_digit (digit_char d)"
  by (simp add: is_digit_def digit_char_def)

lemma digit_val_digit_char [simp]: "d < 10 \<Longrightarrow> digit_val (digit_char d) = d"
  by (simp add: digit_val_def digit_char_def)

fun digits :: "nat \<Rightarrow> string" where
  "digits n = (if n < 10 then [digit_char n] else digits (n div 10) @ [digit_char (n mod 10)])"

declare digits.simps [simp del]

definition digits_val :: "string \<Rightarrow> nat" where
  "digits_val ds = foldl (\<lambda>acc c. 10 * acc + digit_val c) 0 ds"

lemma digits_val_snoc: "digits_val (ds @ [c]) = 10 * digits_val ds + digit_val c"
  by (simp add: digits_val_def)

lemma digits_val_digits [simp]: "digits_val (digits n) = n"
proof (induction n rule: digits.induct)
  case (1 n)
  show ?case
  proof (cases "n < 10")
    case True
    then show ?thesis by (subst digits.simps) (simp add: digits_val_def)
  next
    case False
    with 1 show ?thesis by (subst digits.simps) (simp add: digits_val_snoc)
  qed
qed

lemma digits_nonempty [simp]: "digits n \<noteq> []"
  by (subst digits.simps) simp

lemma digits_all_digits [simp]: "list_all is_digit (digits n)"
proof (induction n rule: digits.induct)
  case (1 n)
  show ?case
  proof (cases "n < 10")
    case True
    then show ?thesis by (subst digits.simps) simp
  next
    case False
    with 1 show ?thesis by (subst digits.simps) simp
  qed
qed

text \<open>\<open>%d\<close> of \<open>fmt.Sprintf\<close>.\<close>

definition format_int :: "int \<Rightarrow> string" where
  "format_int i = (if i < 0 then CHR ''-'' # digits (nat (- i)) else digits (nat i))"

text \<open>
  \<open>strconv.ParseInt(s, 10, bits)\<close>: an optional sign, at least one digit, nothing else, and a
  value in the range of the width. \<open>strconv.Atoi\<close> is the 64-bit case (Go's \<open>int\<close> on the
  platforms the service is built for).
\<close>

definition signed_range :: "nat \<Rightarrow> int \<Rightarrow> bool" where
  "signed_range bits i \<longleftrightarrow> - (2 ^ (bits - 1)) \<le> i \<and> i < 2 ^ (bits - 1)"

definition split_sign :: "string \<Rightarrow> bool \<times> string" where
  "split_sign s = (case s of
      [] \<Rightarrow> (False, [])
    | c # cs \<Rightarrow> if c = CHR ''-'' then (True, cs) else if c = CHR ''+'' then (False, cs) else (False, s))"

definition parse_int :: "nat \<Rightarrow> string \<Rightarrow> int option" where
  "parse_int bits s =
     (let (neg, ds) = split_sign s; n = int (digits_val ds); v = (if neg then - n else n)
      in if ds \<noteq> [] \<and> list_all is_digit ds \<and> signed_range bits v then Some v else None)"

definition atoi :: "string \<Rightarrow> int option" where
  "atoi s = parse_int 64 s"

lemma digit_not_sign: "is_digit c \<Longrightarrow> c \<noteq> CHR ''-'' \<and> c \<noteq> CHR ''+''"
  by (auto simp: is_digit_def)

lemma split_sign_digits: "ds \<noteq> [] \<Longrightarrow> list_all is_digit ds \<Longrightarrow> split_sign ds = (False, ds)"
  by (cases ds) (auto simp: split_sign_def dest: digit_not_sign)

lemma split_sign_format:
  "split_sign (format_int i) = (i < 0, digits (nat \<bar>i\<bar>))"
  by (simp add: format_int_def split_sign_digits) (simp add: split_sign_def)

lemma parse_int_format: "signed_range bits i \<Longrightarrow> parse_int bits (format_int i) = Some i"
  by (auto simp: parse_int_def split_sign_format Let_def)

lemma parse_int_range: "parse_int bits s = Some i \<Longrightarrow> signed_range bits i"
  by (auto simp: parse_int_def Let_def split: prod.splits if_splits)

lemma format_int_nonempty [simp]: "format_int i \<noteq> []"
  by (simp add: format_int_def)

lemma format_int_chars:
  "c \<in> set (format_int i) \<Longrightarrow> is_digit c \<or> c = CHR ''-''"
  using digits_all_digits[of "nat i"] digits_all_digits[of "nat (- i)"]
  by (auto simp: format_int_def list_all_iff split: if_splits)

section \<open>White space\<close>

text \<open>
  The UTF-8 encodings of the code points with Unicode's White\_Space property, which is what
  \<open>unicode.IsSpace\<close> accepts.
\<close>

definition byte_string :: "nat list \<Rightarrow> string" where
  "byte_string = map char_of"

definition white_space :: "string list" where
  "white_space = map byte_string
     ([[9], [10], [11], [12], [13], [32], [194, 133], [194, 160], [225, 154, 128]]
      @ map (\<lambda>b. [226, 128, b]) [128 ..< 139]
      @ [[226, 128, 168], [226, 128, 169], [226, 128, 175], [226, 129, 159], [227, 128, 128]])"

fun strip_first :: "string list \<Rightarrow> string \<Rightarrow> string option" where
  "strip_first [] s = None"
| "strip_first (w # ws) s =
     (if w \<noteq> [] \<and> take (length w) s = w then Some (drop (length w) s) else strip_first ws s)"

lemma strip_first_length: "strip_first ws s = Some s' \<Longrightarrow> length s' < length s"
proof (induction ws)
  case (Cons w ws)
  then show ?case by (cases s; cases w) (auto split: if_splits)
qed simp

lemma strip_first_suffix: "strip_first ws s = Some s' \<Longrightarrow> suffix s' s"
  by (induction ws) (auto simp: suffix_drop split: if_splits)

function trim_left :: "string list \<Rightarrow> string \<Rightarrow> string" where
  "trim_left ws s = (case strip_first ws s of None \<Rightarrow> s | Some s' \<Rightarrow> trim_left ws s')"
  by pat_completeness auto
termination
  by (relation "measure (\<lambda>(ws, s). length s)") (auto dest: strip_first_length)

declare trim_left.simps [simp del]

text \<open>\<open>strings.TrimSpace\<close> removes white space at both ends; the right end is read backwards.\<close>

definition TrimSpace :: "string \<Rightarrow> string" where
  "TrimSpace s =
     (let l = trim_left white_space s in rev (trim_left (map rev white_space) (rev l)))"

lemma trim_left_suffix: "suffix (trim_left ws s) s"
proof (induction ws s rule: trim_left.induct)
  case (1 ws s)
  show ?case
  proof (cases "strip_first ws s")
    case None
    then show ?thesis by (subst trim_left.simps) simp
  next
    case (Some s')
    with 1 have "suffix (trim_left ws s') s'" by blast
    with strip_first_suffix[OF Some] have "suffix (trim_left ws s') s"
      by (rule suffix_order.trans[rotated])
    with Some show ?thesis by (subst trim_left.simps) simp
  qed
qed

lemma strip_first_trim_left: "strip_first ws (trim_left ws s) = None"
proof (induction ws s rule: trim_left.induct)
  case (1 ws s)
  show ?case
  proof (cases "strip_first ws s")
    case None
    then show ?thesis by (subst trim_left.simps) simp
  next
    case (Some s')
    with 1 show ?thesis by (subst trim_left.simps) simp
  qed
qed

lemma trim_left_id: "strip_first ws s = None \<Longrightarrow> trim_left ws s = s"
  by (subst trim_left.simps) simp

lemma length_trim_left: "length (trim_left ws s) \<le> length s"
  by (rule suffix_length_le[OF trim_left_suffix])

lemma TrimSpace_length: "length (TrimSpace s) \<le> length s"
  using length_trim_left[of "map rev white_space" "rev (trim_left white_space s)"]
    length_trim_left[of white_space s]
  by (simp add: TrimSpace_def Let_def)

text \<open>A trimmed text begins and ends with something other than white space.\<close>

lemma strip_first_None_iff:
  "strip_first ws s = None \<longleftrightarrow> (\<forall>w \<in> set ws. w \<noteq> [] \<longrightarrow> take (length w) s \<noteq> w)"
  by (induction ws) auto

lemma strip_first_None_prefix:
  "strip_first ws s = None \<Longrightarrow> prefix t s \<Longrightarrow> strip_first ws t = None"
  unfolding strip_first_None_iff by (metis append_eq_conv_conj prefix_def take_append append.assoc append_take_drop_id)

lemma prefix_TrimSpace: "prefix (TrimSpace s) (trim_left white_space s)"
  using trim_left_suffix[of "map rev white_space" "rev (trim_left white_space s)"]
  by (simp add: TrimSpace_def Let_def suffix_to_prefix)

lemma TrimSpace_ends:
  "strip_first white_space (TrimSpace s) = None"
  "strip_first (map rev white_space) (rev (TrimSpace s)) = None"
proof -
  show "strip_first white_space (TrimSpace s) = None"
    by (rule strip_first_None_prefix[OF strip_first_trim_left prefix_TrimSpace])
  show "strip_first (map rev white_space) (rev (TrimSpace s)) = None"
    by (simp add: TrimSpace_def Let_def strip_first_trim_left)
qed

lemma TrimSpace_id:
  "strip_first white_space s = None \<Longrightarrow> strip_first (map rev white_space) (rev s) = None \<Longrightarrow> TrimSpace s = s"
  by (simp add: TrimSpace_def trim_left_id)

lemma TrimSpace_idem: "TrimSpace (TrimSpace s) = TrimSpace s"
  by (rule TrimSpace_id) (rule TrimSpace_ends)+

section \<open>Splitting at a byte\<close>

text \<open>The text before the first occurrence of the separator and the text after it.\<close>

fun cut_at :: "char \<Rightarrow> string \<Rightarrow> (string \<times> string) option" where
  "cut_at sep [] = None"
| "cut_at sep (c # cs) =
     (if c = sep then Some ([], cs) else map_option (apfst (Cons c)) (cut_at sep cs))"

lemma cut_at_append: "sep \<notin> set a \<Longrightarrow> cut_at sep (a @ sep # b) = Some (a, b)"
  by (induction a) auto

lemma cut_at_None: "cut_at sep s = None \<longleftrightarrow> sep \<notin> set s"
  by (induction s) auto

lemma cut_at_Some: "cut_at sep s = Some (a, b) \<Longrightarrow> s = a @ sep # b \<and> sep \<notin> set a"
  by (induction s arbitrary: a) (auto split: if_splits)

text \<open>\<open>strings.SplitN(s, sep, n)\<close> with \<open>n > 0\<close>, and \<open>strings.Split(s, sep)\<close>.\<close>

fun SplitN :: "char \<Rightarrow> nat \<Rightarrow> string \<Rightarrow> string list" where
  "SplitN sep 0 s = []"
| "SplitN sep (Suc 0) s = [s]"
| "SplitN sep (Suc (Suc n)) s =
     (case cut_at sep s of None \<Rightarrow> [s] | Some (a, b) \<Rightarrow> a # SplitN sep (Suc n) b)"

function Split :: "char \<Rightarrow> string \<Rightarrow> string list" where
  "Split sep s = (case cut_at sep s of None \<Rightarrow> [s] | Some (a, b) \<Rightarrow> a # Split sep b)"
  by pat_completeness auto
termination
  by (relation "measure (\<lambda>(sep, s). length s)") (auto dest!: cut_at_Some)

declare Split.simps [simp del]

lemma Split_last: "sep \<notin> set s \<Longrightarrow> Split sep s = [s]"
  by (subst Split.simps) (simp add: cut_at_None[THEN iffD2])

lemma Split_Cons: "sep \<notin> set a \<Longrightarrow> Split sep (a @ sep # b) = a # Split sep b"
  by (subst Split.simps) (simp add: cut_at_append)

section \<open>Case folding\<close>

text \<open>
  \<open>strings.EqualFold(s, t)\<close> for an all-ASCII \<open>t\<close> without the letters k and s, the only ones
  that some non-ASCII letter folds to: byte-wise equality up to ASCII case.
\<close>

definition ascii_lower :: "char \<Rightarrow> char" where
  "ascii_lower c =
     (let n = (of_char c :: nat) in if 65 \<le> n \<and> n \<le> 90 then char_of (n + 32) else c)"

definition EqualFold :: "string \<Rightarrow> string \<Rightarrow> bool" where
  "EqualFold s t \<longleftrightarrow> map ascii_lower s = map ascii_lower t"

section \<open>Scanning an integer\<close>

text \<open>
  \<open>fmt.Sscanf(s, "%d", &n)\<close> for a \<open>bits\<close>-bit \<open>n\<close>: leading white space is skipped (a newline
  is an error), then an optional sign and at least one digit are read; whatever follows them
  is left unread and is no error.
\<close>

function skip_space :: "string \<Rightarrow> string option" where
  "skip_space s =
     (if take 1 s = [char_of (10::nat)] then None
      else case strip_first white_space s of None \<Rightarrow> Some s | Some s' \<Rightarrow> skip_space s')"
  by pat_completeness auto
termination
  by (relation "measure length") (auto dest: strip_first_length)

declare skip_space.simps [simp del]

definition Sscanf_d :: "nat \<Rightarrow> string \<Rightarrow> int option" where
  "Sscanf_d bits s =
     (case skip_space s of
        None \<Rightarrow> None
      | Some t \<Rightarrow>
          let (neg, rest) = split_sign t;
              ds = takeWhile is_digit rest;
              v = (if neg then - int (digits_val ds) else int (digits_val ds))
          in if ds \<noteq> [] \<and> signed_range 64 v \<and> signed_range bits v then Some v else None)"

lemma strip_first_white_space_non_space:
  assumes "s = c # cs" and "\<And>w. w \<in> set white_space \<Longrightarrow> hd w \<noteq> c"
  shows "strip_first white_space s = None"
proof -
  have "strip_first ws s = None" if "\<forall>w \<in> set ws. hd w \<noteq> c" for ws
    using that
  proof (induction ws)
    case (Cons w ws)
    then show ?case using assms(1) by (cases w) auto
  qed simp
  then show ?thesis using assms(2) by blast
qed

lemma white_space_heads:
  "hd ` set white_space = set (byte_string [9, 10, 11, 12, 13, 32, 194, 225, 226, 227])"
  by (simp add: white_space_def byte_string_def upt_rec insert_commute image_Un)

lemma is_digit_not_space: "is_digit c \<or> c = CHR ''-'' \<Longrightarrow> c \<notin> hd ` set white_space"
  by (auto simp: white_space_heads byte_string_def is_digit_def dest!: arg_cong[where f = byte_code])

lemma skip_space_number:
  assumes "is_digit c \<or> c = CHR ''-''"
  shows "skip_space (c # cs) = Some (c # cs)"
proof -
  have "hd w \<noteq> c" if "w \<in> set white_space" for w
    using is_digit_not_space[OF assms] that by blast
  then have "strip_first white_space (c # cs) = None"
    by (intro strip_first_white_space_non_space[OF refl])
  moreover have "c \<noteq> char_of (10::nat)"
    using assms by (auto simp: is_digit_def dest!: arg_cong[where f = byte_code])
  ultimately show ?thesis by (subst skip_space.simps) simp
qed

lemma takeWhile_digits_append:
  "list_all is_digit ds \<Longrightarrow> (rest = [] \<or> \<not> is_digit (hd rest)) \<Longrightarrow>
     takeWhile is_digit (ds @ rest) = ds"
  by (induction ds) (auto simp: neq_Nil_conv, cases rest, auto)

lemma split_sign_format_append:
  "split_sign (format_int i @ rest) = (i < 0, digits (nat \<bar>i\<bar>) @ rest)"
proof (cases "i < 0")
  case True
  then show ?thesis by (simp add: format_int_def split_sign_def)
next
  case False
  obtain d ds where "digits (nat i) = d # ds" by (cases "digits (nat i)") auto
  moreover from this have "is_digit d" using digits_all_digits[of "nat i"] by simp
  ultimately show ?thesis
    using False by (auto simp: format_int_def split_sign_def dest: digit_not_sign)
qed

text \<open>Scanning what \<open>%d\<close> printed gives the number back, whatever text follows it.\<close>

lemma Sscanf_d_format:
  assumes "signed_range 64 i" and "signed_range bits i" and "rest = [] \<or> \<not> is_digit (hd rest)"
  shows "Sscanf_d bits (format_int i @ rest) = Some i"
proof -
  obtain c cs where f: "format_int i = c # cs" by (cases "format_int i") auto
  then have "is_digit c \<or> c = CHR ''-''" using format_int_chars[of c i] by simp
  then have "skip_space (format_int i @ rest) = Some (format_int i @ rest)"
    by (simp add: f skip_space_number)
  moreover have "takeWhile is_digit (digits (nat \<bar>i\<bar>) @ rest) = digits (nat \<bar>i\<bar>)"
    using assms(3) by (intro takeWhile_digits_append) simp_all
  ultimately show ?thesis
    using assms(1,2) by (auto simp: Sscanf_d_def split_sign_format_append Let_def)
qed

lemma Sscanf_d_range: "Sscanf_d bits s = Some i \<Longrightarrow> signed_range bits i"
  by (auto simp: Sscanf_d_def Let_def split: option.splits prod.splits if_splits)

end
