(* ===== verification/Domain.thy ===== *)
theory Domain
  imports Go_Text
begin

text \<open>
  The structs of \<open>internal/service\<close> that travel between the layers. A Go \<open>time.Time\<close> is the
  number of nanoseconds since the Unix epoch as an \<open>int\<close>; identifiers are the canonical text of
  a UUID, as \<open>pgtype.UUID.String\<close> prints it; an \<open>int32\<close> is an \<open>int\<close> whose range the invariants
  carry.
\<close>

type_synonym gotime = int

record FeatureRequest =
  fr_ID :: string
  fr_AuthorID :: string
  fr_Title :: string
  fr_Description :: string
  fr_VoteCount :: int
  fr_CreatedAt :: gotime
  fr_UpdatedAt :: gotime
  fr_ViewerHasVoted :: bool

record RequestPage =
  Items :: "FeatureRequest list"
  NextCursor :: "string option"

record ListParams =
  Sort :: string
  Cursor :: "string option"
  Limit :: int
  ViewerID :: string

record VoteResult =
  RequestID :: string
  VoteCount :: int
  UserVoted :: bool

record UserRecord =
  ur_ID :: string
  ur_Email :: string
  ur_PasswordHash :: string

record TokenClaims =
  tc_UserID :: string

text \<open>\<open>Time.UnixNano\<close> is an \<open>int64\<close>: outside the years 1678 to 2262 it wraps.\<close>

definition UnixNano :: "gotime \<Rightarrow> int" where
  "UnixNano t = wrap64 t"

lemma UnixNano_id: "int64_range t \<Longrightarrow> UnixNano t = t"
  by (simp add: UnixNano_def wrap64_id)

lemma signed_range_64: "signed_range 64 i \<longleftrightarrow> int64_range i"
  and signed_range_32: "signed_range 32 i \<longleftrightarrow> int32_range i"
  by (simp_all add: signed_range_def int64_range_def int32_range_def)

lemma int32_imp_int64: "int32_range i \<Longrightarrow> int64_range i"
  by (simp add: int32_range_def int64_range_def)

end
