(* ===== verification/Go_Base64.thy ===== *)
theory Go_Base64
  imports Go_Text
begin

text \<open>
  Unpadded base64 as \<open>encoding/base64\<close> defines it, over an alphabet of 64 bytes:
  \<open>RawURLEncoding\<close> (list cursors) and \<open>RawStdEncoding\<close> (password hashes) are its two
  instances. The decoder is the library's non-strict one: carriage returns and newlines in the
  input are skipped, a byte outside the alphabet or a single left-over character is an error,
  and the unused low bits of the last character are ignored. The locale states what an
  alphabet has to satisfy for decoding to invert encoding; both instances interpret it.
\<close>

section \<open>Six-bit groups\<close>

fun to_sextets :: "nat list \<Rightarrow> nat list" where
  "to_sextets [] = []"
| "to_sextets [a] = [a div 4, a mod 4 * 16]"
| "to_sextets [a, b] = [a div 4, a mod 4 * 16 + b div 16, b mod 16 * 4]"
| "to_sextets (a # b # c # bs) =
     a div 4 # (a mod 4 * 16 + b div 16) # (b mod 16 * 4 + c div 64) # c mod 64 # to_sextets bs"

fun from_sextets :: "nat list \<Rightarrow> nat list option" where
  "from_sextets [] = Some []"
| "from_sextets [x] = None"
| "from_sextets [x, y] = Some [x * 4 + y div 16]"
| "from_sextets [x, y, z] = Some [x * 4 + y div 16, y mod 16 * 16 + z div 4]"
| "from_sextets (x # y # z # w # xs) =
     map_option (\<lambda>bs. (x * 4 + y div 16) # (y mod 16 * 16 + z div 4) # (z mod 4 * 64 + w) # bs)
       (from_sextets xs)"

lemma sextet_arith:
  fixes a b c :: nat
  assumes "a < 256" and "b < 256" and "c < 256"
  shows "a div 4 * 4 + (a mod 4 * 16 + b div 16) div 16 = a"
    and "(a mod 4 * 16 + b div 16) mod 16 * 16 + (b mod 16 * 4 + c div 64) div 4 = b"
    and "(b mod 16 * 4 + c div 64) mod 4 * 64 + c mod 64 = c"
proof -
  have "b div 16 < 16" "c div 64 < 4"
    using assms by (simp_all add: less_mult_imp_div_less)
  then show "a div 4 * 4 + (a mod 4 * 16 + b div 16) div 16 = a"
    and "(a mod 4 * 16 + b div 16) mod 16 * 16 + (b mod 16 * 4 + c div 64) div 4 = b"
    and "(b mod 16 * 4 + c div 64) mod 4 * 64 + c mod 64 = c"
    by (simp_all add: mod_add_left_eq[symmetric])
qed

lemma sextet_bounds:
  fixes a b c :: nat
  assumes "a < 256" and "b < 256" and "c < 256"
  shows "a div 4 < 64" and "a mod 4 * 16 + b div 16 < 64" and "b mod 16 * 4 + c div 64 < 64"
proof -
  have "b div 16 < 16" "c div 64 < 4" "a mod 4 < 4" "b mod 16 < 16"
    using assms by (simp_all add: less_mult_imp_div_less)
  then show "a mod 4 * 16 + b div 16 < 64" and "b mod 16 * 4 + c div 64 < 64" by linarith+
  show "a div 4 < 64" using assms by (simp add: less_mult_imp_div_less)
qed

lemma from_to_sextets: "\<forall>b \<in> set bs. b < 256 \<Longrightarrow> from_sextets (to_sextets bs) = Some bs"
proof (induction bs rule: to_sextets.induct)
  case (2 a)
  then show ?case using sextet_arith[of a 0 0] by simp
next
  case (3 a b)
  then show ?case using sextet_arith[of a b 0] by simp
next
  case (4 a b c bs)
  then show ?case using sextet_arith[of a b c] by simp
qed simp

lemma to_sextets_bound: "\<forall>b \<in> set bs. b < 256 \<Longrightarrow> \<forall>x \<in> set (to_sextets bs). x < 64"
proof (induction bs rule: to_sextets.induct)
  case (2 a)
  then show ?case using sextet_bounds[of a 0 0] by simp
next
  case (3 a b)
  then show ?case using sextet_bounds[of a b 0] by simp
next
  case (4 a b c bs)
  then show ?case using sextet_bounds[of a b c] by simp
qed simp

section \<open>Encoding and decoding over an alphabet\<close>

fun index_in :: "'a \<Rightarrow> 'a list \<Rightarrow> nat option" where
  "index_in x [] = None"
| "index_in x (y # ys) = (if x = y then Some 0 else map_option Suc (index_in x ys))"

lemma index_in_nth: "distinct ys \<Longrightarrow> i < length ys \<Longrightarrow> index_in (ys ! i) ys = Some i"
proof (induction ys arbitrary: i)
  case (Cons y ys)
  then show ?case by (cases i) (auto simp: nth_eq_iff_index_eq)
qed simp

definition EncodeToString :: "string \<Rightarrow> string \<Rightarrow> string" where
  "EncodeToString alphabet s = map (\<lambda>i. alphabet ! i) (to_sextets (map of_char s))"

definition line_break :: "char \<Rightarrow> bool" where
  "line_break c \<longleftrightarrow> c = char_of (10::nat) \<or> c = char_of (13::nat)"

definition DecodeString :: "string \<Rightarrow> string \<Rightarrow> string option" where
  "DecodeString alphabet s =
     (case those (map (\<lambda>c. index_in c alphabet) (filter (\<lambda>c. \<not> line_break c) s)) of
        None \<Rightarrow> None
      | Some xs \<Rightarrow> map_option (map char_of) (from_sextets xs))"

definition std_alphabet :: string where
  "std_alphabet =
     ''ABCDEFGHIJKLMNOPQRSTUVWXYZabcdefghijklmnopqrstuvwxyz0123456789+/''"

definition url_alphabet :: string where
  "url_alphabet =
     ''ABCDEFGHIJKLMNOPQRSTUVWXYZabcdefghijklmnopqrstuvwxyz0123456789-_''"

lemma those_map_Some: "(\<And>x. x \<in> set xs \<Longrightarrow> f x = Some (g x)) \<Longrightarrow> those (map f xs) = Some (map g xs)"
  by (induction xs) auto

lemma byte_code_bound: "byte_code c < 256"
  using of_char_mod_256[of c, where ?'a = nat] by (metis mod_less_divisor zero_less_numeral)

locale base64_alphabet =
  fixes alphabet :: string
  assumes alphabet_length: "length alphabet = 64"
    and alphabet_distinct: "distinct alphabet"
    and alphabet_no_break: "list_all (\<lambda>c. \<not> line_break c) alphabet"
begin

lemma encoded_chars: "set (EncodeToString alphabet s) \<subseteq> set alphabet"
proof -
  have "\<forall>x \<in> set (to_sextets (map of_char s)). x < length alphabet"
    using to_sextets_bound[of "map of_char s"] by (simp add: alphabet_length byte_code_bound)
  then show ?thesis by (auto simp: EncodeToString_def)
qed

lemma decode_encode: "DecodeString alphabet (EncodeToString alphabet s) = Some s"
proof -
  let ?xs = "to_sextets (map of_char s)"
  have bytes: "\<forall>b \<in> set (map byte_code s). b < 256"
    by (simp add: byte_code_bound)
  then have bound: "\<forall>x \<in> set ?xs. x < 64" by (rule to_sextets_bound)
  have "filter (\<lambda>c. \<not> line_break c) (EncodeToString alphabet s) = EncodeToString alphabet s"
    using encoded_chars alphabet_no_break by (auto simp: list_all_iff intro!: filter_True)
  moreover have "those (map (\<lambda>c. index_in c alphabet) (EncodeToString alphabet s)) = Some ?xs"
    using bound those_map_Some[of ?xs "\<lambda>i. index_in (alphabet ! i) alphabet" id]
    by (simp add: EncodeToString_def comp_def index_in_nth alphabet_distinct alphabet_length)
  ultimately show ?thesis
    using from_to_sextets[OF bytes] by (simp add: DecodeString_def comp_def)
qed

lemma encode_inj: "EncodeToString alphabet s = EncodeToString alphabet t \<Longrightarrow> s = t"
  using decode_encode by (metis option.inject)

end

lemma alphabets_no_break:
  "list_all (\<lambda>c. \<not> line_break c) std_alphabet" "list_all (\<lambda>c. \<not> line_break c) url_alphabet"
  by (auto simp: std_alphabet_def url_alphabet_def line_break_def dest!: arg_cong[where f = byte_code])

interpretation b64std: base64_alphabet std_alphabet
  by unfold_locales (simp_all add: alphabets_no_break, simp_all add: std_alphabet_def)

interpretation b64url: base64_alphabet url_alphabet
  by unfold_locales (simp_all add: alphabets_no_break, simp_all add: url_alphabet_def)

lemma b64std_no_dollar: "CHR ''$'' \<notin> set (EncodeToString std_alphabet s)"
  using b64std.encoded_chars[of s] by (auto simp: std_alphabet_def)

end
