(* ===== verification/Cursor.thy ===== *)
theory Cursor
  imports Domain Go_Base64
begin

text \<open>
  List cursors: \<open>internal/handler/cursor.go\<close> and the copies of its two functions the other
  layers use (\<open>encodeCursor\<close> of \<open>internal/service/request.go\<close>, the inline encoding of
  \<open>RankingService.List\<close>, \<open>decodeCursorRaw\<close> of \<open>internal/repository/postgres/requests.go\<close>).
  A cursor is the base64 text of \<open>id|nanoseconds|votes\<close>. The lemmas show that decoding inverts
  encoding, that the copies agree, and what a decoded cursor is guaranteed to hold. The texts of
  errors raised inside the standard library are abbreviated.
\<close>

record CursorData =
  cur_ID :: string
  cur_CreatedAt :: gotime
  cur_VoteCount :: int

definition cursor_text :: "string \<Rightarrow> gotime \<Rightarrow> int \<Rightarrow> string" where
  "cursor_text i createdAt voteCount =
     i @ ''|'' @ format_int (UnixNano createdAt) @ ''|'' @ format_int voteCount"

definition EncodeCursor :: "string \<Rightarrow> gotime \<Rightarrow> int \<Rightarrow> string" where
  "EncodeCursor i createdAt voteCount =
     EncodeToString url_alphabet (cursor_text i createdAt voteCount)"

definition DecodeCursor :: "string \<Rightarrow> CursorData result" where
  "DecodeCursor encoded =
     (case DecodeString url_alphabet encoded of
        None \<Rightarrow> Inl (wrap ''invalid cursor encoding: '' (Opaque ''illegal base64 data''))
      | Some b \<Rightarrow>
          let parts = SplitN (CHR ''|'') 3 b in
          if length parts \<noteq> 3
          then Inl (Opaque (''invalid cursor format: expected 3 parts, got ''
                              @ format_int (int (length parts))))
          else case Sscanf_d 64 (parts ! 1) of
            None \<Rightarrow> Inl (wrap ''invalid cursor timestamp: '' (Opaque ''expected integer''))
          | Some nanos \<Rightarrow>
              (case Sscanf_d 32 (parts ! 2) of
                 None \<Rightarrow> Inl (wrap ''invalid cursor vote_count: '' (Opaque ''expected integer''))
               | Some voteCount \<Rightarrow>
                   Inr \<lparr>cur_ID = parts ! 0, cur_CreatedAt = nanos, cur_VoteCount = voteCount\<rparr>))"

text \<open>The service's and the repository's copies.\<close>

definition encodeCursor :: "FeatureRequest \<Rightarrow> string" where
  "encodeCursor req =
     EncodeToString url_alphabet
       (fr_ID req @ ''|'' @ format_int (UnixNano (fr_CreatedAt req)) @ ''|''
          @ format_int (fr_VoteCount req))"

record rawCursor =
  raw_id :: string
  raw_createdAt :: gotime
  raw_voteCount :: int

definition decodeCursorRaw :: "string \<Rightarrow> rawCursor result" where
  "decodeCursorRaw encoded =
     (case DecodeString url_alphabet encoded of
        None \<Rightarrow> Inl (wrap ''invalid cursor encoding: '' (Opaque ''illegal base64 data''))
      | Some b \<Rightarrow>
          let parts = SplitN (CHR ''|'') 3 b in
          if length parts \<noteq> 3
          then Inl (Opaque (''invalid cursor format: expected 3 parts, got ''
                              @ format_int (int (length parts))))
          else case Sscanf_d 64 (parts ! 1) of
            None \<Rightarrow> Inl (wrap ''invalid cursor timestamp: '' (Opaque ''expected integer''))
          | Some nanos \<Rightarrow>
              (case Sscanf_d 32 (parts ! 2) of
                 None \<Rightarrow> Inl (wrap ''invalid cursor vote_count: '' (Opaque ''expected integer''))
               | Some voteCount \<Rightarrow>
                   Inr \<lparr>raw_id = parts ! 0, raw_createdAt = nanos, raw_voteCount = voteCount\<rparr>))"

definition raw_of_cursor :: "CursorData \<Rightarrow> rawCursor" where
  "raw_of_cursor c =
     \<lparr>raw_id = cur_ID c, raw_createdAt = cur_CreatedAt c, raw_voteCount = cur_VoteCount c\<rparr>"

section \<open>The copies agree\<close>

lemma encodeCursor_eq:
  "encodeCursor req = EncodeCursor (fr_ID req) (fr_CreatedAt req) (fr_VoteCount req)"
  by (simp add: encodeCursor_def EncodeCursor_def cursor_text_def)

lemma decodeCursorRaw_eq:
  "decodeCursorRaw s = (case DecodeCursor s of Inl e \<Rightarrow> Inl e | Inr c \<Rightarrow> Inr (raw_of_cursor c))"
  by (simp add: decodeCursorRaw_def DecodeCursor_def raw_of_cursor_def Let_def split: option.split)

section \<open>Round trip\<close>

lemma number_no_bar: "CHR ''|'' \<notin> set (format_int i)"
  using format_int_chars[of "CHR ''|''" i] by (auto simp: is_digit_def)

lemma cursor_text_parts:
  assumes "CHR ''|'' \<notin> set i"
  shows "SplitN (CHR ''|'') 3 (cursor_text i t v) = [i, format_int (UnixNano t), format_int v]"
  using assms
  by (simp add: cursor_text_def eval_nat_numeral cut_at_append number_no_bar)

lemma DecodeCursor_EncodeCursor:
  assumes "CHR ''|'' \<notin> set i" and "int64_range t" and "int32_range v"
  shows "DecodeCursor (EncodeCursor i t v) =
           Inr \<lparr>cur_ID = i, cur_CreatedAt = t, cur_VoteCount = v\<rparr>"
  using assms Sscanf_d_format[of t 64 "[]"] Sscanf_d_format[of v 32 "[]"]
  by (simp add: DecodeCursor_def EncodeCursor_def b64url.decode_encode cursor_text_parts
      UnixNano_id signed_range_64 signed_range_32 int32_imp_int64)

lemma decodeCursorRaw_encodeCursor:
  assumes "CHR ''|'' \<notin> set (fr_ID r)" and "int64_range (fr_CreatedAt r)"
    and "int32_range (fr_VoteCount r)"
  shows "decodeCursorRaw (encodeCursor r) =
           Inr \<lparr>raw_id = fr_ID r, raw_createdAt = fr_CreatedAt r, raw_voteCount = fr_VoteCount r\<rparr>"
  by (simp add: decodeCursorRaw_eq encodeCursor_eq DecodeCursor_EncodeCursor[OF assms]
      raw_of_cursor_def)

lemma encodeCursor_nonempty: "encodeCursor r \<noteq> []"
  using b64url.encode_inj[of "fr_ID r @ ''|'' @ format_int (UnixNano (fr_CreatedAt r)) @ ''|''
          @ format_int (fr_VoteCount r)" "[]"]
  by (auto simp: encodeCursor_def EncodeToString_def)

section \<open>Properties\<close>



text \<open>
  Whatever text a client sends as a cursor, decoding either fails or yields a time in the
  range of \<open>int64\<close> and a vote count in the range of \<open>int32\<close>, with an id free of the separator,
  and the two decoders of the code accept the same texts with the same content.
\<close>

theorem decoded_cursor_in_range:
  "case DecodeCursor s of
     Inl e \<Rightarrow> decodeCursorRaw s = Inl e
   | Inr c \<Rightarrow> int64_range (cur_CreatedAt c) \<and> int32_range (cur_VoteCount c)
            \<and> CHR ''|'' \<notin> set (cur_ID c) \<and> decodeCursorRaw s = Inr (raw_of_cursor c)"
proof (cases "DecodeCursor s")
  case (Inl e)
  then show ?thesis by (simp add: decodeCursorRaw_eq)
next
  case (Inr c)
  then show ?thesis
    by (auto simp: decodeCursorRaw_eq DecodeCursor_def Let_def eval_nat_numeral
        signed_range_64[symmetric] signed_range_32[symmetric]
        dest!: Sscanf_d_range cut_at_Some split: option.splits if_splits)
qed

end
