(* ===== verification/Database.thy ===== *)
theory Database
  imports Domain
begin

text \<open>
  The PostgreSQL state behind \<open>internal/repository/postgres\<close>: the three tables of
  \<open>migrations/0001_init.up.sql\<close> as the row types of \<open>models.go\<close>, their constraints as the
  predicate \<open>tables_ok\<close>, and the two ways the repositories run statements: one statement on its
  own (autocommit) and statements inside a transaction that is committed or rolled back. The
  SQL statements themselves are in the repository theories, as functions on the tables.

  Every round trip to the server can fail. The state carries a script of faults, consumed one
  per round trip: the statement may fail before it has any effect, or take effect and lose its
  reply. An exhausted script means no further fault, and the theorems quantify over all scripts.
  What the server's own types do with text is a parameter: \<open>parse_uuid\<close> reads a UUID literal
  into its canonical text (or rejects it) and \<open>citext_fold\<close> maps a CITEXT value to the text its
  equality compares.
\<close>

record pg_lib =
  parse_uuid :: "string \<Rightarrow> string option"
  citext_fold :: "string \<Rightarrow> string"

text \<open>Times in the tables are TIMESTAMPTZ values: microseconds since the epoch.\<close>

record user_row =
  u_id :: string
  u_email :: string
  u_password_hash :: "string option"
  u_created_at :: int

record request_row =
  r_id :: string
  r_author_id :: string
  r_title :: string
  r_description :: string
  r_vote_count :: int
  r_created_at :: int
  r_updated_at :: int

record vote_row =
  v_user_id :: string
  v_request_id :: string
  v_created_at :: int

record tables =
  users :: "user_row list"
  feature_requests :: "request_row list"
  votes :: "vote_row list"

datatype fault = NoFault | FailBefore goerror | FailAfter goerror

record pg =
  tbl :: tables
  faults :: "fault list"

section \<open>Running statements\<close>

text \<open>A statement computes a result and the tables it leaves, or an error and no change.\<close>

type_synonym 'a stmt = "tables \<Rightarrow> goerror + ('a \<times> tables)"

definition next_fault :: "pg \<Rightarrow> fault \<times> pg" where
  "next_fault s =
     (case faults s of [] \<Rightarrow> (NoFault, s) | f # fs \<Rightarrow> (f, s\<lparr>faults := fs\<rparr>))"

fun run_with_fault :: "fault \<Rightarrow> 'a stmt \<Rightarrow> tables \<Rightarrow> 'a result \<times> tables" where
  "run_with_fault NoFault st t =
     (case st t of Inl e \<Rightarrow> (Inl e, t) | Inr (a, t') \<Rightarrow> (Inr a, t'))"
| "run_with_fault (FailBefore e) st t = (Inl e, t)"
| "run_with_fault (FailAfter e) st t =
     (case st t of Inl e' \<Rightarrow> (Inl e', t) | Inr (a, t') \<Rightarrow> (Inl e, t'))"

definition run_stmt :: "'a stmt \<Rightarrow> (pg, 'a) eff" where
  "run_stmt st s =
     (let (f, s1) = next_fault s; (r, t') = run_with_fault f st (tbl s1)
      in (r, s1\<lparr>tbl := t'\<rparr>))"

text \<open>
  \<open>pool.QueryRow(...).Scan(...)\<close>: the first row of the answer, pgx's \<open>ErrNoRows\<close> when there is
  none.
\<close>

definition query_row :: "'a list stmt \<Rightarrow> (pg, 'a) eff" where
  "query_row st s =
     (case run_stmt st s of
        (Inl e, s') \<Rightarrow> (Inl e, s')
      | (Inr [], s') \<Rightarrow> (Inl (Sentinel PgxErrNoRows), s')
      | (Inr (x # xs), s') \<Rightarrow> (Inr x, s'))"

text \<open>
  \<open>pool.Query\<close> with the loop over \<open>rows.Next()\<close>: the call itself may fail (the caller wraps that
  error with a prefix), or the connection may be lost while rows are read (\<open>rows.Err()\<close>, handed
  on as it is).
\<close>

definition query_rows :: "string \<Rightarrow> 'a list stmt \<Rightarrow> (pg, 'a list) eff" where
  "query_rows pre st s =
     (case next_fault s of
        (FailBefore e, s1) \<Rightarrow> (Inl (wrap pre e), s1)
      | (f, s1) \<Rightarrow>
          (case st (tbl s1) of
             Inl e \<Rightarrow> (Inl (wrap pre e), s1)
           | Inr (rows, t') \<Rightarrow>
               (case f of FailAfter e \<Rightarrow> (Inl e, s1\<lparr>tbl := t'\<rparr>)
                | _ \<Rightarrow> (Inr rows, s1\<lparr>tbl := t'\<rparr>))))"

text \<open>
  A transaction works on a private copy of the tables, which \<open>Commit\<close> makes current. An error
  between \<open>Begin\<close> and \<open>Commit\<close> leaves through the deferred \<open>Rollback\<close>: the copy is dropped.
\<close>

definition Begin :: "(pg, tables) eff" where
  "Begin s =
     (case next_fault s of
        (NoFault, s1) \<Rightarrow> (Inr (tbl s1), s1)
      | (FailBefore e, s1) \<Rightarrow> (Inl e, s1)
      | (FailAfter e, s1) \<Rightarrow> (Inl e, s1))"

definition tx_Exec :: "'a stmt \<Rightarrow> tables \<Rightarrow> (pg, 'a \<times> tables) eff" where
  "tx_Exec st t s =
     (case next_fault s of
        (NoFault, s1) \<Rightarrow> (st t, s1)
      | (FailBefore e, s1) \<Rightarrow> (Inl e, s1)
      | (FailAfter e, s1) \<Rightarrow> (Inl e, s1))"

definition Commit :: "tables \<Rightarrow> (pg, unit) eff" where
  "Commit t s =
     (case next_fault s of
        (NoFault, s1) \<Rightarrow> (Inr (), s1\<lparr>tbl := t\<rparr>)
      | (FailBefore e, s1) \<Rightarrow> (Inl e, s1)
      | (FailAfter e, s1) \<Rightarrow> (Inl e, s1\<lparr>tbl := t\<rparr>))"

section \<open>What one round trip can do\<close>

lemma tbl_next_fault [simp, state_frame]: "tbl (snd (next_fault s)) = tbl s"
  by (simp add: next_fault_def split: list.split)

lemma next_fault_tbl: "next_fault s = (f, s1) \<Longrightarrow> tbl s1 = tbl s"
  by (metis snd_conv tbl_next_fault)

lemma next_fault_no_faults: "faults s = [] \<Longrightarrow> next_fault s = (NoFault, s)"
  by (simp add: next_fault_def)

lemma run_stmt_cases:
  assumes "run_stmt st s = (r, s')"
  obtains (unchanged) e where "r = Inl e" "tbl s' = tbl s"
    | (lost) e a where "r = Inl e" "st (tbl s) = Inr (a, tbl s')"
    | (effect) a where "r = Inr a" "st (tbl s) = Inr (a, tbl s')"
proof -
  obtain f s1 where f: "next_fault s = (f, s1)" by (cases "next_fault s")
  from f have t: "tbl s1 = tbl s" by (rule next_fault_tbl)
  show ?thesis
  proof (cases f)
    case (FailBefore e)
    then have "r = Inl e" "tbl s' = tbl s" using assms t by (auto simp: run_stmt_def f)
    then show ?thesis by (rule unchanged)
  qed (use assms t unchanged lost effect in \<open>auto simp: run_stmt_def f split: sum.splits prod.splits\<close>)
qed

lemma run_stmt_ok:
  assumes "run_stmt st s = (Inr a, s')"
  shows "st (tbl s) = Inr (a, tbl s')"
  using assms by (elim run_stmt_cases) auto

lemma run_stmt_preserves:
  assumes "run_stmt st s = (r, s')" and "I (tbl s)"
    and "\<And>a t'. st (tbl s) = Inr (a, t') \<Longrightarrow> I t'"
  shows "I (tbl s')"
  using assms by (elim run_stmt_cases) auto

lemma run_stmt_no_faults:
  "faults s = [] \<Longrightarrow>
     run_stmt st s = (case st (tbl s) of Inl e \<Rightarrow> (Inl e, s) | Inr (a, t') \<Rightarrow> (Inr a, s\<lparr>tbl := t'\<rparr>))"
  by (simp add: run_stmt_def next_fault_no_faults split: sum.split prod.split)

lemma query_row_ok:
  assumes "query_row st s = (Inr x, s')"
  obtains xs where "st (tbl s) = Inr (x # xs, tbl s')"
  using assms run_stmt_ok[of st s]
  by (auto simp: query_row_def split: prod.splits sum.splits list.splits)

text \<open>A statement that only reads leaves the tables alone, however it ends.\<close>

definition reads_only :: "'a stmt \<Rightarrow> bool" where
  "reads_only st \<longleftrightarrow> (\<forall>t a t'. st t = Inr (a, t') \<longrightarrow> t' = t)"

lemma reads_onlyI: "(\<And>t a t'. st t = Inr (a, t') \<Longrightarrow> t' = t) \<Longrightarrow> reads_only st"
  by (simp add: reads_only_def)

lemma run_stmt_reads:
  assumes "reads_only st"
  shows "tbl (snd (run_stmt st s)) = tbl s"
proof -
  obtain r s' where rs: "run_stmt st s = (r, s')" by (cases "run_stmt st s")
  then show ?thesis
    using assms by (elim run_stmt_cases) (auto simp: rs reads_only_def)
qed

lemma query_row_reads: "reads_only st \<Longrightarrow> tbl (snd (query_row st s)) = tbl s"
  using run_stmt_reads[of st s]
  by (auto simp: query_row_def split: prod.splits sum.splits list.splits)

lemma query_rows_cases:
  assumes "query_rows pre st s = (r, s')" and "reads_only st"
  shows "tbl s' = tbl s" and "r = Inr rows \<Longrightarrow> st (tbl s) = Inr (rows, tbl s)"
proof -
  obtain f s1 where f: "next_fault s = (f, s1)" by (cases "next_fault s")
  from f have t: "tbl s1 = tbl s" by (rule next_fault_tbl)
  have st: "t' = tbl s" if "st (tbl s1) = Inr (a, t')" for a t'
    using that assms(2) t by (simp add: reads_only_def)
  have "tbl s' = tbl s \<and> (r = Inr rows \<longrightarrow> st (tbl s) = Inr (rows, tbl s))"
  proof (cases "st (tbl s1)")
    case (Inl e)
    then show ?thesis using assms(1) t by (cases f) (auto simp: query_rows_def f)
  next
    case (Inr p)
    then obtain a where "st (tbl s1) = Inr (a, tbl s)" using st by (cases p) auto
    then show ?thesis using assms(1) t by (cases f) (auto simp: query_rows_def f)
  qed
  then show "tbl s' = tbl s" and "r = Inr rows \<Longrightarrow> st (tbl s) = Inr (rows, tbl s)" by blast+
qed

lemma query_rows_reads: "reads_only st \<Longrightarrow> tbl (snd (query_rows pre st s)) = tbl s"
  by (cases "query_rows pre st s") (auto dest: query_rows_cases(1))

lemma query_rows_ok:
  "reads_only st \<Longrightarrow> query_rows pre st s = (Inr rows, s') \<Longrightarrow>
     st (tbl s) = Inr (rows, tbl s) \<and> tbl s' = tbl s"
  using query_rows_cases by blast

section \<open>Constraints of the schema\<close>

definition vote_key :: "vote_row \<Rightarrow> string \<times> string" where
  "vote_key v = (v_user_id v, v_request_id v)"

text \<open>
  Primary keys, the unique e-mail, foreign keys, INTEGER range, and canonical identifiers.
\<close>

definition tables_ok :: "pg_lib \<Rightarrow> tables \<Rightarrow> bool" where
  "tables_ok L t \<longleftrightarrow>
     distinct (map u_id (users t))
   \<and> distinct (map (\<lambda>u. citext_fold L (u_email u)) (users t))
   \<and> distinct (map r_id (feature_requests t))
   \<and> distinct (map vote_key (votes t))
   \<and> (\<forall>r \<in> set (feature_requests t). r_author_id r \<in> u_id ` set (users t))
   \<and> (\<forall>v \<in> set (votes t). v_user_id v \<in> u_id ` set (users t)
                          \<and> v_request_id v \<in> r_id ` set (feature_requests t))
   \<and> (\<forall>r \<in> set (feature_requests t). int32_range (r_vote_count r))
   \<and> (\<forall>u \<in> set (users t). parse_uuid L (u_id u) = Some (u_id u))
   \<and> (\<forall>r \<in> set (feature_requests t). parse_uuid L (r_id r) = Some (r_id r))"

text \<open>The rows of one request's votes, and the users who hold one.\<close>

definition votes_on :: "tables \<Rightarrow> string \<Rightarrow> vote_row list" where
  "votes_on t i = filter (\<lambda>v. v_request_id v = i) (votes t)"

definition voters :: "tables \<Rightarrow> string \<Rightarrow> string set" where
  "voters t i = {u. (u, i) \<in> vote_key ` set (votes t)}"

text \<open>The denormalised counter of every request is the number of its votes.\<close>

definition counts_exact :: "tables \<Rightarrow> bool" where
  "counts_exact t \<longleftrightarrow>
     (\<forall>r \<in> set (feature_requests t). r_vote_count r = int (length (votes_on t (r_id r))))"

text \<open>No user holds a vote on a request of their own.\<close>

definition no_self_votes :: "tables \<Rightarrow> bool" where
  "no_self_votes t \<longleftrightarrow>
     (\<forall>r \<in> set (feature_requests t). r_author_id r \<notin> voters t (r_id r))"

text \<open>\<open>vote_invariant\<close> is what the vote component promises of the tables at all times.\<close>

definition vote_invariant :: "pg_lib \<Rightarrow> tables \<Rightarrow> bool" where
  "vote_invariant L t \<longleftrightarrow> tables_ok L t \<and> counts_exact t \<and> no_self_votes t"

lemma voters_eq: "voters t i = v_user_id ` set (votes_on t i)"
  by (force simp: voters_def votes_on_def vote_key_def)

lemma votes_on_distinct:
  assumes "distinct (map vote_key (votes t))"
  shows "distinct (map v_user_id (votes_on t i))"
proof -
  have "inj_on v_user_id (set (votes_on t i))" "distinct (votes t)"
    using assms by (auto simp: votes_on_def vote_key_def distinct_map inj_on_def)
  then show ?thesis by (simp add: distinct_map votes_on_def)
qed

lemma length_votes_on:
  assumes "distinct (map vote_key (votes t))"
  shows "length (votes_on t i) = card (voters t i)"
  using distinct_card[OF votes_on_distinct[OF assms]] by (simp add: voters_eq)

definition find_request :: "tables \<Rightarrow> string \<Rightarrow> request_row option" where
  "find_request t i = find (\<lambda>r. r_id r = i) (feature_requests t)"

lemma find_request_SomeD:
  "find_request t i = Some r \<Longrightarrow> r \<in> set (feature_requests t) \<and> r_id r = i"
  by (auto simp: find_request_def dest: find_SomeD)

lemma find_request_None: "find_request t i = None \<longleftrightarrow> i \<notin> r_id ` set (feature_requests t)"
  by (auto simp: find_request_def find_None_iff')

lemma find_request_mem:
  "tables_ok L t \<Longrightarrow> r \<in> set (feature_requests t) \<Longrightarrow> find_request t (r_id r) = Some r"
  unfolding find_request_def tables_ok_def by (blast intro: find_eq_of_distinct)

lemma counts_exactD:
  "counts_exact t \<Longrightarrow> find_request t i = Some r \<Longrightarrow> r_vote_count r = int (length (votes_on t i))"
  by (auto simp: counts_exact_def dest!: find_request_SomeD)

lemma vote_invariant_count:
  "vote_invariant L t \<Longrightarrow> find_request t r = Some q \<Longrightarrow> r_vote_count q = int (card (voters t r))"
  using length_votes_on[of t r] counts_exactD[of t r q] by (simp add: vote_invariant_def tables_ok_def)

lemma vote_invariantD:
  "vote_invariant L t \<Longrightarrow> tables_ok L t"
  "vote_invariant L t \<Longrightarrow> counts_exact t"
  "vote_invariant L t \<Longrightarrow> no_self_votes t"
  by (simp_all add: vote_invariant_def)

section \<open>Binding text parameters\<close>

definition bind_uuid :: "pg_lib \<Rightarrow> string \<Rightarrow> string result" where
  "bind_uuid L s =
     (case parse_uuid L s of
        None \<Rightarrow> Inl (PgError ''22P02'' ''invalid input syntax for type uuid'')
      | Some u \<Rightarrow> Inr u)"

lemma bind_uuid_Inr [simp]: "bind_uuid L s = Inr u \<longleftrightarrow> parse_uuid L s = Some u"
  by (simp add: bind_uuid_def split: option.split)

text \<open>A TIMESTAMPTZ as pgx hands it to Go, and a Go time as a TIMESTAMPTZ parameter.\<close>

definition time_of_timestamptz :: "int \<Rightarrow> gotime" where
  "time_of_timestamptz us = us * 1000"

definition timestamptz_of_time :: "gotime \<Rightarrow> int" where
  "timestamptz_of_time ns = ns div 1000"

lemma timestamptz_roundtrip [simp]: "timestamptz_of_time (time_of_timestamptz us) = us"
  by (simp add: timestamptz_of_time_def time_of_timestamptz_def)

end
