(* ===== verification/Vote_Repo.thy ===== *)
theory Vote_Repo
  imports Database
begin

text \<open>
  \<open>internal/repository/postgres/votes.go\<close>: the SQL statements of the vote repository as functions
  on the tables, and its four methods, with the transaction structure of the code. The lemmas
  show that a vote write is atomic under every script of faults (its whole effect or none), what
  that effect is on the set of voters and on the counter, and that it keeps the schema's
  constraints and the exactness of every counter.
\<close>

section \<open>Statements\<close>

definition int4_max :: int where
  "int4_max = 2 ^ 31 - 1"

text \<open>
  \<open>INSERT INTO votes ... ON CONFLICT (user_id, request_id) DO NOTHING\<close>, with the number of
  affected rows. The foreign keys are checked for the row that is inserted only.
\<close>

definition insertVoteSQL :: "pg_lib \<Rightarrow> int \<Rightarrow> string \<Rightarrow> string \<Rightarrow> nat stmt" where
  "insertVoteSQL L now userID requestID t =
     (case bind_uuid L userID of Inl e \<Rightarrow> Inl e | Inr u \<Rightarrow>
      (case bind_uuid L requestID of Inl e \<Rightarrow> Inl e | Inr r \<Rightarrow>
       if (u, r) \<in> vote_key ` set (votes t) then Inr (0, t)
       else if u \<notin> u_id ` set (users t)
       then Inl (PgError ''23503'' ''insert or update on table \"votes\" violates foreign key constraint \"votes_user_id_fkey\"'')
       else if r \<notin> r_id ` set (feature_requests t)
       then Inl (PgError ''23503'' ''insert or update on table \"votes\" violates foreign key constraint \"votes_request_id_fkey\"'')
       else Inr (1, t\<lparr>votes := votes t @ [\<lparr>v_user_id = u, v_request_id = r, v_created_at = now\<rparr>]\<rparr>)))"

definition deleteVoteSQL :: "pg_lib \<Rightarrow> string \<Rightarrow> string \<Rightarrow> nat stmt" where
  "deleteVoteSQL L userID requestID t =
     (case bind_uuid L userID of Inl e \<Rightarrow> Inl e | Inr u \<Rightarrow>
      (case bind_uuid L requestID of Inl e \<Rightarrow> Inl e | Inr r \<Rightarrow>
       Inr (length (filter (\<lambda>v. vote_key v = (u, r)) (votes t)),
            t\<lparr>votes := filter (\<lambda>v. vote_key v \<noteq> (u, r)) (votes t)\<rparr>)))"

text \<open>
  \<open>UPDATE feature_requests SET vote_count = f(vote_count), updated_at = now() WHERE id = r\<close>; an
  INTEGER result out of range is an error.
\<close>

definition set_count :: "(int \<Rightarrow> int) \<Rightarrow> int \<Rightarrow> string \<Rightarrow> request_row \<Rightarrow> request_row" where
  "set_count f now r q =
     (if r_id q = r then q\<lparr>r_vote_count := f (r_vote_count q), r_updated_at := now\<rparr> else q)"

definition updateCountSQL ::
  "pg_lib \<Rightarrow> (int \<Rightarrow> int result) \<Rightarrow> int \<Rightarrow> string \<Rightarrow> nat stmt" where
  "updateCountSQL L f now requestID t =
     (case bind_uuid L requestID of Inl e \<Rightarrow> Inl e | Inr r \<Rightarrow>
       (case those (map (\<lambda>q. if r_id q = r
                              then (case f (r_vote_count q) of Inl e \<Rightarrow> None
                                    | Inr c \<Rightarrow> Some (q\<lparr>r_vote_count := c, r_updated_at := now\<rparr>))
                              else Some q) (feature_requests t)) of
          None \<Rightarrow> Inl (PgError ''22003'' ''integer out of range'')
        | Some rs \<Rightarrow> Inr (length (filter (\<lambda>q. r_id q = r) (feature_requests t)),
                          t\<lparr>feature_requests := rs\<rparr>)))"

definition int4 :: "int \<Rightarrow> int result" where
  "int4 i = (if int32_range i then Inr i else Inl (PgError ''22003'' ''integer out of range''))"

definition incrSQL :: "pg_lib \<Rightarrow> int \<Rightarrow> string \<Rightarrow> nat stmt" where
  "incrSQL L now requestID = updateCountSQL L (\<lambda>c. int4 (c + 1)) now requestID"

definition decrSQL :: "pg_lib \<Rightarrow> int \<Rightarrow> string \<Rightarrow> nat stmt" where
  "decrSQL L now requestID =
     updateCountSQL L (\<lambda>c. case int4 (c - 1) of Inl e \<Rightarrow> Inl e | Inr d \<Rightarrow> Inr (max d 0)) now requestID"

definition selectVoteCountSQL :: "pg_lib \<Rightarrow> string \<Rightarrow> int list stmt" where
  "selectVoteCountSQL L requestID t =
     (case bind_uuid L requestID of Inl e \<Rightarrow> Inl e | Inr r \<Rightarrow>
       Inr (map r_vote_count (filter (\<lambda>q. r_id q = r) (feature_requests t)), t))"

definition selectAuthorSQL :: "pg_lib \<Rightarrow> string \<Rightarrow> string list stmt" where
  "selectAuthorSQL L requestID t =
     (case bind_uuid L requestID of Inl e \<Rightarrow> Inl e | Inr r \<Rightarrow>
       Inr (map r_author_id (filter (\<lambda>q. r_id q = r) (feature_requests t)), t))"

section \<open>Methods\<close>

definition InsertVote :: "pg_lib \<Rightarrow> int \<Rightarrow> string \<Rightarrow> string \<Rightarrow> (pg, bool) eff" where
  "InsertVote L now userID requestID s =
     (case Begin s of
        (Inl e, s1) \<Rightarrow> (Inl (wrap ''begin tx: '' e), s1)
      | (Inr t, s1) \<Rightarrow>
          (case tx_Exec (insertVoteSQL L now userID requestID) t s1 of
             (Inl e, s2) \<Rightarrow> (Inl (wrap ''insert vote: '' e), s2)
           | (Inr (ct, t1), s2) \<Rightarrow>
               let inserted = ct > 0 in
               (case (if inserted then tx_Exec (incrSQL L now requestID) t1 s2 else (Inr (0, t1), s2)) of
                  (Inl e, s3) \<Rightarrow> (Inl (wrap ''increment vote_count: '' e), s3)
                | (Inr (_, t2), s3) \<Rightarrow>
                    (case Commit t2 s3 of
                       (Inl e, s4) \<Rightarrow> (Inl (wrap ''commit tx: '' e), s4)
                     | (Inr _, s4) \<Rightarrow> (Inr inserted, s4)))))"

definition DeleteVote :: "pg_lib \<Rightarrow> int \<Rightarrow> string \<Rightarrow> string \<Rightarrow> (pg, bool) eff" where
  "DeleteVote L now userID requestID s =
     (case Begin s of
        (Inl e, s1) \<Rightarrow> (Inl (wrap ''begin tx: '' e), s1)
      | (Inr t, s1) \<Rightarrow>
          (case tx_Exec (deleteVoteSQL L userID requestID) t s1 of
             (Inl e, s2) \<Rightarrow> (Inl (wrap ''delete vote: '' e), s2)
           | (Inr (ct, t1), s2) \<Rightarrow>
               let deleted = ct > 0 in
               (case (if deleted then tx_Exec (decrSQL L now requestID) t1 s2 else (Inr (0, t1), s2)) of
                  (Inl e, s3) \<Rightarrow> (Inl (wrap ''decrement vote_count: '' e), s3)
                | (Inr (_, t2), s3) \<Rightarrow>
                    (case Commit t2 s3 of
                       (Inl e, s4) \<Rightarrow> (Inl (wrap ''commit tx: '' e), s4)
                     | (Inr _, s4) \<Rightarrow> (Inr deleted, s4)))))"

definition GetVoteCount :: "pg_lib \<Rightarrow> string \<Rightarrow> (pg, int) eff" where
  "GetVoteCount L requestID s =
     (case query_row (selectVoteCountSQL L requestID) s of
        (Inl e, s') \<Rightarrow>
          if is_sentinel_value e PgxErrNoRows then (Inl (Opaque ''feature request not found''), s')
          else (Inl (wrap ''get vote count: '' e), s')
      | (Inr count, s') \<Rightarrow> (Inr count, s'))"

definition GetRequestAuthorID :: "pg_lib \<Rightarrow> string \<Rightarrow> (pg, string) eff" where
  "GetRequestAuthorID L requestID s =
     (case query_row (selectAuthorSQL L requestID) s of
        (Inl e, s') \<Rightarrow>
          if is_sentinel_value e PgxErrNoRows then (Inl (Opaque ''feature request not found''), s')
          else (Inl (wrap ''get author id: '' e), s')
      | (Inr authorID, s') \<Rightarrow> (Inr authorID, s'))"

section \<open>The effect of a transaction\<close>

text \<open>What the statements of a vote write do to the tables when no round trip fails.\<close>

definition insert_vote_tx :: "pg_lib \<Rightarrow> int \<Rightarrow> string \<Rightarrow> string \<Rightarrow> bool stmt" where
  "insert_vote_tx L now userID requestID t =
     (case insertVoteSQL L now userID requestID t of
        Inl e \<Rightarrow> Inl (wrap ''insert vote: '' e)
      | Inr (ct, t1) \<Rightarrow>
          if ct > 0
          then (case incrSQL L now requestID t1 of
                  Inl e \<Rightarrow> Inl (wrap ''increment vote_count: '' e) | Inr (_, t2) \<Rightarrow> Inr (True, t2))
          else Inr (False, t1))"

definition delete_vote_tx :: "pg_lib \<Rightarrow> int \<Rightarrow> string \<Rightarrow> string \<Rightarrow> bool stmt" where
  "delete_vote_tx L now userID requestID t =
     (case deleteVoteSQL L userID requestID t of
        Inl e \<Rightarrow> Inl (wrap ''delete vote: '' e)
      | Inr (ct, t1) \<Rightarrow>
          if ct > 0
          then (case decrSQL L now requestID t1 of
                  Inl e \<Rightarrow> Inl (wrap ''decrement vote_count: '' e) | Inr (_, t2) \<Rightarrow> Inr (True, t2))
          else Inr (False, t1))"

lemma Begin_tbl: "Begin s = (r, s1) \<Longrightarrow> tbl s1 = tbl s \<and> (\<forall>t. r = Inr t \<longrightarrow> t = tbl s)"
  using next_fault_tbl[of s] by (auto simp: Begin_def split: prod.splits fault.splits)

lemma tx_Exec_tbl: "tx_Exec st t s = (r, s1) \<Longrightarrow> tbl s1 = tbl s \<and> (\<forall>p. r = Inr p \<longrightarrow> st t = Inr p)"
  using next_fault_tbl[of s] by (auto simp: tx_Exec_def split: prod.splits fault.splits)

lemma Commit_tbl:
  "Commit t s = (r, s1) \<Longrightarrow> tbl s1 = t \<or> (tbl s1 = tbl s \<and> (\<exists>e. r = Inl e))"
  using next_fault_tbl[of s] by (auto simp: Commit_def split: prod.splits fault.splits)

lemmas tx_step_tbl = Begin_tbl tx_Exec_tbl Commit_tbl

text \<open>
  Atomicity: whatever the faults, the method leaves the tables as they were (and reports an
  error), or leaves them exactly as the undisturbed transaction does, and it reports success only
  in the second case.
\<close>

lemma InsertVote_atomic:
  assumes "InsertVote L now u r s = (res, s')"
  shows "(\<exists>e. res = Inl e) \<and> tbl s' = tbl s
       \<or> (\<exists>b. insert_vote_tx L now u r (tbl s) = Inr (b, tbl s') \<and> (res = Inr b \<or> (\<exists>e. res = Inl e)))"
  using assms
  by (auto simp: InsertVote_def insert_vote_tx_def Let_def
      split: prod.splits sum.splits if_splits dest!: tx_step_tbl)

lemma DeleteVote_atomic:
  assumes "DeleteVote L now u r s = (res, s')"
  shows "(\<exists>e. res = Inl e) \<and> tbl s' = tbl s
       \<or> (\<exists>b. delete_vote_tx L now u r (tbl s) = Inr (b, tbl s') \<and> (res = Inr b \<or> (\<exists>e. res = Inl e)))"
  using assms
  by (auto simp: DeleteVote_def delete_vote_tx_def Let_def
      split: prod.splits sum.splits if_splits dest!: tx_step_tbl)

lemma InsertVote_no_faults:
  assumes "faults s = []"
  shows "InsertVote L now u r s =
     (case insert_vote_tx L now u r (tbl s) of
        Inl e \<Rightarrow> (Inl e, s) | Inr (b, t') \<Rightarrow> (Inr b, s\<lparr>tbl := t'\<rparr>))"
  using assms
  by (auto simp: InsertVote_def insert_vote_tx_def Begin_def tx_Exec_def Commit_def
      next_fault_no_faults Let_def split: prod.splits sum.splits if_splits)

lemma DeleteVote_no_faults:
  assumes "faults s = []"
  shows "DeleteVote L now u r s =
     (case delete_vote_tx L now u r (tbl s) of
        Inl e \<Rightarrow> (Inl e, s) | Inr (b, t') \<Rightarrow> (Inr b, s\<lparr>tbl := t'\<rparr>))"
  using assms
  by (auto simp: DeleteVote_def delete_vote_tx_def Begin_def tx_Exec_def Commit_def
      next_fault_no_faults Let_def split: prod.splits sum.splits if_splits)

section \<open>What a successful transaction changes\<close>

definition count_update :: "(int \<Rightarrow> int) \<Rightarrow> int \<Rightarrow> string \<Rightarrow> tables \<Rightarrow> tables" where
  "count_update g now r t = t\<lparr>feature_requests := map (set_count g now r) (feature_requests t)\<rparr>"

definition add_vote :: "int \<Rightarrow> string \<Rightarrow> string \<Rightarrow> tables \<Rightarrow> tables" where
  "add_vote now u r t =
     count_update (\<lambda>c. c + 1) now r
       (t\<lparr>votes := votes t @ [\<lparr>v_user_id = u, v_request_id = r, v_created_at = now\<rparr>]\<rparr>)"

definition drop_vote :: "int \<Rightarrow> string \<Rightarrow> string \<Rightarrow> tables \<Rightarrow> tables" where
  "drop_vote now u r t =
     count_update (\<lambda>c. max (c - 1) 0) now r
       (t\<lparr>votes := filter (\<lambda>v. vote_key v \<noteq> (u, r)) (votes t)\<rparr>)"

lemma those_map_update:
  "those (map (\<lambda>q. if P q then (case f q of Inl e \<Rightarrow> None | Inr c \<Rightarrow> Some (h q c)) else Some q) qs)
     = (if \<forall>q \<in> set qs. P q \<longrightarrow> (\<exists>c. f q = Inr c)
        then Some (map (\<lambda>q. if P q then h q (projr (f q)) else q) qs) else None)"
  by (induction qs) (auto split: sum.splits)

lemma updateCountSQL_eq:
  "updateCountSQL L f now rid t =
     (case parse_uuid L rid of
        None \<Rightarrow> Inl (PgError ''22P02'' ''invalid input syntax for type uuid'')
      | Some r \<Rightarrow>
          if \<forall>q \<in> set (feature_requests t). r_id q = r \<longrightarrow> (\<exists>c. f (r_vote_count q) = Inr c)
          then Inr (length (filter (\<lambda>q. r_id q = r) (feature_requests t)),
                    count_update (\<lambda>c. projr (f c)) now r t)
          else Inl (PgError ''22003'' ''integer out of range''))"
  by (auto simp: updateCountSQL_def bind_uuid_def those_map_update count_update_def set_count_def
      if_distrib split: option.split)

lemma int4_Inr [simp]: "int4 i = Inr j \<longleftrightarrow> int32_range i \<and> j = i"
  by (auto simp: int4_def)

lemma count_update_cong:
  "(\<And>q. q \<in> set (feature_requests t) \<Longrightarrow> r_id q = r \<Longrightarrow> f (r_vote_count q) = g (r_vote_count q)) \<Longrightarrow>
     count_update f now r t = count_update g now r t"
  by (auto simp: count_update_def set_count_def intro!: tables.equality)

lemma incrSQL_eq:
  "incrSQL L now rid t =
     (case parse_uuid L rid of
        None \<Rightarrow> Inl (PgError ''22P02'' ''invalid input syntax for type uuid'')
      | Some r \<Rightarrow>
          if \<forall>q \<in> set (feature_requests t). r_id q = r \<longrightarrow> int32_range (r_vote_count q + 1)
          then Inr (length (filter (\<lambda>q. r_id q = r) (feature_requests t)),
                    count_update (\<lambda>c. c + 1) now r t)
          else Inl (PgError ''22003'' ''integer out of range''))"
  by (auto simp: incrSQL_def updateCountSQL_eq int4_def split: option.split
      intro!: count_update_cong)

lemma decrSQL_eq:
  "decrSQL L now rid t =
     (case parse_uuid L rid of
        None \<Rightarrow> Inl (PgError ''22P02'' ''invalid input syntax for type uuid'')
      | Some r \<Rightarrow>
          if \<forall>q \<in> set (feature_requests t). r_id q = r \<longrightarrow> int32_range (r_vote_count q - 1)
          then Inr (length (filter (\<lambda>q. r_id q = r) (feature_requests t)),
                    count_update (\<lambda>c. max (c - 1) 0) now r t)
          else Inl (PgError ''22003'' ''integer out of range''))"
  by (auto simp: decrSQL_def updateCountSQL_eq int4_def split: option.split sum.split
      intro!: count_update_cong)

lemma insert_vote_tx_cases:
  assumes "insert_vote_tx L now userID requestID t = Inr (b, t')"
  obtains (present) u r where "parse_uuid L userID = Some u" "parse_uuid L requestID = Some r"
      "(u, r) \<in> vote_key ` set (votes t)" "\<not> b" "t' = t"
    | (added) u r where "parse_uuid L userID = Some u" "parse_uuid L requestID = Some r"
      "(u, r) \<notin> vote_key ` set (votes t)" "u \<in> u_id ` set (users t)"
      "r \<in> r_id ` set (feature_requests t)" "b" "t' = add_vote now u r t"
      "\<forall>q \<in> set (feature_requests t). r_id q = r \<longrightarrow> int32_range (r_vote_count q + 1)"
proof -
  obtain ct t1 where i: "insertVoteSQL L now userID requestID t = Inr (ct, t1)"
    using assms by (auto simp: insert_vote_tx_def split: sum.splits prod.splits)
  then obtain u r where ur: "parse_uuid L userID = Some u" "parse_uuid L requestID = Some r"
    by (auto simp: insertVoteSQL_def split: sum.splits)
  show ?thesis
  proof (cases "(u, r) \<in> vote_key ` set (votes t)")
    case True
    with i ur have "ct = 0" "t1 = t" by (auto simp: insertVoteSQL_def bind_uuid_def)
    with assms i have "\<not> b" "t' = t" by (auto simp: insert_vote_tx_def)
    with ur True show ?thesis by (intro present)
  next
    case False
    with i ur have t1: "ct = 1" "u \<in> u_id ` set (users t)" "r \<in> r_id ` set (feature_requests t)"
      "t1 = t\<lparr>votes := votes t @ [\<lparr>v_user_id = u, v_request_id = r, v_created_at = now\<rparr>]\<rparr>"
      by (auto simp: insertVoteSQL_def bind_uuid_def split: if_splits)
    with assms i ur have "b" "t' = add_vote now u r t"
      "\<forall>q \<in> set (feature_requests t). r_id q = r \<longrightarrow> int32_range (r_vote_count q + 1)"
      by (auto simp: insert_vote_tx_def incrSQL_eq add_vote_def split: if_splits)
    with ur False t1 show ?thesis by (intro added)
  qed
qed

lemma delete_vote_tx_cases:
  assumes "delete_vote_tx L now userID requestID t = Inr (b, t')"
  obtains (absent) u r where "parse_uuid L userID = Some u" "parse_uuid L requestID = Some r"
      "(u, r) \<notin> vote_key ` set (votes t)" "\<not> b" "t' = t"
    | (dropped) u r where "parse_uuid L userID = Some u" "parse_uuid L requestID = Some r"
      "(u, r) \<in> vote_key ` set (votes t)" "b" "t' = drop_vote now u r t"
proof -
  obtain ct t1 where d: "deleteVoteSQL L userID requestID t = Inr (ct, t1)"
    using assms by (auto simp: delete_vote_tx_def split: sum.splits prod.splits)
  then obtain u r where ur: "parse_uuid L userID = Some u" "parse_uuid L requestID = Some r"
    and ct: "ct = length (filter (\<lambda>v. vote_key v = (u, r)) (votes t))"
    and t1: "t1 = t\<lparr>votes := filter (\<lambda>v. vote_key v \<noteq> (u, r)) (votes t)\<rparr>"
    by (auto simp: deleteVoteSQL_def split: sum.splits)
  show ?thesis
  proof (cases "(u, r) \<in> vote_key ` set (votes t)")
    case False
    then have none: "\<forall>v \<in> set (votes t). vote_key v \<noteq> (u, r)" by force
    then have "ct = 0" "t1 = t" by (auto simp: ct t1 filter_empty_conv)
    with assms d have "\<not> b" "t' = t" by (auto simp: delete_vote_tx_def)
    with ur False show ?thesis by (intro absent)
  next
    case True
    then have "filter (\<lambda>v. vote_key v = (u, r)) (votes t) \<noteq> []" by (force simp: filter_empty_conv)
    then have "ct > 0" using ct by simp
    with assms d ur have "b" "t' = drop_vote now u r t"
      by (auto simp: delete_vote_tx_def decrSQL_eq drop_vote_def t1 split: if_splits)
    with ur True show ?thesis by (intro dropped)
  qed
qed

end
