(* ===== verification/Vote_Tables.thy ===== *)
theory Vote_Tables
  imports Vote_Repo
begin

text \<open>
  What one vote write does to the tables as the rest of the system sees them: the set of users
  who hold a vote on each request, the number of vote rows, the author of each request, and the
  constraints and counters of \<open>Database\<close>. All later vote proofs use these facts instead of the
  row-level definitions.
\<close>

lemma count_update_fields [simp]:
  "users (count_update g now r t) = users t"
  "votes (count_update g now r t) = votes t"
  "feature_requests (count_update g now r t) = map (set_count g now r) (feature_requests t)"
  by (simp_all add: count_update_def)

lemma set_count_fields [simp]:
  "r_id (set_count g now r q) = r_id q"
  "r_author_id (set_count g now r q) = r_author_id q"
  "r_title (set_count g now r q) = r_title q"
  "r_description (set_count g now r q) = r_description q"
  "r_created_at (set_count g now r q) = r_created_at q"
  "r_vote_count (set_count g now r q) = (if r_id q = r then g (r_vote_count q) else r_vote_count q)"
  by (simp_all add: set_count_def)

lemma r_id_set_count_comp [simp]: "r_id \<circ> set_count g now r = r_id"
  by (rule ext) simp

lemma votes_on_count_update [simp]: "votes_on (count_update g now r t) i = votes_on t i"
  by (simp add: votes_on_def)

lemma voters_count_update [simp]: "voters (count_update g now r t) i = voters t i"
  by (simp add: voters_def)

text \<open>The author of a request, by its canonical id.\<close>

definition author_of :: "tables \<Rightarrow> string \<Rightarrow> string option" where
  "author_of t i = map_option r_author_id (find_request t i)"

lemma find_request_count_update [simp]:
  "find_request (count_update g now r t) i = map_option (set_count g now r) (find_request t i)"
  unfolding find_request_def by (simp add: find_map_same_key)

lemma author_of_count_update [simp]: "author_of (count_update g now r t) = author_of t"
  by (rule ext) (simp add: author_of_def option.map_comp comp_def)

lemma author_of_add_vote [simp]: "author_of (add_vote now u r t) = author_of t"
  and author_of_drop_vote [simp]: "author_of (drop_vote now u r t) = author_of t"
  by (simp_all add: add_vote_def drop_vote_def) (simp_all add: author_of_def find_request_def fun_eq_iff)

section \<open>Voters\<close>

lemma voters_add_vote:
  "voters (add_vote now u r t) = (voters t)(r := insert u (voters t r))"
  by (auto simp: add_vote_def voters_def vote_key_def fun_eq_iff)

lemma voters_drop_vote:
  "voters (drop_vote now u r t) = (voters t)(r := voters t r - {u})"
  by (auto simp: drop_vote_def voters_def vote_key_def fun_eq_iff image_iff)

lemma votes_on_add_vote:
  "length (votes_on (add_vote now u r t) i) = length (votes_on t i) + (if i = r then 1 else 0)"
  by (simp add: add_vote_def) (simp add: votes_on_def)

lemma finite_voters [simp]: "finite (voters t i)"
  by (simp add: voters_eq)

section \<open>The schema's constraints and the counters survive a vote write\<close>

lemma tables_ok_add_vote:
  assumes "tables_ok L t" and "(u, r) \<notin> vote_key ` set (votes t)"
    and "u \<in> u_id ` set (users t)" and "r \<in> r_id ` set (feature_requests t)"
    and "\<forall>q \<in> set (feature_requests t). r_id q = r \<longrightarrow> int32_range (r_vote_count q + 1)"
  shows "tables_ok L (add_vote now u r t)"
  using assms by (auto simp: tables_ok_def add_vote_def vote_key_def image_image)

lemma int32_range_max: "int32_range c \<Longrightarrow> int32_range (max (c - 1) 0)"
  by (auto simp: int32_range_def)

lemma tables_ok_drop_vote:
  assumes "tables_ok L t"
  shows "tables_ok L (drop_vote now u r t)"
  using assms
  by (auto simp: tables_ok_def drop_vote_def image_image int32_range_max intro: distinct_map_filter)

lemma votes_on_drop_vote:
  assumes "tables_ok L t" and "(u, r) \<in> vote_key ` set (votes t)"
  shows "length (votes_on (drop_vote now u r t) i) = length (votes_on t i) - (if i = r then 1 else 0)"
proof -
  have "distinct (map vote_key (votes t))" "distinct (map vote_key (votes (drop_vote now u r t)))"
    using assms(1) tables_ok_drop_vote[OF assms(1), of now u r] by (simp_all add: tables_ok_def)
  moreover have "u \<in> voters t r" using assms(2) by (simp add: voters_def)
  ultimately show ?thesis by (simp add: length_votes_on voters_drop_vote)
qed

lemma counts_exact_add_vote:
  assumes "counts_exact t"
  shows "counts_exact (add_vote now u r t)"
proof -
  have "feature_requests (add_vote now u r t) = map (set_count (\<lambda>c. c + 1) now r) (feature_requests t)"
    by (simp add: add_vote_def)
  then show ?thesis
    using assms by (auto simp: counts_exact_def votes_on_add_vote)
qed

lemma voter_positive: "(u, r) \<in> vote_key ` set (votes t) \<Longrightarrow> 0 < length (votes_on t r)"
  by (auto simp: votes_on_def vote_key_def filter_empty_conv)

lemma counts_exact_drop_vote:
  assumes "tables_ok L t" and "counts_exact t" and "(u, r) \<in> vote_key ` set (votes t)"
  shows "counts_exact (drop_vote now u r t)"
proof -
  have "max (int (length (votes_on t r)) - 1) 0 = int (length (votes_on t r) - 1)"
    using voter_positive[OF assms(3)] by linarith
  moreover have "feature_requests (drop_vote now u r t)
      = map (set_count (\<lambda>c. max (c - 1) 0) now r) (feature_requests t)"
    by (simp add: drop_vote_def)
  ultimately show ?thesis
    using assms(2) votes_on_drop_vote[OF assms(1,3), of now]
    by (auto simp: counts_exact_def)
qed

lemma no_self_votes_iff:
  "tables_ok L t \<Longrightarrow> no_self_votes t \<longleftrightarrow> (\<forall>i a. author_of t i = Some a \<longrightarrow> a \<notin> voters t i)"
  unfolding no_self_votes_def author_of_def
  by (auto dest: find_request_mem find_request_SomeD)

section \<open>Preservation by the transactions\<close>

lemma insert_vote_tx_effect:
  assumes "insert_vote_tx L now userID requestID t = Inr (b, t')" and "tables_ok L t"
  shows "tables_ok L t' \<and> (counts_exact t \<longrightarrow> counts_exact t') \<and> author_of t' = author_of t
       \<and> (\<exists>u r. parse_uuid L userID = Some u \<and> parse_uuid L requestID = Some r
              \<and> voters t' = (voters t)(r := insert u (voters t r)) \<and> (b \<longleftrightarrow> u \<notin> voters t r))"
  using assms(1)
proof (cases rule: insert_vote_tx_cases)
  case (present u r)
  then have "u \<in> voters t r" by (simp add: voters_def)
  with present assms show ?thesis by (auto simp: insert_absorb)
next
  case (added u r)
  then have "u \<notin> voters t r" by (simp add: voters_def)
  with added assms show ?thesis
    by (auto simp: tables_ok_add_vote counts_exact_add_vote voters_add_vote)
qed

lemma insert_vote_tx_ok:
  assumes "insert_vote_tx L now userID requestID t = Inr (b, t')" and "tables_ok L t" and "counts_exact t"
  shows "tables_ok L t' \<and> counts_exact t' \<and> author_of t' = author_of t
       \<and> (\<exists>u r. parse_uuid L userID = Some u \<and> parse_uuid L requestID = Some r
              \<and> voters t' = (voters t)(r := insert u (voters t r)) \<and> (b \<longleftrightarrow> u \<notin> voters t r))"
  using insert_vote_tx_effect[OF assms(1,2)] assms(3) by blast

lemma delete_vote_tx_effect:
  assumes "delete_vote_tx L now userID requestID t = Inr (b, t')" and "tables_ok L t"
  shows "tables_ok L t' \<and> (counts_exact t \<longrightarrow> counts_exact t') \<and> author_of t' = author_of t
       \<and> (\<exists>u r. parse_uuid L userID = Some u \<and> parse_uuid L requestID = Some r
              \<and> voters t' = (voters t)(r := voters t r - {u}) \<and> (b \<longleftrightarrow> u \<in> voters t r))"
  using assms(1)
proof (cases rule: delete_vote_tx_cases)
  case (absent u r)
  then have "u \<notin> voters t r" by (simp add: voters_def)
  with absent assms show ?thesis by auto
next
  case (dropped u r)
  then have "u \<in> voters t r" by (simp add: voters_def)
  with dropped assms show ?thesis
    by (auto simp: tables_ok_drop_vote counts_exact_drop_vote voters_drop_vote)
qed

lemma delete_vote_tx_ok:
  assumes "delete_vote_tx L now userID requestID t = Inr (b, t')" and "tables_ok L t" and "counts_exact t"
  shows "tables_ok L t' \<and> counts_exact t' \<and> author_of t' = author_of t
       \<and> (\<exists>u r. parse_uuid L userID = Some u \<and> parse_uuid L requestID = Some r
              \<and> voters t' = (voters t)(r := voters t r - {u}) \<and> (b \<longleftrightarrow> u \<in> voters t r))"
  using delete_vote_tx_effect[OF assms(1,2)] assms(3) by blast

section \<open>Reading\<close>

lemma filter_key_find:
  "distinct (map f xs) \<Longrightarrow>
     filter (\<lambda>x. f x = i) xs = (case find (\<lambda>x. f x = i) xs of None \<Rightarrow> [] | Some x \<Rightarrow> [x])"
proof (induction xs)
  case (Cons x xs)
  show ?case
  proof (cases "f x = i")
    case True
    with Cons.prems have "\<forall>y \<in> set xs. f y \<noteq> i" by (auto simp: rev_image_eqI)
    with True show ?thesis by (simp add: filter_empty_conv)
  next
    case False
    with Cons show ?thesis by simp
  qed
qed simp

lemma filter_id_find:
  assumes "tables_ok L t"
  shows "filter (\<lambda>q. r_id q = i) (feature_requests t) =
           (case find_request t i of None \<Rightarrow> [] | Some q \<Rightarrow> [q])"
  using assms unfolding find_request_def tables_ok_def by (blast intro: filter_key_find)

lemma selects_read_only: "reads_only (selectVoteCountSQL L i)" "reads_only (selectAuthorSQL L i)"
  by (auto simp: reads_only_def selectVoteCountSQL_def selectAuthorSQL_def split: sum.splits)

lemma GetVoteCount_tbl: "tbl (snd (GetVoteCount L i s)) = tbl s"
  using query_row_reads[OF selects_read_only(1), of L i s]
  by (auto simp: GetVoteCount_def split: prod.splits sum.splits)

lemma GetRequestAuthorID_tbl: "tbl (snd (GetRequestAuthorID L i s)) = tbl s"
  using query_row_reads[OF selects_read_only(2), of L i s]
  by (auto simp: GetRequestAuthorID_def split: prod.splits sum.splits)

lemma GetVoteCount_ok:
  assumes "GetVoteCount L i s = (Inr c, s')" and "tables_ok L (tbl s)"
  shows "\<exists>r q. parse_uuid L i = Some r \<and> find_request (tbl s) r = Some q \<and> c = r_vote_count q"
proof -
  have "query_row (selectVoteCountSQL L i) s = (Inr c, s')"
    using assms(1) by (auto simp: GetVoteCount_def split: prod.splits sum.splits if_splits)
  then obtain xs where "selectVoteCountSQL L i (tbl s) = Inr (c # xs, tbl s')" by (rule query_row_ok)
  then show ?thesis
    using assms(2)
    by (auto simp: selectVoteCountSQL_def filter_id_find split: sum.splits option.splits)
qed

lemma GetRequestAuthorID_ok:
  assumes "GetRequestAuthorID L i s = (Inr a, s')" and "tables_ok L (tbl s)"
  shows "\<exists>r. parse_uuid L i = Some r \<and> author_of (tbl s) r = Some a"
proof -
  have "query_row (selectAuthorSQL L i) s = (Inr a, s')"
    using assms(1) by (auto simp: GetRequestAuthorID_def split: prod.splits sum.splits if_splits)
  then obtain xs where "selectAuthorSQL L i (tbl s) = Inr (a # xs, tbl s')" by (rule query_row_ok)
  then show ?thesis
    using assms(2)
    by (auto simp: selectAuthorSQL_def filter_id_find author_of_def split: sum.splits option.splits)
qed

end
