(* ===== verification/Vote_Service.thy ===== *)
theory Vote_Service
  imports Vote_Tables
begin

text \<open>
  \<open>internal/service/vote.go\<close>: the \<open>VoteRepo\<close> interface as a record of operations, and the two
  methods of \<open>VoteService\<close> over any such record, in any state. The locale \<open>vote_contract\<close> states
  what a provider of the interface promises about the holders of votes; the service's lemmas are
  proved once from these laws, and the locale is interpreted on the PostgreSQL repository.
\<close>

record 's VoteRepo =
  vr_InsertVote :: "string \<Rightarrow> string \<Rightarrow> ('s, bool) eff"
  vr_DeleteVote :: "string \<Rightarrow> string \<Rightarrow> ('s, bool) eff"
  vr_GetVoteCount :: "string \<Rightarrow> ('s, int) eff"
  vr_GetRequestAuthorID :: "string \<Rightarrow> ('s, string) eff"

definition not_found_error :: goerror where
  "not_found_error = Wrapf [] (Sentinel ErrNotFound) '': feature request not found''"

definition Upvote :: "'s VoteRepo \<Rightarrow> string \<Rightarrow> string \<Rightarrow> ('s, VoteResult) eff" where
  "Upvote repo userID requestID s =
     (case vr_GetRequestAuthorID repo requestID s of
        (Inl e, s1) \<Rightarrow> (Inl not_found_error, s1)
      | (Inr authorID, s1) \<Rightarrow>
          if authorID = userID then (Inl (Sentinel ErrSelfVote), s1)
          else (case vr_InsertVote repo userID requestID s1 of
             (Inl e, s2) \<Rightarrow> (Inl (wrap ''insert vote: '' e), s2)
           | (Inr _, s2) \<Rightarrow>
               (case vr_GetVoteCount repo requestID s2 of
                  (Inl e, s3) \<Rightarrow> (Inl (wrap ''get vote count: '' e), s3)
                | (Inr count, s3) \<Rightarrow>
                    (Inr \<lparr>RequestID = requestID, VoteCount = count, UserVoted = True\<rparr>, s3))))"

definition RemoveVote :: "'s VoteRepo \<Rightarrow> string \<Rightarrow> string \<Rightarrow> ('s, VoteResult) eff" where
  "RemoveVote repo userID requestID s =
     (case vr_GetRequestAuthorID repo requestID s of
        (Inl e, s1) \<Rightarrow> (Inl not_found_error, s1)
      | (Inr _, s1) \<Rightarrow>
          (case vr_DeleteVote repo userID requestID s1 of
             (Inl e, s2) \<Rightarrow> (Inl (wrap ''delete vote: '' e), s2)
           | (Inr _, s2) \<Rightarrow>
               (case vr_GetVoteCount repo requestID s2 of
                  (Inl e, s3) \<Rightarrow> (Inl (wrap ''get vote count: '' e), s3)
                | (Inr count, s3) \<Rightarrow>
                    (Inr \<lparr>RequestID = requestID, VoteCount = count, UserVoted = False\<rparr>, s3))))"

section \<open>The contract of the repository\<close>

text \<open>
  \<open>canon\<close> reads an identifier, \<open>author\<close> gives the author of a request and \<open>holders\<close> the users who
  hold a vote on it. A write either happens or not, whatever it reports; a read changes nothing;
  a count that is returned is the number of holders.
\<close>

locale vote_contract =
  fixes repo :: "'s VoteRepo"
    and inv :: "'s \<Rightarrow> bool"
    and canon :: "string \<Rightarrow> string option"
    and author :: "'s \<Rightarrow> string \<Rightarrow> string option"
    and holders :: "'s \<Rightarrow> string \<Rightarrow> string set"
  assumes author_reads: "inv s \<Longrightarrow> vr_GetRequestAuthorID repo i s = (ra, s') \<Longrightarrow>
      inv s' \<and> author s' = author s \<and> holders s' = holders s"
    and author_result: "inv s \<Longrightarrow> vr_GetRequestAuthorID repo i s = (Inr a, s') \<Longrightarrow>
      \<exists>r. canon i = Some r \<and> author s r = Some a"
    and count_reads: "inv s \<Longrightarrow> vr_GetVoteCount repo i s = (rc, s') \<Longrightarrow>
      inv s' \<and> author s' = author s \<and> holders s' = holders s"
    and count_result: "inv s \<Longrightarrow> vr_GetVoteCount repo i s = (Inr c, s') \<Longrightarrow>
      \<exists>r. canon i = Some r \<and> c = int (card (holders s r))"
    and insert_frame: "inv s \<Longrightarrow> vr_InsertVote repo u i s = (rb, s') \<Longrightarrow>
      inv s' \<and> author s' = author s"
    and insert_effect: "inv s \<Longrightarrow> vr_InsertVote repo u i s = (rb, s') \<Longrightarrow>
      (\<exists>e. rb = Inl e) \<and> holders s' = holders s
    \<or> (\<exists>cu r. canon u = Some cu \<and> canon i = Some r
         \<and> holders s' = (holders s)(r := insert cu (holders s r)))"
    and delete_frame: "inv s \<Longrightarrow> vr_DeleteVote repo u i s = (rb, s') \<Longrightarrow>
      inv s' \<and> author s' = author s"
    and delete_effect: "inv s \<Longrightarrow> vr_DeleteVote repo u i s = (rb, s') \<Longrightarrow>
      (\<exists>e. rb = Inl e) \<and> holders s' = holders s
    \<or> (\<exists>cu r. canon u = Some cu \<and> canon i = Some r
         \<and> holders s' = (holders s)(r := holders s r - {cu}))"
begin

lemma upvote_success:
  assumes "inv s" and "Upvote repo u i s = (Inr res, s')"
  shows "inv s' \<and> author s' = author s \<and>
    (\<exists>cu r. canon u = Some cu \<and> canon i = Some r \<and> author s r \<noteq> Some u
       \<and> holders s' = (holders s)(r := insert cu (holders s r))
       \<and> res = \<lparr>RequestID = i, VoteCount = int (card (holders s' r)), UserVoted = True\<rparr>)"
proof -
  from assms(2) obtain a s1 b s2 c where
    steps: "vr_GetRequestAuthorID repo i s = (Inr a, s1)" "a \<noteq> u"
      "vr_InsertVote repo u i s1 = (Inr b, s2)" "vr_GetVoteCount repo i s2 = (Inr c, s')"
    and res: "res = \<lparr>RequestID = i, VoteCount = c, UserVoted = True\<rparr>"
    by (auto simp: Upvote_def split: prod.splits sum.splits if_splits)
  have 1: "inv s1" "author s1 = author s" "holders s1 = holders s"
    using author_reads[OF assms(1) steps(1)] by auto
  have 2: "inv s2" "author s2 = author s1" using insert_frame[OF 1(1) steps(3)] by auto
  have 3: "inv s'" "author s' = author s2" "holders s' = holders s2"
    using count_reads[OF 2(1) steps(4)] by auto
  show ?thesis
    using author_result[OF assms(1) steps(1)] insert_effect[OF 1(1) steps(3)]
      count_result[OF 2(1) steps(4)] 1 2 3 steps(2) res by auto
qed

lemma remove_success:
  assumes "inv s" and "RemoveVote repo u i s = (Inr res, s')"
  shows "inv s' \<and> author s' = author s \<and>
    (\<exists>cu r. canon u = Some cu \<and> canon i = Some r \<and> author s r \<noteq> None
       \<and> holders s' = (holders s)(r := holders s r - {cu})
       \<and> res = \<lparr>RequestID = i, VoteCount = int (card (holders s' r)), UserVoted = False\<rparr>)"
proof -
  from assms(2) obtain a s1 b s2 c where
    steps: "vr_GetRequestAuthorID repo i s = (Inr a, s1)"
      "vr_DeleteVote repo u i s1 = (Inr b, s2)" "vr_GetVoteCount repo i s2 = (Inr c, s')"
    and res: "res = \<lparr>RequestID = i, VoteCount = c, UserVoted = False\<rparr>"
    by (auto simp: RemoveVote_def split: prod.splits sum.splits if_splits)
  have 1: "inv s1" "author s1 = author s" "holders s1 = holders s"
    using author_reads[OF assms(1) steps(1)] by auto
  have 2: "inv s2" "author s2 = author s1" using delete_frame[OF 1(1) steps(2)] by auto
  have 3: "inv s'" "author s' = author s2" "holders s' = holders s2"
    using count_reads[OF 2(1) steps(3)] by auto
  show ?thesis
    using author_result[OF assms(1) steps(1)] delete_effect[OF 1(1) steps(2)]
      count_result[OF 2(1) steps(3)] 1 2 3 res by auto
qed

text \<open>However a call ends, the votes are as before or differ by the caller's one vote.\<close>

lemma upvote_any:
  assumes "inv s" and "Upvote repo u i s = (res, s')"
  shows "inv s' \<and> author s' = author s \<and>
    (holders s' = holders s
     \<or> (\<exists>cu r a. canon u = Some cu \<and> canon i = Some r \<and> author s r = Some a \<and> a \<noteq> u
          \<and> holders s' = (holders s)(r := insert cu (holders s r))))"
proof -
  obtain ra s1 where a: "vr_GetRequestAuthorID repo i s = (ra, s1)"
    by (cases "vr_GetRequestAuthorID repo i s")
  have 1: "inv s1" "author s1 = author s" "holders s1 = holders s"
    using author_reads[OF assms(1) a] by auto
  obtain rb s2 where b: "vr_InsertVote repo u i s1 = (rb, s2)" by (cases "vr_InsertVote repo u i s1")
  have 2: "inv s2" "author s2 = author s1" using insert_frame[OF 1(1) b] by auto
  obtain rc s3 where c: "vr_GetVoteCount repo i s2 = (rc, s3)" by (cases "vr_GetVoteCount repo i s2")
  have 3: "inv s3" "author s3 = author s2" "holders s3 = holders s2"
    using count_reads[OF 2(1) c] by auto
  consider (early) "s' = s1" | (wrote) au where "ra = Inr au" "au \<noteq> u" "s' = s2 \<or> s' = s3"
    using assms(2) by (auto simp: Upvote_def a b c split: sum.splits if_splits)
  then show ?thesis
  proof cases
    case early
    with 1 show ?thesis by simp
  next
    case (wrote au)
    then have "\<exists>r. canon i = Some r \<and> author s r = Some au"
      using author_result[OF assms(1)] a by blast
    with wrote insert_effect[OF 1(1) b] 1 2 3 show ?thesis by auto
  qed
qed

lemma remove_any:
  assumes "inv s" and "RemoveVote repo u i s = (res, s')"
  shows "inv s' \<and> author s' = author s \<and>
    (holders s' = holders s
     \<or> (\<exists>cu r. canon u = Some cu \<and> canon i = Some r
          \<and> holders s' = (holders s)(r := holders s r - {cu})))"
proof -
  obtain ra s1 where a: "vr_GetRequestAuthorID repo i s = (ra, s1)"
    by (cases "vr_GetRequestAuthorID repo i s")
  have 1: "inv s1" "author s1 = author s" "holders s1 = holders s"
    using author_reads[OF assms(1) a] by auto
  obtain rb s2 where b: "vr_DeleteVote repo u i s1 = (rb, s2)" by (cases "vr_DeleteVote repo u i s1")
  have 2: "inv s2" "author s2 = author s1" using delete_frame[OF 1(1) b] by auto
  obtain rc s3 where c: "vr_GetVoteCount repo i s2 = (rc, s3)" by (cases "vr_GetVoteCount repo i s2")
  have 3: "inv s3" "author s3 = author s2" "holders s3 = holders s2"
    using count_reads[OF 2(1) c] by auto
  have "s' = s1 \<or> s' = s2 \<or> s' = s3"
    using assms(2) by (auto simp: RemoveVote_def a b c split: sum.splits)
  with delete_effect[OF 1(1) b] 1 2 3 show ?thesis by auto
qed

text \<open>
  The rule against voting on one's own request survives both operations. The comparison with
  the author is on texts, so the caller's id has to be in the canonical form the repository
  returns, which is the form the service puts into tokens.
\<close>

definition unbiased :: "'s \<Rightarrow> bool" where
  "unbiased s \<longleftrightarrow> (\<forall>r a. author s r = Some a \<longrightarrow> a \<notin> holders s r)"

lemma upvote_unbiased:
  assumes "inv s" and "unbiased s" and "Upvote repo u i s = (res, s')" and "canon u = Some u"
  shows "unbiased s'"
  using upvote_any[OF assms(1,3)] assms(2,4) by (auto simp: unbiased_def split: if_splits)

lemma remove_unbiased:
  assumes "inv s" and "unbiased s" and "RemoveVote repo u i s = (res, s')"
  shows "unbiased s'"
  using remove_any[OF assms(1,3)] assms(2) by (auto simp: unbiased_def split: if_splits)

end

section \<open>The PostgreSQL repository keeps the contract\<close>

definition postgres_VoteRepo :: "pg_lib \<Rightarrow> int \<Rightarrow> pg VoteRepo" where
  "postgres_VoteRepo L now =
     \<lparr>vr_InsertVote = InsertVote L now, vr_DeleteVote = DeleteVote L now,
      vr_GetVoteCount = GetVoteCount L, vr_GetRequestAuthorID = GetRequestAuthorID L\<rparr>"

definition counters_ok :: "pg_lib \<Rightarrow> pg \<Rightarrow> bool" where
  "counters_ok L s \<longleftrightarrow> tables_ok L (tbl s) \<and> counts_exact (tbl s)"

interpretation pgvote: vote_contract "postgres_VoteRepo L now" "counters_ok L" "parse_uuid L"
  "\<lambda>s. author_of (tbl s)" "\<lambda>s. voters (tbl s)" for L now
proof unfold_locales
  fix s i ra s'
  assume "vr_GetRequestAuthorID (postgres_VoteRepo L now) i s = (ra, s')" and "counters_ok L s"
  moreover from this have "tbl s' = tbl s"
    using GetRequestAuthorID_tbl[of L i s] by (simp add: postgres_VoteRepo_def)
  ultimately show "counters_ok L s' \<and> author_of (tbl s') = author_of (tbl s) \<and> voters (tbl s') = voters (tbl s)"
    by (simp add: counters_ok_def)
next
  fix s i a s'
  assume "vr_GetRequestAuthorID (postgres_VoteRepo L now) i s = (Inr a, s')" and "counters_ok L s"
  then show "\<exists>r. parse_uuid L i = Some r \<and> author_of (tbl s) r = Some a"
    by (intro GetRequestAuthorID_ok) (auto simp: postgres_VoteRepo_def counters_ok_def)
next
  fix s i rc s'
  assume "vr_GetVoteCount (postgres_VoteRepo L now) i s = (rc, s')" and "counters_ok L s"
  moreover from this have "tbl s' = tbl s"
    using GetVoteCount_tbl[of L i s] by (simp add: postgres_VoteRepo_def)
  ultimately show "counters_ok L s' \<and> author_of (tbl s') = author_of (tbl s) \<and> voters (tbl s') = voters (tbl s)"
    by (simp add: counters_ok_def)
next
  fix s i c s'
  assume a: "vr_GetVoteCount (postgres_VoteRepo L now) i s = (Inr c, s')" and b: "counters_ok L s"
  then obtain r q where "parse_uuid L i = Some r" "find_request (tbl s) r = Some q" "c = r_vote_count q"
    using GetVoteCount_ok[of L i s c s'] by (auto simp: postgres_VoteRepo_def counters_ok_def)
  with b show "\<exists>r. parse_uuid L i = Some r \<and> c = int (card (voters (tbl s) r))"
    by (auto simp: counters_ok_def tables_ok_def counts_exactD length_votes_on)
next
  fix s u i rb s'
  assume w: "vr_InsertVote (postgres_VoteRepo L now) u i s = (rb, s')" and ok: "counters_ok L s"
  have at: "(\<exists>e. rb = Inl e) \<and> tbl s' = tbl s
      \<or> (\<exists>b. insert_vote_tx L now u i (tbl s) = Inr (b, tbl s') \<and> (rb = Inr b \<or> (\<exists>e. rb = Inl e)))"
    using w by (intro InsertVote_atomic) (simp add: postgres_VoteRepo_def)
  show "counters_ok L s' \<and> author_of (tbl s') = author_of (tbl s)"
    using at ok insert_vote_tx_ok by (fastforce simp: counters_ok_def)
  show "(\<exists>e. rb = Inl e) \<and> voters (tbl s') = voters (tbl s)
      \<or> (\<exists>cu r. parse_uuid L u = Some cu \<and> parse_uuid L i = Some r
           \<and> voters (tbl s') = (voters (tbl s))(r := insert cu (voters (tbl s) r)))"
    using at ok insert_vote_tx_ok by (fastforce simp: counters_ok_def)
next
  fix s u i rb s'
  assume w: "vr_DeleteVote (postgres_VoteRepo L now) u i s = (rb, s')" and ok: "counters_ok L s"
  have at: "(\<exists>e. rb = Inl e) \<and> tbl s' = tbl s
      \<or> (\<exists>b. delete_vote_tx L now u i (tbl s) = Inr (b, tbl s') \<and> (rb = Inr b \<or> (\<exists>e. rb = Inl e)))"
    using w by (intro DeleteVote_atomic) (simp add: postgres_VoteRepo_def)
  show "counters_ok L s' \<and> author_of (tbl s') = author_of (tbl s)"
    using at ok delete_vote_tx_ok by (fastforce simp: counters_ok_def)
  show "(\<exists>e. rb = Inl e) \<and> voters (tbl s') = voters (tbl s)
      \<or> (\<exists>cu r. parse_uuid L u = Some cu \<and> parse_uuid L i = Some r
           \<and> voters (tbl s') = (voters (tbl s))(r := voters (tbl s) r - {cu}))"
    using at ok delete_vote_tx_ok by (fastforce simp: counters_ok_def)
qed

lemma vote_invariant_iff_counters:
  "vote_invariant L (tbl s) \<longleftrightarrow> counters_ok L s \<and> pgvote.unbiased s"
  by (auto simp: vote_invariant_def counters_ok_def pgvote.unbiased_def no_self_votes_iff)

lemma Upvote_keeps_invariant [invariant_intros]:
  assumes "vote_invariant L (tbl s)" and "parse_uuid L u = Some u"
    and "Upvote (postgres_VoteRepo L now) u i s = (r, s')"
  shows "vote_invariant L (tbl s')"
  using assms pgvote.upvote_any[of L s now u i r s'] pgvote.upvote_unbiased[of L s now u i r s']
  by (simp add: vote_invariant_iff_counters)

lemma RemoveVote_keeps_invariant [invariant_intros]:
  assumes "vote_invariant L (tbl s)" and "RemoveVote (postgres_VoteRepo L now) u i s = (r, s')"
  shows "vote_invariant L (tbl s')"
  using assms pgvote.remove_any[of L s now u i r s'] pgvote.remove_unbiased[of L s now u i r s']
  by (simp add: vote_invariant_iff_counters)

end
