(* ===== verification/Demo.thy ===== *)
theory Demo
  imports Vote_Tables
begin

text \<open>
  A small concrete database the witnesses are evaluated on: two users, one request by the first
  of them, no votes. Every text is accepted as an identifier, and e-mail addresses compare up to
  ASCII case.
\<close>

definition demo_lib :: pg_lib where
  "demo_lib = \<lparr>parse_uuid = Some, citext_fold = map ascii_lower\<rparr>"

definition demo_tables :: tables where
  "demo_tables =
     \<lparr>users = [\<lparr>u_id = ''alice'', u_email = ''alice@example.com'', u_password_hash = None, u_created_at = 1\<rparr>,
               \<lparr>u_id = ''bob'', u_email = ''bob@example.com'', u_password_hash = None, u_created_at = 2\<rparr>],
      feature_requests = [\<lparr>r_id = ''r1'', r_author_id = ''alice'', r_title = ''Dark mode'',
                           r_description = ''Please'', r_vote_count = 0, r_created_at = 3, r_updated_at = 3\<rparr>],
      votes = []\<rparr>"

definition demo_pg :: pg where
  "demo_pg = \<lparr>tbl = demo_tables, faults = []\<rparr>"

lemma demo_simps [simp]:
  "faults demo_pg = []" "tbl demo_pg = demo_tables" "parse_uuid demo_lib s = Some s"
  by (simp_all add: demo_pg_def demo_lib_def)

lemma demo_rows:
  "u_id ` set (users demo_tables) = {''alice'', ''bob''}"
  "r_id ` set (feature_requests demo_tables) = {''r1''}"
  "votes demo_tables = []"
  by (simp_all add: demo_tables_def)

lemma demo_author: "author_of demo_tables ''r1'' = Some ''alice''"
  by (simp add: author_of_def find_request_def demo_tables_def)

lemma demo_voters: "voters demo_tables i = {}"
  by (simp add: voters_def demo_rows)

lemma demo_vote_invariant: "vote_invariant demo_lib demo_tables"
  by (simp add: vote_invariant_def tables_ok_def counts_exact_def no_self_votes_def votes_on_def
      voters_def demo_tables_def demo_lib_def ascii_lower_def int32_range_def)

lemma demo_tables_ok: "tables_ok demo_lib demo_tables"
  and demo_counts_exact: "counts_exact demo_tables"
  using demo_vote_invariant by (simp_all add: vote_invariant_def)

end
