(* ===== verification/Vote_Properties.thy ===== *)
theory Vote_Properties
  imports Vote_Service Demo
begin

text \<open>
  The correctness of voting over PostgreSQL: what a successful call does and reports, what no call
  can break, idempotence, and refinement of an abstract ballot in which a request has an author
  and a set of holders and nothing else.
\<close>

section \<open>Calls without faults, computed\<close>

lemma insert_vote_tx_eq:
  assumes "parse_uuid L u = Some cu" and "parse_uuid L i = Some r"
    and "cu \<in> u_id ` set (users t)" and "r \<in> r_id ` set (feature_requests t)"
    and "\<forall>q \<in> set (feature_requests t). r_id q = r \<longrightarrow> int32_range (r_vote_count q + 1)"
  shows "insert_vote_tx L now u i t =
     (if (cu, r) \<in> vote_key ` set (votes t) then Inr (False, t) else Inr (True, add_vote now cu r t))"
  using assms by (auto simp: insert_vote_tx_def insertVoteSQL_def bind_uuid_def incrSQL_eq add_vote_def)

lemma delete_vote_tx_eq:
  assumes "parse_uuid L u = Some cu" and "parse_uuid L i = Some r"
    and "\<forall>q \<in> set (feature_requests t). r_id q = r \<longrightarrow> int32_range (r_vote_count q - 1)"
  shows "delete_vote_tx L now u i t =
     (if (cu, r) \<in> vote_key ` set (votes t) then Inr (True, drop_vote now cu r t) else Inr (False, t))"
proof (cases "(cu, r) \<in> vote_key ` set (votes t)")
  case True
  then have "filter (\<lambda>v. vote_key v = (cu, r)) (votes t) \<noteq> []" by (force simp: filter_empty_conv)
  with True assms show ?thesis
    by (auto simp: delete_vote_tx_def deleteVoteSQL_def bind_uuid_def decrSQL_eq drop_vote_def)
next
  case False
  then have "\<forall>v \<in> set (votes t). vote_key v \<noteq> (cu, r)" by force
  then have "filter (\<lambda>v. vote_key v = (cu, r)) (votes t) = []"
    "t\<lparr>votes := filter (\<lambda>v. vote_key v \<noteq> (cu, r)) (votes t)\<rparr> = t"
    by (auto simp: filter_empty_conv)
  with False assms show ?thesis
    by (simp add: delete_vote_tx_def deleteVoteSQL_def bind_uuid_def)
qed

lemma GetRequestAuthorID_no_faults:
  assumes "faults s = []" and "tables_ok L (tbl s)" and "parse_uuid L i = Some r"
  shows "GetRequestAuthorID L i s =
     (case author_of (tbl s) r of
        None \<Rightarrow> (Inl (Opaque ''feature request not found''), s) | Some a \<Rightarrow> (Inr a, s))"
  using assms
  by (auto simp: GetRequestAuthorID_def query_row_def run_stmt_no_faults selectAuthorSQL_def
      bind_uuid_def filter_id_find author_of_def split: option.split)

lemma GetVoteCount_no_faults:
  assumes "faults s = []" and "tables_ok L (tbl s)" and "parse_uuid L i = Some r"
  shows "GetVoteCount L i s =
     (case find_request (tbl s) r of
        None \<Rightarrow> (Inl (Opaque ''feature request not found''), s) | Some q \<Rightarrow> (Inr (r_vote_count q), s))"
  using assms
  by (auto simp: GetVoteCount_def query_row_def run_stmt_no_faults selectVoteCountSQL_def
      bind_uuid_def filter_id_find split: option.split)

lemma author_of_find: "author_of t r = Some a \<Longrightarrow> \<exists>q. find_request t r = Some q \<and> r_author_id q = a"
  by (auto simp: author_of_def)

lemma find_request_of_author:
  "author_of t' = author_of t \<Longrightarrow> author_of t r = Some a \<Longrightarrow> \<exists>q. find_request t' r = Some q"
  by (metis author_of_find)

lemma counter_is_card:
  assumes "tables_ok L t" and "counts_exact t" and "find_request t r = Some q"
  shows "r_vote_count q = int (card (voters t r))"
  using assms by (simp add: counts_exactD length_votes_on tables_ok_def)

text \<open>A write of the repository that cannot fail, as one equation.\<close>

lemma upvote_no_faults:
  assumes ok: "tables_ok L (tbl s)" "counts_exact (tbl s)" and nf: "faults s = []"
    and ids: "parse_uuid L u = Some cu" "parse_uuid L i = Some r"
    and a: "author_of (tbl s) r = Some a" "a \<noteq> u"
    and user: "cu \<in> u_id ` set (users (tbl s))" and room: "int (card (voters (tbl s) r)) < int4_max"
  shows "\<exists>t'. Upvote (postgres_VoteRepo L now) u i s =
           (Inr \<lparr>RequestID = i, VoteCount = int (card (voters t' r)), UserVoted = True\<rparr>, s\<lparr>tbl := t'\<rparr>)
         \<and> t' = (if cu \<in> voters (tbl s) r then tbl s else add_vote now cu r (tbl s))"
proof -
  let ?t = "tbl s"
  let ?t' = "if cu \<in> voters ?t r then ?t else add_vote now cu r ?t"
  obtain q where q: "find_request ?t r = Some q" using author_of_find[OF a(1)] by blast
  then have r: "r \<in> r_id ` set (feature_requests ?t)" by (auto dest: find_request_SomeD)
  have "int32_range (r_vote_count q' + 1)" if "q' \<in> set (feature_requests ?t)" "r_id q' = r" for q'
    using find_request_mem[OF ok(1) that(1)] counter_is_card[OF ok, of r q'] that room
    by (simp add: int4_max_def int32_range_def)
  then have tx: "insert_vote_tx L now u i ?t = Inr (cu \<notin> voters ?t r, ?t')"
    using insert_vote_tx_eq[OF ids user r] by (auto simp: voters_def)
  have ok': "tables_ok L ?t'" "counts_exact ?t'" "author_of ?t' = author_of ?t"
    using insert_vote_tx_ok[OF tx ok] by auto
  obtain q' where q': "find_request ?t' r = Some q'" using find_request_of_author[OF ok'(3) a(1)] by blast
  have "GetVoteCount L i (s\<lparr>tbl := ?t'\<rparr>) = (Inr (int (card (voters ?t' r))), s\<lparr>tbl := ?t'\<rparr>)"
    using GetVoteCount_no_faults[of "s\<lparr>tbl := ?t'\<rparr>" L i r] nf ok' ids q' counter_is_card[OF ok'(1,2) q']
    by simp
  then show ?thesis
    using a nf ids ok tx
    by (intro exI[of _ ?t'])
       (simp add: Upvote_def postgres_VoteRepo_def GetRequestAuthorID_no_faults InsertVote_no_faults)
qed

lemma remove_no_faults:
  assumes ok: "tables_ok L (tbl s)" "counts_exact (tbl s)" and nf: "faults s = []"
    and ids: "parse_uuid L u = Some cu" "parse_uuid L i = Some r"
    and a: "author_of (tbl s) r = Some a"
  shows "\<exists>t'. RemoveVote (postgres_VoteRepo L now) u i s =
           (Inr \<lparr>RequestID = i, VoteCount = int (card (voters t' r)), UserVoted = False\<rparr>, s\<lparr>tbl := t'\<rparr>)
         \<and> t' = (if cu \<in> voters (tbl s) r then drop_vote now cu r (tbl s) else tbl s)"
proof -
  let ?t = "tbl s"
  let ?t' = "if cu \<in> voters ?t r then drop_vote now cu r ?t else ?t"
  have "int32_range (r_vote_count q' - 1)" if "q' \<in> set (feature_requests ?t)" "r_id q' = r" for q'
    using find_request_mem[OF ok(1) that(1)] counter_is_card[OF ok, of r q'] that ok(1)
    by (auto simp: int32_range_def tables_ok_def)
  then have tx: "delete_vote_tx L now u i ?t = Inr (cu \<in> voters ?t r, ?t')"
    using delete_vote_tx_eq[OF ids] by (auto simp: voters_def)
  have ok': "tables_ok L ?t'" "counts_exact ?t'" "author_of ?t' = author_of ?t"
    using delete_vote_tx_ok[OF tx ok] by auto
  obtain q' where q': "find_request ?t' r = Some q'" using find_request_of_author[OF ok'(3) a] by blast
  have "GetVoteCount L i (s\<lparr>tbl := ?t'\<rparr>) = (Inr (int (card (voters ?t' r))), s\<lparr>tbl := ?t'\<rparr>)"
    using GetVoteCount_no_faults[of "s\<lparr>tbl := ?t'\<rparr>" L i r] nf ok' ids q' counter_is_card[OF ok'(1,2) q']
    by simp
  then show ?thesis
    using a nf ids ok tx
    by (intro exI[of _ ?t'])
       (simp add: RemoveVote_def postgres_VoteRepo_def GetRequestAuthorID_no_faults DeleteVote_no_faults)
qed

section \<open>The abstract ballot\<close>

record ballot =
  b_author :: "string \<Rightarrow> string option"
  b_holders :: "string \<Rightarrow> string set"

definition abs_ballot :: "tables \<Rightarrow> ballot" where
  "abs_ballot t = \<lparr>b_author = author_of t, b_holders = voters t\<rparr>"

text \<open>The specification: a vote is a membership, the count its cardinality.\<close>

definition ballot_upvote :: "string \<Rightarrow> string \<Rightarrow> ballot \<Rightarrow> (sentinel + nat) \<times> ballot" where
  "ballot_upvote u r b =
     (case b_author b r of
        None \<Rightarrow> (Inl ErrNotFound, b)
      | Some a \<Rightarrow>
          if a = u then (Inl ErrSelfVote, b)
          else let h = insert u (b_holders b r)
               in (Inr (card h), b\<lparr>b_holders := (b_holders b)(r := h)\<rparr>))"

definition ballot_remove :: "string \<Rightarrow> string \<Rightarrow> ballot \<Rightarrow> (sentinel + nat) \<times> ballot" where
  "ballot_remove u r b =
     (case b_author b r of
        None \<Rightarrow> (Inl ErrNotFound, b)
      | Some a \<Rightarrow>
          let h = b_holders b r - {u}
          in (Inr (card h), b\<lparr>b_holders := (b_holders b)(r := h)\<rparr>))"

fun answers :: "string \<Rightarrow> bool \<Rightarrow> sentinel + nat \<Rightarrow> VoteResult result \<Rightarrow> bool" where
  "answers i voted (Inl t) (Inl e) \<longleftrightarrow> errors_Is e t"
| "answers i voted (Inr n) (Inr v) \<longleftrightarrow> v = \<lparr>RequestID = i, VoteCount = int n, UserVoted = voted\<rparr>"
| "answers i voted _ _ \<longleftrightarrow> False"

lemma abs_ballot_simps [simp]:
  "b_author (abs_ballot t) = author_of t" "b_holders (abs_ballot t) = voters t"
  by (simp_all add: abs_ballot_def)

lemma abs_ballot_eqI:
  "author_of t' = author_of t \<Longrightarrow> voters t' = (voters t)(r := h) \<Longrightarrow>
     abs_ballot t' = (abs_ballot t)\<lparr>b_holders := (voters t)(r := h)\<rparr>"
  by (simp add: abs_ballot_def)

lemma voters_add_vote_if:
  "voters (if cu \<in> voters t r then t else add_vote now cu r t) = (voters t)(r := insert cu (voters t r))"
  by (auto simp: voters_add_vote insert_absorb)

lemma voters_drop_vote_if:
  "voters (if cu \<in> voters t r then drop_vote now cu r t else t) = (voters t)(r := voters t r - {cu})"
  by (auto simp: voters_drop_vote)

lemma author_of_missing: "GetRequestAuthorID L i s = (Inl e, s') \<Longrightarrow>
   Upvote (postgres_VoteRepo L now) u i s = (Inl not_found_error, s')
 \<and> RemoveVote (postgres_VoteRepo L now) u i s = (Inl not_found_error, s')"
  by (simp add: Upvote_def RemoveVote_def postgres_VoteRepo_def)

lemma not_found_error_Is [simp]: "errors_Is not_found_error t \<longleftrightarrow> t = ErrNotFound"
  by (auto simp: not_found_error_def)

lemma demo_upvote:
  "Upvote (postgres_VoteRepo demo_lib 9) ''bob'' ''r1'' demo_pg =
     (Inr \<lparr>RequestID = ''r1'', VoteCount = 1, UserVoted = True\<rparr>,
      demo_pg\<lparr>tbl := add_vote 9 ''bob'' ''r1'' demo_tables\<rparr>)"
  using upvote_no_faults[of demo_lib demo_pg "''bob''" "''bob''" "''r1''" "''r1''" "''alice''" 9]
  by (simp add: demo_tables_ok demo_counts_exact demo_author demo_voters demo_rows int4_max_def
      voters_add_vote)

section \<open>Properties\<close>

text \<open>
  C2: When an upvote succeeds, under any faults along the way, the caller's id and the request's
  id are valid, the caller is not the author, the caller and nobody else has been added to the
  holders of votes on that request and on no other, and the reported count is the number of
  distinct users who hold a vote on it.
\<close>

theorem upvote_result_exact:
  assumes "vote_invariant L (tbl s)"
    and "Upvote (postgres_VoteRepo L now) u i s = (Inr res, s')"
  shows "\<exists>cu r. parse_uuid L u = Some cu \<and> parse_uuid L i = Some r \<and> author_of (tbl s) r \<noteq> Some u
     \<and> voters (tbl s') = (voters (tbl s))(r := insert cu (voters (tbl s) r))
     \<and> res = \<lparr>RequestID = i, VoteCount = int (card (voters (tbl s') r)), UserVoted = True\<rparr>"
  using pgvote.upvote_success[OF _ assms(2)] assms(1) by (auto simp: counters_ok_def vote_invariant_def)

theorem upvote_result_exact_witness:
  "\<exists>cu r. parse_uuid demo_lib ''bob'' = Some cu \<and> parse_uuid demo_lib ''r1'' = Some r
     \<and> author_of (tbl demo_pg) r \<noteq> Some ''bob''
     \<and> voters (tbl (demo_pg\<lparr>tbl := add_vote 9 ''bob'' ''r1'' demo_tables\<rparr>))
         = (voters (tbl demo_pg))(r := insert cu (voters (tbl demo_pg) r))
     \<and> \<lparr>RequestID = ''r1'', VoteCount = 1, UserVoted = True\<rparr>
         = \<lparr>RequestID = ''r1'', VoteCount = int (card (voters (tbl (demo_pg\<lparr>tbl := add_vote 9 ''bob'' ''r1'' demo_tables\<rparr>)) r)),
            UserVoted = True\<rparr>"
  by (rule upvote_result_exact[OF _ demo_upvote]) (simp add: demo_vote_invariant)

text \<open>
  C18: When removing a vote succeeds, under any faults along the way, the caller and nobody else
  has been taken out of the holders of votes on that request, and the reported count is the
  number of distinct users who still hold one.
\<close>

theorem remove_result_exact:
  assumes "vote_invariant L (tbl s)"
    and "RemoveVote (postgres_VoteRepo L now) u i s = (Inr res, s')"
  shows "\<exists>cu r. parse_uuid L u = Some cu \<and> parse_uuid L i = Some r
     \<and> voters (tbl s') = (voters (tbl s))(r := voters (tbl s) r - {cu})
     \<and> res = \<lparr>RequestID = i, VoteCount = int (card (voters (tbl s') r)), UserVoted = False\<rparr>"
  using pgvote.remove_success[OF _ assms(2)] assms(1) by (auto simp: counters_ok_def vote_invariant_def)

theorem remove_result_exact_witness:
  "fst (RemoveVote (postgres_VoteRepo demo_lib 9) ''bob'' ''r1'' demo_pg)
     = Inr \<lparr>RequestID = ''r1'', VoteCount = 0, UserVoted = False\<rparr>
   \<and> voters (tbl (snd (RemoveVote (postgres_VoteRepo demo_lib 9) ''bob'' ''r1'' demo_pg))) ''r1'' = {}"
proof -
  have r: "RemoveVote (postgres_VoteRepo demo_lib 9) ''bob'' ''r1'' demo_pg =
      (Inr \<lparr>RequestID = ''r1'', VoteCount = 0, UserVoted = False\<rparr>, demo_pg)"
    using remove_no_faults[of demo_lib demo_pg "''bob''" "''bob''" "''r1''" "''r1''" "''alice''" 9]
    by (simp add: demo_tables_ok demo_counts_exact demo_author demo_voters demo_pg_def)
  show ?thesis
    using remove_result_exact[OF _ r] by (auto simp: r demo_vote_invariant demo_voters)
qed

text \<open>
  C5: No upvote and no removal, however it ends and whatever round trips fail on the way, breaks
  the schema's constraints, the equality of every stored counter with the number of votes, or
  the rule that no user holds a vote on a request of their own.
\<close>

theorem vote_operations_preserve_invariant:
  assumes "vote_invariant L (tbl s)" and "parse_uuid L u = Some u"
  shows "vote_invariant L (tbl (snd (Upvote (postgres_VoteRepo L now) u i s)))
       \<and> vote_invariant L (tbl (snd (RemoveVote (postgres_VoteRepo L now) u i s)))"
  using Upvote_keeps_invariant[OF assms prod.collapse[symmetric]] RemoveVote_keeps_invariant[OF assms(1) prod.collapse[symmetric]]
  by blast

theorem vote_operations_preserve_invariant_witness:
  "vote_invariant demo_lib (tbl (snd (Upvote (postgres_VoteRepo demo_lib 9) ''bob'' ''r1''
     (demo_pg\<lparr>faults := [NoFault, NoFault, NoFault, NoFault, FailAfter (Opaque ''connection reset'')]\<rparr>))))"
  using vote_operations_preserve_invariant[of demo_lib
      "demo_pg\<lparr>faults := [NoFault, NoFault, NoFault, NoFault, FailAfter (Opaque ''connection reset'')]\<rparr>"
      "''bob''" 9 "''r1''"]
  by (simp add: demo_vote_invariant)

text \<open>
  Upvoting is idempotent: when an upvote has succeeded, repeating it (at any later time)
  returns the same result and changes nothing in the tables, not even a timestamp.
\<close>

theorem upvote_idempotent:
  assumes "vote_invariant L (tbl s)" and "faults s = []"
    and "Upvote (postgres_VoteRepo L now) u i s = (Inr res, s')" and "faults s' = []"
    and "parse_uuid L i = Some r" and "int (card (voters (tbl s') r)) < int4_max"
  shows "Upvote (postgres_VoteRepo L later) u i s' = (Inr res, s')"
proof -
  have ok: "counters_ok L s" using assms(1) by (simp add: vote_invariant_def counters_ok_def)
  from pgvote.upvote_success[OF ok assms(3)] assms(5) obtain cu where
    cu: "parse_uuid L u = Some cu" "author_of (tbl s) r \<noteq> Some u"
      "author_of (tbl s') = author_of (tbl s)" "counters_ok L s'"
      "voters (tbl s') = (voters (tbl s))(r := insert cu (voters (tbl s) r))"
      "res = \<lparr>RequestID = i, VoteCount = int (card (voters (tbl s') r)), UserVoted = True\<rparr>" by auto
  obtain a where a: "author_of (tbl s) r = Some a" "a \<noteq> u"
    using assms(3) cu(2) GetRequestAuthorID_no_faults[OF assms(2) _ assms(5)] ok
    by (fastforce simp: Upvote_def postgres_VoteRepo_def counters_ok_def split: prod.splits sum.splits option.splits)
  have "cu \<in> voters (tbl s') r" using cu(5) by simp
  moreover from this have "cu \<in> u_id ` set (users (tbl s'))"
    using cu(4) by (auto simp: counters_ok_def tables_ok_def voters_def vote_key_def)
  ultimately show ?thesis
    using upvote_no_faults[of L s' u cu i r a later] cu a assms(4,5,6)
    by (auto simp: counters_ok_def)
qed

theorem upvote_idempotent_witness:
  "Upvote (postgres_VoteRepo demo_lib 17) ''bob'' ''r1'' (demo_pg\<lparr>tbl := add_vote 9 ''bob'' ''r1'' demo_tables\<rparr>)
     = (Inr \<lparr>RequestID = ''r1'', VoteCount = 1, UserVoted = True\<rparr>,
        demo_pg\<lparr>tbl := add_vote 9 ''bob'' ''r1'' demo_tables\<rparr>)"
  by (rule upvote_idempotent[OF _ _ demo_upvote, where r = "''r1''"])
     (simp_all add: demo_vote_invariant voters_add_vote demo_voters int4_max_def)

text \<open>
  A vote on a request of one's own is refused with the self-vote error, before anything is
  written.
\<close>

theorem self_vote_refused:
  assumes "tables_ok L (tbl s)" and "faults s = []"
    and "parse_uuid L i = Some r" and "author_of (tbl s) r = Some u"
  shows "Upvote (postgres_VoteRepo L now) u i s = (Inl (Sentinel ErrSelfVote), s)"
  using GetRequestAuthorID_no_faults[OF assms(2,1,3)] assms(4)
  by (simp add: Upvote_def postgres_VoteRepo_def)

theorem self_vote_refused_witness:
  "Upvote (postgres_VoteRepo demo_lib 9) ''alice'' ''r1'' demo_pg = (Inl (Sentinel ErrSelfVote), demo_pg)"
  by (rule self_vote_refused[where r = "''r1''"])
     (simp_all add: demo_tables_ok demo_author)

text \<open>
  Casting a vote and taking it back restores the holders of votes on every request and every
  stored counter.
\<close>

theorem upvote_then_remove:
  assumes "vote_invariant L (tbl s)" and "faults s = []"
    and "Upvote (postgres_VoteRepo L now) u i s = (Inr up, s1)" and "faults s1 = []"
    and "parse_uuid L u = Some cu" and "parse_uuid L i = Some r" and "cu \<notin> voters (tbl s) r"
  shows "\<exists>s2. RemoveVote (postgres_VoteRepo L later) u i s1 =
            (Inr \<lparr>RequestID = i, VoteCount = VoteCount up - 1, UserVoted = False\<rparr>, s2)
          \<and> voters (tbl s2) = voters (tbl s) \<and> counts_exact (tbl s2)"
proof -
  have ok: "counters_ok L s" using assms(1) by (simp add: vote_invariant_def counters_ok_def)
  from pgvote.upvote_success[OF ok assms(3)] assms(5,6) have
    up: "author_of (tbl s1) = author_of (tbl s)" "counters_ok L s1"
      "voters (tbl s1) = (voters (tbl s))(r := insert cu (voters (tbl s) r))"
      "VoteCount up = int (card (voters (tbl s1) r))" by auto
  obtain a where a: "author_of (tbl s1) r = Some a"
    using assms(3) GetRequestAuthorID_no_faults[OF assms(2) _ assms(6)] ok up(1)
    by (fastforce simp: Upvote_def postgres_VoteRepo_def counters_ok_def split: prod.splits sum.splits option.splits)
  let ?t = "drop_vote later cu r (tbl s1)"
  have mem: "cu \<in> voters (tbl s1) r" using up(3) by simp
  have v: "voters ?t = voters (tbl s)"
    using up(3) assms(7) by (auto simp: voters_drop_vote fun_eq_iff)
  have "counts_exact ?t"
    using counts_exact_drop_vote[of L "tbl s1" cu r later] up(2) mem by (auto simp: counters_ok_def voters_def)
  moreover have "int (card (voters ?t r)) = VoteCount up - 1"
    using up(3,4) assms(7) v by simp
  ultimately show ?thesis
    using remove_no_faults[of L s1 u cu i r a later] up(2) a assms(4-6) mem v
    by (auto simp: counters_ok_def)
qed

theorem upvote_then_remove_witness:
  "\<exists>s2. RemoveVote (postgres_VoteRepo demo_lib 12) ''bob'' ''r1''
           (demo_pg\<lparr>tbl := add_vote 9 ''bob'' ''r1'' demo_tables\<rparr>) =
        (Inr \<lparr>RequestID = ''r1'', VoteCount = 0, UserVoted = False\<rparr>, s2)
      \<and> voters (tbl s2) = voters demo_tables \<and> counts_exact (tbl s2)"
  using upvote_then_remove[OF _ _ demo_upvote, of "''bob''" "''r1''" 12]
  by (simp add: demo_vote_invariant demo_voters)

text \<open>
  C6: Without faults the service refines the abstract ballot: for a registered caller and a
  request with room on its counter, both operations succeed or fail exactly as the specification
  says, report its count, and take the tables to tables whose ballot is the specification's.
\<close>

theorem vote_service_refines_ballot:
  assumes "vote_invariant L (tbl s)" and "faults s = []"
    and "parse_uuid L u = Some u" and "parse_uuid L i = Some r"
    and "u \<in> u_id ` set (users (tbl s))" and "int (card (voters (tbl s) r)) < int4_max"
  shows "answers i True (fst (ballot_upvote u r (abs_ballot (tbl s))))
           (fst (Upvote (postgres_VoteRepo L now) u i s))
       \<and> abs_ballot (tbl (snd (Upvote (postgres_VoteRepo L now) u i s)))
           = snd (ballot_upvote u r (abs_ballot (tbl s)))
       \<and> answers i False (fst (ballot_remove u r (abs_ballot (tbl s))))
           (fst (RemoveVote (postgres_VoteRepo L now) u i s))
       \<and> abs_ballot (tbl (snd (RemoveVote (postgres_VoteRepo L now) u i s)))
           = snd (ballot_remove u r (abs_ballot (tbl s)))"
proof -
  have ok: "tables_ok L (tbl s)" "counts_exact (tbl s)"
    using assms(1) by (simp_all add: vote_invariant_def)
  note lookup = GetRequestAuthorID_no_faults[OF assms(2) ok(1) assms(4)]
  show ?thesis
  proof (cases "author_of (tbl s) r")
    case None
    with author_of_missing[of L i s] lookup show ?thesis
      by (simp add: ballot_upvote_def ballot_remove_def)
  next
    case (Some a)
    obtain t' where rem: "RemoveVote (postgres_VoteRepo L now) u i s =
        (Inr \<lparr>RequestID = i, VoteCount = int (card (voters t' r)), UserVoted = False\<rparr>, s\<lparr>tbl := t'\<rparr>)"
      "t' = (if u \<in> voters (tbl s) r then drop_vote now u r (tbl s) else tbl s)"
      using remove_no_faults[OF ok assms(2-4) Some] by blast
    have rem_abs: "abs_ballot t' = (abs_ballot (tbl s))\<lparr>b_holders := (voters (tbl s))(r := voters (tbl s) r - {u})\<rparr>"
      "voters t' r = voters (tbl s) r - {u}"
      using rem(2) by (auto simp: voters_drop_vote_if intro!: abs_ballot_eqI)
    show ?thesis
    proof (cases "a = u")
      case True
      with Some lookup rem rem_abs show ?thesis
        by (simp add: ballot_upvote_def ballot_remove_def Upvote_def postgres_VoteRepo_def Let_def)
    next
      case False
      obtain t2 where up: "Upvote (postgres_VoteRepo L now) u i s =
          (Inr \<lparr>RequestID = i, VoteCount = int (card (voters t2 r)), UserVoted = True\<rparr>, s\<lparr>tbl := t2\<rparr>)"
        "t2 = (if u \<in> voters (tbl s) r then tbl s else add_vote now u r (tbl s))"
        using upvote_no_faults[OF ok assms(2-4) Some False assms(5,6)] by blast
      have "abs_ballot t2 = (abs_ballot (tbl s))\<lparr>b_holders := (voters (tbl s))(r := insert u (voters (tbl s) r))\<rparr>"
        "voters t2 r = insert u (voters (tbl s) r)"
        using up(2) by (auto simp: voters_add_vote_if intro!: abs_ballot_eqI)
      with Some False up(1) rem(1) rem_abs show ?thesis
        by (simp add: ballot_upvote_def ballot_remove_def Let_def)
    qed
  qed
qed

theorem vote_service_refines_ballot_witness:
  "answers ''r1'' True (fst (ballot_upvote ''bob'' ''r1'' (abs_ballot (tbl demo_pg))))
     (fst (Upvote (postgres_VoteRepo demo_lib 9) ''bob'' ''r1'' demo_pg))"
  using vote_service_refines_ballot[of demo_lib demo_pg "''bob''" "''r1''" "''r1''" 9]
  by (simp add: demo_vote_invariant demo_rows demo_voters int4_max_def)

end
