(* ===== verification/Keyset.thy ===== *)
theory Keyset
  imports Database "HOL-Library.List_Lexorder" "HOL-Library.Char_ord" "HOL-Library.Multiset"
begin

text \<open>
  Keyset queries: \<open>WHERE key < c ORDER BY key DESC LIMIT n\<close> over rows with distinct keys. The two
  key types are the sort tuples of the \<open>new\<close> and the \<open>top\<close> list with the lexicographic order of
  SQL row comparison; identifiers compare as text, which for canonical UUIDs is the order of
  their bytes. The lemmas say what a page is: a stretch of the rows in descending order that
  starts right after the row the cursor names.
\<close>

section \<open>Sort keys\<close>

datatype new_key = NewKey (nk_created: int) (nk_id: string)

datatype top_key = TopKey (tk_votes: int) (tk_created: int) (tk_id: string)

instantiation new_key :: linorder
begin

definition less_new_key :: "new_key \<Rightarrow> new_key \<Rightarrow> bool" where
  "a < b \<longleftrightarrow> nk_created a < nk_created b \<or> nk_created a = nk_created b \<and> nk_id a < nk_id b"

definition less_eq_new_key :: "new_key \<Rightarrow> new_key \<Rightarrow> bool" where
  "(a :: new_key) \<le> b \<longleftrightarrow> a < b \<or> a = b"

instance
  by standard
     (auto simp: less_eq_new_key_def less_new_key_def new_key.expand intro: new_key.expand)

end

instantiation top_key :: linorder
begin

definition less_top_key :: "top_key \<Rightarrow> top_key \<Rightarrow> bool" where
  "a < b \<longleftrightarrow> tk_votes a < tk_votes b
     \<or> tk_votes a = tk_votes b \<and> (tk_created a < tk_created b
         \<or> tk_created a = tk_created b \<and> tk_id a < tk_id b)"

definition less_eq_top_key :: "top_key \<Rightarrow> top_key \<Rightarrow> bool" where
  "(a :: top_key) \<le> b \<longleftrightarrow> a < b \<or> a = b"

instance
  by standard
     (auto simp: less_eq_top_key_def less_top_key_def intro: top_key.expand)

end

section \<open>Pages\<close>

definition keyset_page :: "('r \<Rightarrow> 'k::linorder) \<Rightarrow> 'k option \<Rightarrow> nat \<Rightarrow> 'r list \<Rightarrow> 'r list" where
  "keyset_page key cur n rows =
     take n (rev (sort_key key
       (filter (\<lambda>r. case cur of None \<Rightarrow> True | Some c \<Rightarrow> key r < c) rows)))"

definition descending :: "('r \<Rightarrow> 'k::linorder) \<Rightarrow> 'r list \<Rightarrow> 'r list" where
  "descending key rows = rev (sort_key key rows)"

lemma mset_descending [simp]: "mset (descending key rows) = mset rows"
  by (simp add: descending_def)

lemma set_descending [simp]: "set (descending key rows) = set rows"
  by (simp add: descending_def)

lemma length_descending [simp]: "length (descending key rows) = length rows"
  by (simp add: descending_def)

lemma descending_sorted:
  assumes "distinct (map key rows)"
  shows "sorted_wrt (\<lambda>a b. key b < key a) (descending key rows)"
proof -
  have "distinct (map key (sort_key key rows))"
    using assms by (metis mset_map mset_sort mset_eq_imp_distinct_iff)
  then have "sorted_wrt (<) (map key (sort_key key rows))"
    by (simp add: strict_sorted_iff)
  then show ?thesis by (simp add: descending_def sorted_wrt_rev sorted_wrt_map)
qed

lemma keyset_first_page: "keyset_page key None n rows = take n (descending key rows)"
  by (simp add: keyset_page_def descending_def)

text \<open>The page after a row is the next stretch of the descending list.\<close>

lemma keyset_next_page:
  assumes "distinct (map key rows)" and "descending key rows = pre @ x # post"
  shows "keyset_page key (Some (key x)) n rows = take n post"
proof -
  have "sorted_wrt (\<lambda>a b. key b < key a) (pre @ x # post)"
    using descending_sorted[OF assms(1)] assms(2) by simp
  then have "\<forall>a \<in> set pre. \<not> key a < key x" "\<forall>b \<in> set post. key b < key x"
    by (auto simp: sorted_wrt_append dest: less_asym)
  then have "filter (\<lambda>r. key r < key x) (descending key rows) = post"
    using assms(2) by (auto simp: filter_empty_conv intro: filter_True)
  then show ?thesis
    by (simp add: keyset_page_def descending_def rev_filter filter_sort[symmetric])
qed

end
