(* ===== verification/Request_Repo.thy ===== *)
theory Request_Repo
  imports Keyset Cursor Vote_Tables
begin

text \<open>
  \<open>internal/repository/postgres/requests.go\<close>: inserting, fetching and listing feature requests. A
  list query is assembled from an optional cursor condition, an order and a limit; a cursor that
  does not decode is dropped and the first page is returned. The lemmas say which rows a list
  query returns and in which order.
\<close>

section \<open>Rows as Go values\<close>

definition viewer_has_voted :: "tables \<Rightarrow> string \<Rightarrow> request_row \<Rightarrow> bool" where
  "viewer_has_voted t viewer q \<longleftrightarrow> (viewer, r_id q) \<in> vote_key ` set (votes t)"

text \<open>\<open>scanRequest\<close>, \<open>scanRequestWithVote\<close> and the loop body of \<open>collectRequests\<close>.\<close>

definition scan_row :: "request_row \<times> bool \<Rightarrow> FeatureRequest" where
  "scan_row p =
     \<lparr>fr_ID = r_id (fst p), fr_AuthorID = r_author_id (fst p), fr_Title = r_title (fst p),
      fr_Description = r_description (fst p), fr_VoteCount = r_vote_count (fst p),
      fr_CreatedAt = time_of_timestamptz (r_created_at (fst p)),
      fr_UpdatedAt = time_of_timestamptz (r_updated_at (fst p)), fr_ViewerHasVoted = snd p\<rparr>"

definition scanRequest :: "request_row result \<Rightarrow> FeatureRequest result" where
  "scanRequest r =
     (case r of
        Inl e \<Rightarrow> if is_sentinel_value e PgxErrNoRows then Inl (Sentinel ErrNotFound)
                 else Inl (wrap ''scan request: '' e)
      | Inr q \<Rightarrow> Inr (scan_row (q, False)))"

definition scanRequestWithVote :: "(request_row \<times> bool) result \<Rightarrow> FeatureRequest result" where
  "scanRequestWithVote r =
     (case r of
        Inl e \<Rightarrow> if is_sentinel_value e PgxErrNoRows then Inl (Sentinel ErrNotFound)
                 else Inl (wrap ''scan request: '' e)
      | Inr p \<Rightarrow> Inr (scan_row p))"

definition collectRequests :: "(request_row \<times> bool) list result \<Rightarrow> FeatureRequest list result" where
  "collectRequests r = (case r of Inl e \<Rightarrow> Inl e | Inr ps \<Rightarrow> Inr (map scan_row ps))"

section \<open>Inserting and fetching\<close>

text \<open>
  \<open>INSERT INTO feature_requests (author_id, title, description) ... RETURNING ...\<close>; the server
  supplies \<open>gen\<close> (from \<open>gen_random_uuid()\<close>), the time and a zero count.
\<close>

definition insertFeatureRequestSQL ::
  "pg_lib \<Rightarrow> int \<Rightarrow> string \<Rightarrow> string \<Rightarrow> string \<Rightarrow> string \<Rightarrow> request_row list stmt" where
  "insertFeatureRequestSQL L now gen authorID title description t =
     (case bind_uuid L authorID of Inl e \<Rightarrow> Inl e | Inr a \<Rightarrow>
      if gen \<in> r_id ` set (feature_requests t)
      then Inl (PgError ''23505'' ''duplicate key value violates unique constraint \"feature_requests_pkey\"'')
      else if a \<notin> u_id ` set (users t)
      then Inl (PgError ''23503'' ''insert or update on table \"feature_requests\" violates foreign key constraint \"feature_requests_author_id_fkey\"'')
      else let q = \<lparr>r_id = gen, r_author_id = a, r_title = title, r_description = description,
                    r_vote_count = 0, r_created_at = now, r_updated_at = now\<rparr>
           in Inr ([q], t\<lparr>feature_requests := feature_requests t @ [q]\<rparr>))"

definition InsertFeatureRequest ::
  "pg_lib \<Rightarrow> int \<Rightarrow> string \<Rightarrow> string \<Rightarrow> string \<Rightarrow> string \<Rightarrow> (pg, FeatureRequest) eff" where
  "InsertFeatureRequest L now gen authorID title description s =
     (case query_row (insertFeatureRequestSQL L now gen authorID title description) s of
        (r, s') \<Rightarrow> (scanRequest r, s'))"

definition selectRequestSQL :: "pg_lib \<Rightarrow> string \<Rightarrow> string \<Rightarrow> (request_row \<times> bool) list stmt" where
  "selectRequestSQL L i viewerID t =
     (case bind_uuid L i of Inl e \<Rightarrow> Inl e | Inr r \<Rightarrow>
      (case bind_uuid L viewerID of Inl e \<Rightarrow> Inl e | Inr v \<Rightarrow>
       Inr (map (\<lambda>q. (q, viewer_has_voted t v q))
              (filter (\<lambda>q. r_id q = r) (feature_requests t)), t)))"

definition GetFeatureRequest :: "pg_lib \<Rightarrow> string \<Rightarrow> string \<Rightarrow> (pg, FeatureRequest) eff" where
  "GetFeatureRequest L i viewerID s =
     (case query_row (selectRequestSQL L i viewerID) s of (r, s') \<Rightarrow> (scanRequestWithVote r, s'))"

section \<open>Listing\<close>

text \<open>The cursor a list query uses, if any.\<close>

definition usable_cursor :: "string option \<Rightarrow> rawCursor option" where
  "usable_cursor c =
     (case c of
        None \<Rightarrow> None
      | Some text \<Rightarrow>
          if text = [] then None
          else (case decodeCursorRaw text of Inl e \<Rightarrow> None | Inr cur \<Rightarrow> Some cur))"

definition new_key_of :: "request_row \<Rightarrow> new_key" where
  "new_key_of q = NewKey (r_created_at q) (r_id q)"

definition top_key_of :: "request_row \<Rightarrow> top_key" where
  "top_key_of q = TopKey (r_vote_count q) (r_created_at q) (r_id q)"

text \<open>
  The assembled statement: the viewer, the cursor's id (when there is a cursor) and the limit are
  parameters the server converts before it runs the query. \<open>cursor_key\<close> builds the right side
  of the row comparison from the converted id.
\<close>

definition listSQL ::
  "pg_lib \<Rightarrow> (request_row \<Rightarrow> 'k::linorder) \<Rightarrow> (rawCursor \<Rightarrow> string \<Rightarrow> 'k) \<Rightarrow> string \<Rightarrow>
     rawCursor option \<Rightarrow> int \<Rightarrow> (request_row \<times> bool) list stmt" where
  "listSQL L key cursor_key viewerID cur limit t =
     (case bind_uuid L viewerID of Inl e \<Rightarrow> Inl e | Inr v \<Rightarrow>
      (case (case cur of None \<Rightarrow> Inr None
             | Some c \<Rightarrow> (case bind_uuid L (raw_id c) of Inl e \<Rightarrow> Inl e
                           | Inr i \<Rightarrow> Inr (Some (cursor_key c i)))) of
         Inl e \<Rightarrow> Inl e
       | Inr ck \<Rightarrow>
           if limit < 0 then Inl (PgError ''2201W'' ''LIMIT must not be negative'')
           else Inr (map (\<lambda>q. (q, viewer_has_voted t v q))
                       (keyset_page key ck (nat limit) (feature_requests t)), t)))"

definition new_cursor_key :: "rawCursor \<Rightarrow> string \<Rightarrow> new_key" where
  "new_cursor_key c i = NewKey (timestamptz_of_time (raw_createdAt c)) i"

definition top_cursor_key :: "rawCursor \<Rightarrow> string \<Rightarrow> top_key" where
  "top_cursor_key c i = TopKey (raw_voteCount c) (timestamptz_of_time (raw_createdAt c)) i"

definition ListRequestsByNew :: "pg_lib \<Rightarrow> ListParams \<Rightarrow> (pg, FeatureRequest list) eff" where
  "ListRequestsByNew L params s =
     (case query_rows ''list by new: ''
             (listSQL L new_key_of new_cursor_key (ViewerID params)
                (usable_cursor (Cursor params)) (Limit params)) s of
        (r, s') \<Rightarrow> (collectRequests r, s'))"

definition ListRequestsByTop :: "pg_lib \<Rightarrow> ListParams \<Rightarrow> (pg, FeatureRequest list) eff" where
  "ListRequestsByTop L params s =
     (case query_rows ''list by top: ''
             (listSQL L top_key_of top_cursor_key (ViewerID params)
                (usable_cursor (Cursor params)) (Limit params)) s of
        (r, s') \<Rightarrow> (collectRequests r, s'))"

definition ListRequestsByTrending :: "pg_lib \<Rightarrow> ListParams \<Rightarrow> (pg, FeatureRequest list) eff" where
  "ListRequestsByTrending L params s = ListRequestsByTop L params s"

section \<open>Reads leave the tables alone\<close>

lemma request_reads_only:
  "reads_only (selectRequestSQL L i v)" "reads_only (listSQL L key ck v cur limit)"
  by (auto simp: reads_only_def selectRequestSQL_def listSQL_def split: sum.splits if_splits)

lemma GetFeatureRequest_tbl: "tbl (snd (GetFeatureRequest L i v s)) = tbl s"
  using query_row_reads[OF request_reads_only(1), of L i v s]
  by (auto simp: GetFeatureRequest_def split: prod.splits)

lemma ListRequestsByNew_tbl: "tbl (snd (ListRequestsByNew L p s)) = tbl s"
  unfolding ListRequestsByNew_def by (auto split: prod.splits dest: query_rows_cases(1) intro: request_reads_only)

lemma ListRequestsByTop_tbl: "tbl (snd (ListRequestsByTop L p s)) = tbl s"
  unfolding ListRequestsByTop_def by (auto split: prod.splits dest: query_rows_cases(1) intro: request_reads_only)

section \<open>What the queries return\<close>

text \<open>The whole list a viewer sees, in the order of a key.\<close>

definition listing :: "(request_row \<Rightarrow> 'k::linorder) \<Rightarrow> tables \<Rightarrow> string \<Rightarrow> FeatureRequest list" where
  "listing key t v = map (\<lambda>q. scan_row (q, viewer_has_voted t v q)) (descending key (feature_requests t))"

lemma keys_distinct:
  assumes "tables_ok L t"
  shows "distinct (map new_key_of (feature_requests t))" "distinct (map top_key_of (feature_requests t))"
  using assms by (auto simp: tables_ok_def distinct_map inj_on_def new_key_of_def top_key_of_def)

text \<open>
  Creation times whose nanoseconds fit in an \<open>int64\<close>; outside that range cursors are not faithful.
\<close>

definition times_ok :: "tables \<Rightarrow> bool" where
  "times_ok t \<longleftrightarrow> (\<forall>q \<in> set (feature_requests t). int64_range (time_of_timestamptz (r_created_at q)))"

definition ids_ok :: "tables \<Rightarrow> bool" where
  "ids_ok t \<longleftrightarrow> (\<forall>q \<in> set (feature_requests t). CHR ''|'' \<notin> set (r_id q))"

lemma usable_cursor_encode:
  assumes "tables_ok L t" and "times_ok t" and "ids_ok t" and "q \<in> set (feature_requests t)"
  shows "usable_cursor (Some (encodeCursor (scan_row (q, b)))) =
     Some \<lparr>raw_id = r_id q, raw_createdAt = time_of_timestamptz (r_created_at q), raw_voteCount = r_vote_count q\<rparr>"
  using assms decodeCursorRaw_encodeCursor[of "scan_row (q, b)"]
  by (auto simp: usable_cursor_def encodeCursor_nonempty tables_ok_def times_ok_def ids_ok_def scan_row_def)

lemma listSQL_first:
  assumes "parse_uuid L viewer = Some v" and "0 \<le> limit"
  shows "listSQL L key ck viewer None limit t =
     Inr (map (\<lambda>q. (q, viewer_has_voted t v q)) (take (nat limit) (descending key (feature_requests t))), t)"
  using assms by (simp add: listSQL_def bind_uuid_def keyset_first_page)

lemma listSQL_next:
  assumes "parse_uuid L viewer = Some v" and "0 \<le> limit"
    and "distinct (map key (feature_requests t))" and "descending key (feature_requests t) = pre @ x # post"
    and "parse_uuid L (raw_id c) = Some (r_id x)" and "ck c (r_id x) = key x"
  shows "listSQL L key ck viewer (Some c) limit t =
     Inr (map (\<lambda>q. (q, viewer_has_voted t v q)) (take (nat limit) post), t)"
  using assms(1,2,5,6) keyset_next_page[OF assms(3,4)] by (simp add: listSQL_def bind_uuid_def)

lemma query_rows_no_faults:
  "faults s = [] \<Longrightarrow> st (tbl s) = Inr (rows, tbl s) \<Longrightarrow> query_rows pre st s = (Inr rows, s)"
  by (simp add: query_rows_def next_fault_no_faults)

end
