(* ===== verification/Request_Service.thy ===== *)
theory Request_Service
  imports Request_Repo
begin

text \<open>
  \<open>internal/service/request.go\<close> and \<open>internal/service/ranking.go\<close>: validation and submission of a
  request, fetching one, and the two list methods with their over-fetching of one row and their
  cursor to the next page. The repositories are the records of operations the Go interfaces
  declare. The locale \<open>keyset_lister\<close> states what a list operation of a repository promises
  about its pages; the lemmas about one page and about following cursors to the end are proved
  from it, and it is interpreted on both list queries of the PostgreSQL repository.
\<close>

record 's RequestRepo =
  rq_InsertFeatureRequest :: "string \<Rightarrow> string \<Rightarrow> string \<Rightarrow> ('s, FeatureRequest) eff"
  rq_ListRequestsByNew :: "ListParams \<Rightarrow> ('s, FeatureRequest list) eff"
  rq_ListRequestsByTop :: "ListParams \<Rightarrow> ('s, FeatureRequest list) eff"
  rq_GetFeatureRequest :: "string \<Rightarrow> string \<Rightarrow> ('s, FeatureRequest) eff"

record 's RankingRepo =
  rk_ListRequestsByTop :: "ListParams \<Rightarrow> ('s, FeatureRequest list) eff"
  rk_ListRequestsByTrending :: "ListParams \<Rightarrow> ('s, FeatureRequest list) eff"
  rk_ListRequestsByNew :: "ListParams \<Rightarrow> ('s, FeatureRequest list) eff"

section \<open>Submitting and fetching\<close>

definition maxTitleLen :: nat where "maxTitleLen = 100"
definition maxDescriptionLen :: nat where "maxDescriptionLen = 5000"

definition validation_error :: "string \<Rightarrow> goerror" where
  "validation_error msg = Wrapf [] (Sentinel ErrValidation) ('': '' @ msg)"

definition Submit :: "'s RequestRepo \<Rightarrow> string \<Rightarrow> string \<Rightarrow> string \<Rightarrow> ('s, FeatureRequest) eff" where
  "Submit repo authorID title0 description0 s =
     (let title = TrimSpace title0; description = TrimSpace description0 in
      if title = [] then (Inl (validation_error ''title is required''), s)
      else if length title > maxTitleLen
      then (Inl (validation_error (''title must be '' @ format_int (int maxTitleLen) @ '' characters or fewer'')), s)
      else if description = [] then (Inl (validation_error ''description is required''), s)
      else if length description > maxDescriptionLen
      then (Inl (validation_error (''description must be '' @ format_int (int maxDescriptionLen) @ '' characters or fewer'')), s)
      else (case rq_InsertFeatureRequest repo authorID title description s of
              (Inl e, s') \<Rightarrow> (Inl (wrap ''insert feature request: '' e), s')
            | (Inr req, s') \<Rightarrow> (Inr req, s')))"

definition GetByID :: "'s RequestRepo \<Rightarrow> string \<Rightarrow> string \<Rightarrow> ('s, FeatureRequest) eff" where
  "GetByID repo i viewerID s =
     (case rq_GetFeatureRequest repo i viewerID s of
        (Inl e, s') \<Rightarrow> (Inl (wrap ''get feature request: '' e), s')
      | (Inr req, s') \<Rightarrow> (Inr req, s'))"

section \<open>Listing\<close>

definition RequestService_List :: "'s RequestRepo \<Rightarrow> ListParams \<Rightarrow> ('s, RequestPage) eff" where
  "RequestService_List repo params0 s =
     (let params = (if Limit params0 \<le> 0 \<or> Limit params0 > 100 then params0\<lparr>Limit := 20\<rparr> else params0);
          fetchLimit = Limit params + 1;
          fetchParams = \<lparr>Sort = Sort params, Cursor = Cursor params, Limit = fetchLimit, ViewerID = ViewerID params\<rparr>;
          lister = (if Sort params = ''top'' then rq_ListRequestsByTop repo
                    else if Sort params = ''trending'' then rq_ListRequestsByTop repo
                    else rq_ListRequestsByNew repo)
      in (case lister fetchParams s of
            (Inl e, s') \<Rightarrow> (Inl (wrap ''list requests: '' e), s')
          | (Inr items, s') \<Rightarrow>
              if int (length items) > Limit params
              then let items' = take (nat (Limit params)) items;
                       lastItem = items' ! (length items' - 1)
                   in (Inr \<lparr>Items = items', NextCursor = Some (encodeCursor lastItem)\<rparr>, s')
              else (Inr \<lparr>Items = items, NextCursor = None\<rparr>, s')))"

definition RankingService_List :: "'s RankingRepo \<Rightarrow> ListParams \<Rightarrow> ('s, RequestPage) eff" where
  "RankingService_List repo params0 s =
     (let params = (if Limit params0 \<le> 0 \<or> Limit params0 > 100 then params0\<lparr>Limit := 20\<rparr> else params0);
          fetchParams = \<lparr>Sort = Sort params, Cursor = Cursor params, Limit = Limit params + 1, ViewerID = ViewerID params\<rparr>;
          lister = (if Sort params = ''top'' then rk_ListRequestsByTop repo
                    else if Sort params = ''trending'' then rk_ListRequestsByTrending repo
                    else rk_ListRequestsByNew repo)
      in (case lister fetchParams s of
            (Inl e, s') \<Rightarrow> (Inl (wrap (''list requests ('' @ Sort params @ ''): '') e), s')
          | (Inr items, s') \<Rightarrow>
              if int (length items) > Limit params
              then let items' = take (nat (Limit params)) items;
                       lastItem = items' ! (length items' - 1);
                       raw = fr_ID lastItem @ ''|'' @ format_int (UnixNano (fr_CreatedAt lastItem)) @ ''|''
                               @ format_int (fr_VoteCount lastItem)
                   in (Inr \<lparr>Items = items', NextCursor = Some (EncodeToString url_alphabet raw)\<rparr>, s')
              else (Inr \<lparr>Items = items, NextCursor = None\<rparr>, s')))"

text \<open>Both methods are one page computation over a chosen list operation.\<close>

definition effective_limit :: "int \<Rightarrow> nat" where
  "effective_limit l = (if l \<le> 0 \<or> l > 100 then 20 else nat l)"

definition page_of :: "nat \<Rightarrow> FeatureRequest list \<Rightarrow> RequestPage" where
  "page_of n xs =
     (if length xs > n then \<lparr>Items = take n xs, NextCursor = Some (encodeCursor (xs ! (n - 1)))\<rparr>
      else \<lparr>Items = xs, NextCursor = None\<rparr>)"

definition list_page ::
  "(ListParams \<Rightarrow> ('s, FeatureRequest list) eff) \<Rightarrow> (goerror \<Rightarrow> goerror) \<Rightarrow> ListParams \<Rightarrow> ('s, RequestPage) eff" where
  "list_page lister f params s =
     (case lister (params\<lparr>Limit := int (effective_limit (Limit params)) + 1\<rparr>) s of
        (Inl e, s') \<Rightarrow> (Inl (f e), s')
      | (Inr items, s') \<Rightarrow> (Inr (page_of (effective_limit (Limit params)) items), s'))"

lemma effective_limit_bounds: "1 \<le> effective_limit l" "effective_limit l \<le> 100"
  by (auto simp: effective_limit_def)

lemma params_rebuild:
  "\<lparr>Sort = Sort p, Cursor = Cursor p, Limit = l, ViewerID = ViewerID p\<rparr> = p\<lparr>Limit := l\<rparr>"
  for p :: ListParams
  by simp

lemma page_last:
  "1 \<le> n \<Longrightarrow> n < length items \<Longrightarrow> take n items ! (length (take n items) - 1) = items ! (n - 1)"
  by simp

lemma clamp_cases:
  "(if l \<le> 0 \<or> l > 100 then 20 else l) = int (effective_limit l)"
  by (simp add: effective_limit_def)

lemma limit_clamp:
  "Limit (if Limit p \<le> 0 \<or> Limit p > 100 then p\<lparr>Limit := 20\<rparr> else p) = int (effective_limit (Limit p))"
  "Sort (if Limit p \<le> 0 \<or> Limit p > 100 then p\<lparr>Limit := 20\<rparr> else p) = Sort p"
  "Cursor (if Limit p \<le> 0 \<or> Limit p > 100 then p\<lparr>Limit := 20\<rparr> else p) = Cursor p"
  "ViewerID (if Limit p \<le> 0 \<or> Limit p > 100 then p\<lparr>Limit := 20\<rparr> else p) = ViewerID p"
  for p :: ListParams
  by (simp_all add: effective_limit_def)

definition ranking_lister :: "'s RankingRepo \<Rightarrow> string \<Rightarrow> ListParams \<Rightarrow> ('s, FeatureRequest list) eff" where
  "ranking_lister repo mode =
     (if mode = ''top'' then rk_ListRequestsByTop repo
      else if mode = ''trending'' then rk_ListRequestsByTrending repo else rk_ListRequestsByNew repo)"

definition request_lister :: "'s RequestRepo \<Rightarrow> string \<Rightarrow> ListParams \<Rightarrow> ('s, FeatureRequest list) eff" where
  "request_lister repo mode =
     (if mode = ''top'' \<or> mode = ''trending'' then rq_ListRequestsByTop repo else rq_ListRequestsByNew repo)"

lemma RankingService_List_page:
  "RankingService_List repo p s =
     list_page (ranking_lister repo (Sort p)) (wrap (''list requests ('' @ Sort p @ ''): '')) p s"
  using effective_limit_bounds(1)[of "Limit p"]
  unfolding RankingService_List_def list_page_def Let_def limit_clamp params_rebuild ranking_lister_def[symmetric]
  by (simp add: page_of_def encodeCursor_def split: prod.split sum.split)

lemma RequestService_List_page:
  "RequestService_List repo p s = list_page (request_lister repo (Sort p)) (wrap ''list requests: '') p s"
proof -
  have l: "(if Sort p = ''top'' then rq_ListRequestsByTop repo
      else if Sort p = ''trending'' then rq_ListRequestsByTop repo else rq_ListRequestsByNew repo)
        = request_lister repo (Sort p)"
    by (simp add: request_lister_def)
  show ?thesis
    using effective_limit_bounds(1)[of "Limit p"]
    unfolding RequestService_List_def list_page_def Let_def limit_clamp params_rebuild l
    by (simp add: page_of_def encodeCursor_def split: prod.split sum.split)
qed

section \<open>Following cursors\<close>

text \<open>
  What a client does with \<open>next_cursor\<close>: ask for a page, and as long as it carries a cursor ask
  again with it. The fuel bounds the number of requests; \<open>None\<close> is running out of it or an error.
\<close>

fun collect_pages ::
  "nat \<Rightarrow> (ListParams \<Rightarrow> ('s, RequestPage) eff) \<Rightarrow> ListParams \<Rightarrow> 's \<Rightarrow> FeatureRequest list option" where
  "collect_pages 0 svc p s = None"
| "collect_pages (Suc fuel) svc p s =
     (case svc p s of
        (Inl e, s') \<Rightarrow> None
      | (Inr page, s') \<Rightarrow>
          (case NextCursor page of
             None \<Rightarrow> Some (Items page)
           | Some c \<Rightarrow> map_option ((@) (Items page)) (collect_pages fuel svc (p\<lparr>Cursor := Some c\<rparr>) s')))"

text \<open>
  The contract of a list operation: \<open>whole s v\<close> is the entire list the viewer sees, the first page
  is its beginning, and the page after the cursor of an item is what follows that item.
\<close>

locale keyset_lister =
  fixes lister :: "ListParams \<Rightarrow> ('s, FeatureRequest list) eff"
    and ready :: "'s \<Rightarrow> string \<Rightarrow> bool"
    and whole :: "'s \<Rightarrow> string \<Rightarrow> FeatureRequest list"
  assumes first_page: "ready s (ViewerID p) \<Longrightarrow> Cursor p = None \<Longrightarrow> 0 \<le> Limit p \<Longrightarrow>
      lister p s = (Inr (take (nat (Limit p)) (whole s (ViewerID p))), s)"
    and next_page: "ready s (ViewerID p) \<Longrightarrow> whole s (ViewerID p) = pre @ x # post \<Longrightarrow>
      Cursor p = Some (encodeCursor x) \<Longrightarrow> 0 \<le> Limit p \<Longrightarrow>
      lister p s = (Inr (take (nat (Limit p)) post), s)"
begin

text \<open>\<open>at p s rest\<close>: the cursor of \<open>p\<close> stands before \<open>rest\<close>, a final part of the list.\<close>

definition at :: "ListParams \<Rightarrow> 's \<Rightarrow> FeatureRequest list \<Rightarrow> bool" where
  "at p s rest \<longleftrightarrow>
     ready s (ViewerID p) \<and>
     (Cursor p = None \<and> whole s (ViewerID p) = rest
      \<or> (\<exists>pre x. Cursor p = Some (encodeCursor x) \<and> whole s (ViewerID p) = pre @ x # rest))"

lemma page_at:
  assumes "at p s rest"
  shows "list_page lister f p s = (Inr (page_of (effective_limit (Limit p)) rest), s)"
proof -
  let ?n = "effective_limit (Limit p)"
  have "lister (p\<lparr>Limit := int ?n + 1\<rparr>) s = (Inr (take (Suc ?n) rest), s)"
    using assms first_page[of s "p\<lparr>Limit := int ?n + 1\<rparr>"] next_page[of s "p\<lparr>Limit := int ?n + 1\<rparr>"]
    by (auto simp: at_def nat_add_distrib)
  moreover have "page_of ?n (take (Suc ?n) rest) = page_of ?n rest"
    using effective_limit_bounds(1)[of "Limit p"] by (auto simp: page_of_def min_def)
  ultimately show ?thesis by (simp add: list_page_def)
qed

lemma at_advance:
  assumes "at p s rest" and "1 \<le> n" and "n < length rest"
  shows "at (p\<lparr>Cursor := Some (encodeCursor (rest ! (n - 1)))\<rparr>) s (drop n rest)"
proof -
  obtain pre where pre: "whole s (ViewerID p) = pre @ rest"
    using assms(1) unfolding at_def by (metis append.assoc append_Cons append_Nil)
  have "rest = take (n - 1) rest @ rest ! (n - 1) # drop n rest"
    using assms(2,3) id_take_nth_drop[of "n - 1" rest] by simp
  with pre have "whole s (ViewerID p) = (pre @ take (n - 1) rest) @ rest ! (n - 1) # drop n rest"
    by simp
  with assms(1) show ?thesis unfolding at_def by (simp del: append_assoc)
qed

lemma collect_at:
  assumes "at p s rest" and "length rest < fuel"
  shows "collect_pages fuel (list_page lister f) p s = Some rest"
  using assms
proof (induction fuel arbitrary: p rest)
  case (Suc fuel)
  let ?n = "effective_limit (Limit p)"
  note page = page_at[OF Suc.prems(1), of f]
  show ?case
  proof (cases "length rest > ?n")
    case False
    then show ?thesis by (simp add: page page_of_def)
  next
    case True
    have n: "1 \<le> ?n" by (rule effective_limit_bounds)
    have "collect_pages fuel (list_page lister f)
        (p\<lparr>Cursor := Some (encodeCursor (rest ! (?n - 1)))\<rparr>) s = Some (drop ?n rest)"
      using Suc.prems(2) n True by (intro Suc.IH at_advance[OF Suc.prems(1) n True]) simp
    with True show ?thesis by (simp add: page page_of_def)
  qed
qed simp

lemma collect_all:
  assumes "ready s (ViewerID p)" and "Cursor p = None" and "length (whole s (ViewerID p)) < fuel"
  shows "collect_pages fuel (list_page lister f) p s = Some (whole s (ViewerID p))"
  using assms by (intro collect_at) (auto simp: at_def)

end

section \<open>The PostgreSQL lists keep the contract\<close>

definition postgres_RequestRepo :: "pg_lib \<Rightarrow> int \<Rightarrow> string \<Rightarrow> pg RequestRepo" where
  "postgres_RequestRepo L now gen =
     \<lparr>rq_InsertFeatureRequest = InsertFeatureRequest L now gen,
      rq_ListRequestsByNew = ListRequestsByNew L, rq_ListRequestsByTop = ListRequestsByTop L,
      rq_GetFeatureRequest = GetFeatureRequest L\<rparr>"

definition postgres_RankingRepo :: "pg_lib \<Rightarrow> pg RankingRepo" where
  "postgres_RankingRepo L =
     \<lparr>rk_ListRequestsByTop = ListRequestsByTop L, rk_ListRequestsByTrending = ListRequestsByTrending L,
      rk_ListRequestsByNew = ListRequestsByNew L\<rparr>"

definition lists_ready :: "pg_lib \<Rightarrow> pg \<Rightarrow> string \<Rightarrow> bool" where
  "lists_ready L s v \<longleftrightarrow>
     faults s = [] \<and> tables_ok L (tbl s) \<and> times_ok (tbl s) \<and> ids_ok (tbl s) \<and> parse_uuid L v = Some v"

text \<open>Both queries at once: any key whose cursor form names the row it was made from.\<close>

lemma keyset_query_contract:
  assumes ready: "lists_ready L s v"
    and dist: "distinct (map key (feature_requests (tbl s)))"
    and ck: "\<And>q. ck \<lparr>raw_id = r_id q, raw_createdAt = time_of_timestamptz (r_created_at q),
                     raw_voteCount = r_vote_count q\<rparr> (r_id q) = key q"
    and whole: "listing key (tbl s) v = pre @ x # post" and limit: "0 \<le> limit"
  shows "listSQL L key ck v (usable_cursor (Some (encodeCursor x))) limit (tbl s) =
     Inr (map (\<lambda>q. (q, viewer_has_voted (tbl s) v q))
            (take (nat limit) (drop (Suc (length pre)) (descending key (feature_requests (tbl s))))), tbl s)
   \<and> post = map (\<lambda>q. scan_row (q, viewer_has_voted (tbl s) v q))
              (drop (Suc (length pre)) (descending key (feature_requests (tbl s))))"
proof -
  let ?d = "descending key (feature_requests (tbl s))"
  let ?f = "\<lambda>q. scan_row (q, viewer_has_voted (tbl s) v q)"
  have m: "map ?f ?d = pre @ x # post" using whole by (simp add: listing_def)
  then have len: "length pre < length ?d" by (metis length_map length_append less_add_same_cancel1 list.size(4) zero_less_Suc add_Suc_right)
  define q where "q = ?d ! length pre"
  have d: "?d = take (length pre) ?d @ q # drop (Suc (length pre)) ?d"
    unfolding q_def by (rule id_take_nth_drop[OF len])
  have x: "x = ?f q" using m len by (metis nth_append_length nth_map q_def)
  have "q \<in> set ?d" unfolding q_def using len by (rule nth_mem)
  then have q: "q \<in> set (feature_requests (tbl s))" by simp
  then have id: "parse_uuid L (r_id q) = Some (r_id q)"
    using ready by (auto simp: lists_ready_def tables_ok_def)
  have "post = drop (Suc (length pre)) (map ?f ?d)" using m by simp
  then show ?thesis
    using ready q id listSQL_next[OF _ limit dist d, of L v v] usable_cursor_encode[of L "tbl s" q] ck[of q]
    by (auto simp: lists_ready_def x drop_map)
qed

lemma scan_row_comp: "scan_row \<circ> (\<lambda>q. (q, b q)) = (\<lambda>q. scan_row (q, b q))"
  by (simp add: comp_def)

interpretation new_list: keyset_lister "ListRequestsByNew L" "lists_ready L"
  "\<lambda>s v. listing new_key_of (tbl s) v" for L
proof unfold_locales
  fix s and p :: ListParams
  assume "lists_ready L s (ViewerID p)" "Cursor p = None" "0 \<le> Limit p"
  then show "ListRequestsByNew L p s =
      (Inr (take (nat (Limit p)) (listing new_key_of (tbl s) (ViewerID p))), s)"
    using listSQL_first[of L "ViewerID p" "ViewerID p" "Limit p" new_key_of new_cursor_key "tbl s"]
    by (simp add: ListRequestsByNew_def lists_ready_def usable_cursor_def query_rows_no_faults
        collectRequests_def listing_def take_map scan_row_comp)
next
  fix s and p :: ListParams and pre x post
  assume a: "lists_ready L s (ViewerID p)" "listing new_key_of (tbl s) (ViewerID p) = pre @ x # post"
    "Cursor p = Some (encodeCursor x)" "0 \<le> Limit p"
  have "distinct (map new_key_of (feature_requests (tbl s)))"
    using a(1) keys_distinct(1) by (auto simp: lists_ready_def)
  note q = keyset_query_contract[OF a(1) this _ a(2,4), of new_cursor_key]
  show "ListRequestsByNew L p s = (Inr (take (nat (Limit p)) post), s)"
    using q a by (simp add: ListRequestsByNew_def lists_ready_def query_rows_no_faults
        new_cursor_key_def new_key_of_def collectRequests_def take_map scan_row_comp)
qed

interpretation top_list: keyset_lister "ListRequestsByTop L" "lists_ready L"
  "\<lambda>s v. listing top_key_of (tbl s) v" for L
proof unfold_locales
  fix s and p :: ListParams
  assume "lists_ready L s (ViewerID p)" "Cursor p = None" "0 \<le> Limit p"
  then show "ListRequestsByTop L p s =
      (Inr (take (nat (Limit p)) (listing top_key_of (tbl s) (ViewerID p))), s)"
    using listSQL_first[of L "ViewerID p" "ViewerID p" "Limit p" top_key_of top_cursor_key "tbl s"]
    by (simp add: ListRequestsByTop_def lists_ready_def usable_cursor_def query_rows_no_faults
        collectRequests_def listing_def take_map scan_row_comp)
next
  fix s and p :: ListParams and pre x post
  assume a: "lists_ready L s (ViewerID p)" "listing top_key_of (tbl s) (ViewerID p) = pre @ x # post"
    "Cursor p = Some (encodeCursor x)" "0 \<le> Limit p"
  have "distinct (map top_key_of (feature_requests (tbl s)))"
    using a(1) keys_distinct(2) by (auto simp: lists_ready_def)
  note q = keyset_query_contract[OF a(1) this _ a(2,4), of top_cursor_key]
  show "ListRequestsByTop L p s = (Inr (take (nat (Limit p)) post), s)"
    using q a by (simp add: ListRequestsByTop_def lists_ready_def query_rows_no_faults
        top_cursor_key_def top_key_of_def collectRequests_def take_map scan_row_comp)
qed

end
