(* ===== verification/Request_Properties.thy ===== *)
theory Request_Properties
  imports Request_Service Demo
begin

text \<open>
  The correctness of submitting, fetching and listing feature requests: validation, what is
  stored, what a page holds, and that following cursors visits every request exactly once.
\<close>

section \<open>Pages of the ranking service\<close>

lemma collect_pages_cong:
  assumes "\<And>p' s'. Sort p' = Sort p \<Longrightarrow> svc p' s' = svc' p' s'"
  shows "collect_pages fuel svc p s = collect_pages fuel svc' p s"
  using assms
proof (induction fuel arbitrary: p s)
  case (Suc fuel)
  have "collect_pages fuel svc (p\<lparr>Cursor := Some c\<rparr>) s' = collect_pages fuel svc' (p\<lparr>Cursor := Some c\<rparr>) s'" for c s'
    using Suc.prems by (intro Suc.IH) simp
  with Suc.prems[of p s] show ?case by (simp split: sum.split option.split prod.split)
qed simp

lemma postgres_ranking_lister:
  "ranking_lister (postgres_RankingRepo L) mode =
     (if mode = ''top'' \<or> mode = ''trending'' then ListRequestsByTop L else ListRequestsByNew L)"
  by (auto simp: ranking_lister_def postgres_RankingRepo_def ListRequestsByTrending_def fun_eq_iff)

text \<open>The list a viewer sees under a sort mode.\<close>

definition mode_listing :: "string \<Rightarrow> tables \<Rightarrow> string \<Rightarrow> FeatureRequest list" where
  "mode_listing mode t v =
     (if mode = ''top'' \<or> mode = ''trending'' then listing top_key_of t v else listing new_key_of t v)"

lemma collect_ranking:
  assumes "lists_ready L s (ViewerID p)" and "Cursor p = None"
    and "length (feature_requests (tbl s)) < fuel"
  shows "collect_pages fuel (RankingService_List (postgres_RankingRepo L)) p s =
           Some (mode_listing (Sort p) (tbl s) (ViewerID p))"
proof -
  let ?f = "wrap (''list requests ('' @ Sort p @ ''): '')"
  have "collect_pages fuel (RankingService_List (postgres_RankingRepo L)) p s
      = collect_pages fuel (list_page (ranking_lister (postgres_RankingRepo L) (Sort p)) ?f) p s"
    by (rule collect_pages_cong) (simp add: RankingService_List_page)
  also have "\<dots> = Some (mode_listing (Sort p) (tbl s) (ViewerID p))"
    using assms new_list.collect_all[of L s p fuel ?f] top_list.collect_all[of L s p fuel ?f]
    by (simp add: postgres_ranking_lister mode_listing_def listing_def)
  finally show ?thesis .
qed

lemma ids_listing: "map fr_ID (listing key t v) = map r_id (descending key (feature_requests t))"
  by (simp add: listing_def scan_row_def)

lemma ids_mode_listing: "mset (map fr_ID (mode_listing mode t v)) = mset (map r_id (feature_requests t))"
  unfolding mode_listing_def by (simp only: if_distrib ids_listing) (simp add: mset_map)

lemma listing_item:
  assumes "x \<in> set (listing key t v)"
  obtains q where "q \<in> set (feature_requests t)" "x = scan_row (q, viewer_has_voted t v q)"
  using assms by (auto simp: listing_def)

text \<open>Every item of a page comes from a row, under any faults and any cursor.\<close>

lemma listSQL_rows:
  assumes "listSQL L key ck viewer cur limit t = Inr (ps, t')"
  shows "\<exists>v. parse_uuid L viewer = Some v \<and>
     (\<forall>p \<in> set ps. fst p \<in> set (feature_requests t) \<and> snd p = viewer_has_voted t v (fst p))"
proof -
  obtain v ck' where v: "parse_uuid L viewer = Some v"
    and ps: "ps = map (\<lambda>q. (q, viewer_has_voted t v q)) (keyset_page key ck' (nat limit) (feature_requests t))"
    using assms by (auto simp: listSQL_def split: sum.splits if_splits)
  have "set (keyset_page key ck' (nat limit) (feature_requests t)) \<subseteq> set (feature_requests t)"
    by (auto simp: keyset_page_def dest!: in_set_takeD)
  with v ps show ?thesis by auto
qed

lemma lister_rows:
  assumes "ranking_lister (postgres_RankingRepo L) mode p s = (Inr items, s')"
  shows "tbl s' = tbl s \<and> (\<exists>v. parse_uuid L (ViewerID p) = Some v \<and>
     (\<forall>x \<in> set items. \<exists>q \<in> set (feature_requests (tbl s)). x = scan_row (q, viewer_has_voted (tbl s) v q)))"
proof -
  have "\<exists>ps. items = map scan_row ps \<and> tbl s' = tbl s \<and>
      (listSQL L new_key_of new_cursor_key (ViewerID p) (usable_cursor (Cursor p)) (Limit p) (tbl s) = Inr (ps, tbl s)
       \<or> listSQL L top_key_of top_cursor_key (ViewerID p) (usable_cursor (Cursor p)) (Limit p) (tbl s) = Inr (ps, tbl s))"
    using assms
    by (auto simp: postgres_ranking_lister ListRequestsByNew_def ListRequestsByTop_def collectRequests_def
        split: if_splits prod.splits sum.splits dest!: query_rows_ok[OF request_reads_only(2)])
  then show ?thesis by (force dest: listSQL_rows)
qed

lemma page_of_items: "set (Items (page_of n xs)) \<subseteq> set xs"
  by (auto simp: page_of_def dest: in_set_takeD)

section \<open>Submitting over PostgreSQL\<close>

definition valid_submission :: "string \<Rightarrow> string \<Rightarrow> bool" where
  "valid_submission title description \<longleftrightarrow>
     TrimSpace title \<noteq> [] \<and> length (TrimSpace title) \<le> maxTitleLen
   \<and> TrimSpace description \<noteq> [] \<and> length (TrimSpace description) \<le> maxDescriptionLen"

lemma Submit_invalid:
  "\<not> valid_submission t d \<Longrightarrow>
     \<exists>e. Submit repo a t d s = (Inl e, s) \<and> errors_Is e ErrValidation"
  by (auto simp: Submit_def valid_submission_def validation_error_def Let_def)

lemma Submit_valid:
  "valid_submission t d \<Longrightarrow> Submit repo a t d s =
     (case rq_InsertFeatureRequest repo a (TrimSpace t) (TrimSpace d) s of
        (Inl e, s') \<Rightarrow> (Inl (wrap ''insert feature request: '' e), s')
      | (Inr req, s') \<Rightarrow> (Inr req, s'))"
  by (auto simp: Submit_def valid_submission_def Let_def)

definition add_request :: "request_row \<Rightarrow> tables \<Rightarrow> tables" where
  "add_request q t = t\<lparr>feature_requests := feature_requests t @ [q]\<rparr>"

lemma insertFeatureRequestSQL_ok:
  assumes "insertFeatureRequestSQL L now gen authorID title description t = Inr (rows, t')"
  obtains a q where "parse_uuid L authorID = Some a" "a \<in> u_id ` set (users t)"
    "gen \<notin> r_id ` set (feature_requests t)" "rows = [q]" "t' = add_request q t"
    "q = \<lparr>r_id = gen, r_author_id = a, r_title = title, r_description = description,
          r_vote_count = 0, r_created_at = now, r_updated_at = now\<rparr>"
  using assms
  by (auto simp: insertFeatureRequestSQL_def add_request_def Let_def split: sum.splits if_splits)

lemma votes_on_add_request [simp]: "votes_on (add_request q t) i = votes_on t i"
  and voters_add_request [simp]: "voters (add_request q t) i = voters t i"
  by (simp_all add: add_request_def votes_on_def voters_def)

lemma no_votes_on_missing:
  "tables_ok L t \<Longrightarrow> i \<notin> r_id ` set (feature_requests t) \<Longrightarrow> votes_on t i = [] \<and> voters t i = {}"
  by (auto simp: tables_ok_def votes_on_def voters_def vote_key_def filter_empty_conv)

lemma add_request_ok:
  assumes "tables_ok L t" and "r_id q \<notin> r_id ` set (feature_requests t)"
    and "r_author_id q \<in> u_id ` set (users t)" and "r_vote_count q = 0"
    and "parse_uuid L (r_id q) = Some (r_id q)"
  shows "tables_ok L (add_request q t)" and "counts_exact t \<Longrightarrow> counts_exact (add_request q t)"
    and "no_self_votes t \<Longrightarrow> no_self_votes (add_request q t)"
proof -
  have none: "votes_on t (r_id q) = []" "voters t (r_id q) = {}"
    using no_votes_on_missing[OF assms(1,2)] by simp_all
  have fields: "feature_requests (add_request q t) = feature_requests t @ [q]" by (simp add: add_request_def)
  show "tables_ok L (add_request q t)"
    using assms by (auto simp: tables_ok_def add_request_def int32_range_def)
  show "counts_exact t \<Longrightarrow> counts_exact (add_request q t)" "no_self_votes t \<Longrightarrow> no_self_votes (add_request q t)"
    using assms(4) none by (auto simp: counts_exact_def no_self_votes_def fields)
qed

lemma vote_invariant_add_request:
  assumes "vote_invariant L t" and "r_id q \<notin> r_id ` set (feature_requests t)"
    and "r_author_id q \<in> u_id ` set (users t)" and "r_vote_count q = 0"
    and "parse_uuid L (r_id q) = Some (r_id q)"
  shows "vote_invariant L (add_request q t)"
  using assms(1) add_request_ok[OF _ assms(2-5)] by (simp add: vote_invariant_def)

lemma Submit_tables:
  assumes "Submit (postgres_RequestRepo L now gen) authorID t d s = (res, s')"
  shows "tbl s' = tbl s \<and> (\<exists>e. res = Inl e)
    \<or> (\<exists>a q. valid_submission t d \<and> parse_uuid L authorID = Some a \<and> a \<in> u_id ` set (users (tbl s))
         \<and> gen \<notin> r_id ` set (feature_requests (tbl s)) \<and> tbl s' = add_request q (tbl s)
         \<and> q = \<lparr>r_id = gen, r_author_id = a, r_title = TrimSpace t, r_description = TrimSpace d,
                r_vote_count = 0, r_created_at = now, r_updated_at = now\<rparr>
         \<and> (res = Inr (scan_row (q, False)) \<or> (\<exists>e. res = Inl e)))"
proof (cases "valid_submission t d")
  case False
  with Submit_invalid[OF False, of "postgres_RequestRepo L now gen" authorID s] assms show ?thesis by auto
next
  case True
  let ?st = "insertFeatureRequestSQL L now gen authorID (TrimSpace t) (TrimSpace d)"
  obtain r s1 where run: "run_stmt ?st s = (r, s1)" by (cases "run_stmt ?st s")
  have out: "s' = s1 \<and> (\<forall>rows. r = Inr rows \<longrightarrow> (\<forall>q qs. rows = q # qs \<longrightarrow> res = Inr (scan_row (q, False)))
       \<and> (rows = [] \<longrightarrow> (\<exists>e. res = Inl e))) \<and> (\<forall>e. r = Inl e \<longrightarrow> (\<exists>e. res = Inl e))"
    using assms Submit_valid[OF True, of "postgres_RequestRepo L now gen" authorID s]
    by (cases r) (auto simp: postgres_RequestRepo_def InsertFeatureRequest_def query_row_def run scanRequest_def
        split: list.splits if_splits)
  from run show ?thesis
  proof (cases rule: run_stmt_cases)
    case (unchanged e)
    with out show ?thesis by auto
  next
    case (lost e rows)
    then show ?thesis using out True by (elim insertFeatureRequestSQL_ok) auto
  next
    case (effect rows)
    then show ?thesis using out True by (elim insertFeatureRequestSQL_ok) auto
  qed
qed

section \<open>Properties\<close>

lemma Submit_keeps_invariant [invariant_intros]:
  assumes "vote_invariant L (tbl s)" and "parse_uuid L gen = Some gen"
    and "Submit (postgres_RequestRepo L now gen) authorID t d s = (res, s')"
  shows "vote_invariant L (tbl s')"
  using Submit_tables[OF assms(3)]
proof
  assume "tbl s' = tbl s \<and> (\<exists>e. res = Inl e)"
  with assms(1) show ?thesis by simp
next
  assume "\<exists>a q. valid_submission t d \<and> parse_uuid L authorID = Some a \<and> a \<in> u_id ` set (users (tbl s))
       \<and> gen \<notin> r_id ` set (feature_requests (tbl s)) \<and> tbl s' = add_request q (tbl s)
       \<and> q = \<lparr>r_id = gen, r_author_id = a, r_title = TrimSpace t, r_description = TrimSpace d,
              r_vote_count = 0, r_created_at = now, r_updated_at = now\<rparr>
       \<and> (res = Inr (scan_row (q, False)) \<or> (\<exists>e. res = Inl e))"
  then obtain a q where h: "a \<in> u_id ` set (users (tbl s))" "gen \<notin> r_id ` set (feature_requests (tbl s))"
    "tbl s' = add_request q (tbl s)"
    and q: "q = \<lparr>r_id = gen, r_author_id = a, r_title = TrimSpace t, r_description = TrimSpace d,
              r_vote_count = 0, r_created_at = now, r_updated_at = now\<rparr>" by blast
  have "vote_invariant L (add_request q (tbl s))"
    using h(1,2) assms(1,2) by (intro vote_invariant_add_request) (simp_all add: q)
  with h(3) show ?thesis by simp
qed

text \<open>
  C11: Following the cursors of the list endpoint from the first page, under any sort mode and page
  size, ends after at most as many requests as there are rows plus one, and the pages together
  hold the complete list in the order of that mode: every feature request exactly once, none
  twice. The theorem is about an unchanging table without faults whose creation times fit in the
  cursor's 64-bit nanoseconds.
\<close>

theorem paging_is_complete:
  assumes "lists_ready L s (ViewerID p)" and "Cursor p = None"
    and "length (feature_requests (tbl s)) < fuel"
  shows "collect_pages fuel (RankingService_List (postgres_RankingRepo L)) p s =
           Some (mode_listing (Sort p) (tbl s) (ViewerID p))
       \<and> mset (map fr_ID (mode_listing (Sort p) (tbl s) (ViewerID p))) = mset (map r_id (feature_requests (tbl s)))
       \<and> distinct (map fr_ID (mode_listing (Sort p) (tbl s) (ViewerID p)))"
proof -
  have "distinct (map r_id (feature_requests (tbl s)))"
    using assms(1) by (simp add: lists_ready_def tables_ok_def)
  then have "distinct (map fr_ID (mode_listing (Sort p) (tbl s) (ViewerID p)))"
    using mset_eq_imp_distinct_iff[OF ids_mode_listing] by blast
  then show ?thesis using collect_ranking[OF assms] ids_mode_listing by blast
qed

lemma demo_lists_ready: "lists_ready demo_lib demo_pg ''bob''"
  by (simp add: lists_ready_def demo_tables_ok times_ok_def ids_ok_def)
     (simp add: demo_tables_def time_of_timestamptz_def int64_range_def)

theorem paging_is_complete_witness:
  "collect_pages 2 (RankingService_List (postgres_RankingRepo demo_lib))
     \<lparr>Sort = ''top'', Cursor = None, Limit = 1, ViewerID = ''bob''\<rparr> demo_pg
   = Some (mode_listing ''top'' demo_tables ''bob'')"
  using paging_is_complete[of demo_lib demo_pg "\<lparr>Sort = ''top'', Cursor = None, Limit = 1, ViewerID = ''bob''\<rparr>" 2]
  by (simp add: demo_lists_ready) (simp add: demo_tables_def)

lemma last_take_nth: "\<lbrakk>1 \<le> n; n < length xs\<rbrakk> \<Longrightarrow> last (take n xs) = xs ! (n - Suc 0)"
  by (cases n) (simp_all add: take_Suc_conv_app_nth)

text \<open>
  Whatever the repository returns, a page holds at most the effective page size (the requested
  limit, or 20 when it is not between 1 and 100), and it carries a cursor exactly when the
  repository had more; the cursor is that of the last item of the page.
\<close>

theorem page_size_bounded:
  assumes "RankingService_List repo p s = (Inr page, s')"
  shows "length (Items page) \<le> effective_limit (Limit p) \<and> effective_limit (Limit p) \<le> 100
       \<and> (\<forall>c. NextCursor page = Some c \<longrightarrow>
            length (Items page) = effective_limit (Limit p) \<and> c = encodeCursor (last (Items page)))"
proof -
  let ?n = "effective_limit (Limit p)"
  have n: "1 \<le> ?n" "?n \<le> 100" by (rule effective_limit_bounds)+
  obtain items where "page = page_of ?n items"
    using assms by (auto simp: RankingService_List_page list_page_def split: sum.splits prod.splits)
  then show ?thesis
    using n by (auto simp: page_of_def last_take_nth split: if_splits)
qed

theorem page_size_bounded_witness:
  "length (Items (projr (fst (RankingService_List (postgres_RankingRepo demo_lib)
      \<lparr>Sort = ''new'', Cursor = None, Limit = 1000, ViewerID = ''bob''\<rparr> demo_pg)))) \<le> 20"
proof -
  let ?p = "\<lparr>Sort = ''new'', Cursor = None, Limit = 1000, ViewerID = ''bob''\<rparr>"
  have "RankingService_List (postgres_RankingRepo demo_lib) ?p demo_pg =
      (Inr (page_of 20 (listing new_key_of demo_tables ''bob'')), demo_pg)"
    using new_list.page_at[of demo_lib ?p demo_pg "listing new_key_of demo_tables ''bob''"]
    by (simp add: RankingService_List_page postgres_ranking_lister new_list.at_def demo_lists_ready effective_limit_def)
  from page_size_bounded[OF this] show ?thesis
    by (simp add: \<open>RankingService_List _ _ _ = _\<close> effective_limit_def)
qed

text \<open>
  C31: Every item of a successful page, for any cursor text, sort mode and faults, is a stored
  feature request shown with the exact number of users who hold a vote on it and with the flag
  that says whether the viewer is one of them.
\<close>

theorem listed_items_exact:
  assumes "vote_invariant L (tbl s)" and "RankingService_List (postgres_RankingRepo L) p s = (Inr page, s')"
    and "x \<in> set (Items page)" and "parse_uuid L (ViewerID p) = Some v"
  shows "\<exists>q \<in> set (feature_requests (tbl s)). fr_ID x = r_id q \<and> fr_AuthorID x = r_author_id q
     \<and> fr_Title x = r_title q \<and> fr_Description x = r_description q
     \<and> fr_VoteCount x = int (card (voters (tbl s) (r_id q)))
     \<and> (fr_ViewerHasVoted x \<longleftrightarrow> v \<in> voters (tbl s) (r_id q))"
proof -
  obtain items s1 where "ranking_lister (postgres_RankingRepo L) (Sort p)
      (p\<lparr>Limit := int (effective_limit (Limit p)) + 1\<rparr>) s = (Inr items, s1)" "set (Items page) \<subseteq> set items"
    using assms(2) page_of_items by (auto simp: RankingService_List_page list_page_def split: sum.splits prod.splits)
  then obtain q where q: "q \<in> set (feature_requests (tbl s))" "x = scan_row (q, viewer_has_voted (tbl s) v q)"
    using assms(3,4) lister_rows by fastforce
  have ok: "tables_ok L (tbl s)" "counts_exact (tbl s)"
    using assms(1) by (simp_all add: vote_invariant_def)
  then have "r_vote_count q = int (card (voters (tbl s) (r_id q)))"
    using q(1) by (simp add: counts_exact_def length_votes_on tables_ok_def)
  with q show ?thesis
    by (intro bexI[of _ q]) (simp_all add: scan_row_def viewer_has_voted_def voters_def)
qed

theorem listed_items_exact_witness:
  "\<exists>q \<in> set (feature_requests demo_tables).
     fr_VoteCount (hd (listing new_key_of demo_tables ''bob'')) = int (card (voters demo_tables (r_id q)))"
proof -
  let ?p = "\<lparr>Sort = ''new'', Cursor = None, Limit = 5, ViewerID = ''bob''\<rparr>"
  have r: "RankingService_List (postgres_RankingRepo demo_lib) ?p demo_pg =
      (Inr (page_of 5 (listing new_key_of demo_tables ''bob'')), demo_pg)"
    using new_list.page_at[of demo_lib ?p demo_pg "listing new_key_of demo_tables ''bob''"]
    by (simp add: RankingService_List_page postgres_ranking_lister new_list.at_def demo_lists_ready effective_limit_def)
  have "hd (listing new_key_of demo_tables ''bob'') \<in> set (Items (page_of 5 (listing new_key_of demo_tables ''bob'')))"
    by (simp add: listing_def page_of_def descending_def demo_tables_def)
  from listed_items_exact[OF _ r this] show ?thesis
    by (auto simp: demo_vote_invariant)
qed

text \<open>
  A cursor that does not decode is ignored: the list call behaves exactly as one without a
  cursor, under any faults.
\<close>

theorem bad_cursor_is_first_page:
  assumes "DecodeCursor c = Inl e" and "Cursor p = Some c"
  shows "RankingService_List (postgres_RankingRepo L) p s =
           RankingService_List (postgres_RankingRepo L) (p\<lparr>Cursor := None\<rparr>) s"
proof -
  have "usable_cursor (Some c) = None"
    using assms(1) by (simp add: usable_cursor_def decodeCursorRaw_eq)
  then show ?thesis
    using assms(2)
    by (simp add: RankingService_List_page list_page_def postgres_ranking_lister ListRequestsByNew_def
        ListRequestsByTop_def usable_cursor_def split: sum.split prod.split)
qed

theorem bad_cursor_is_first_page_witness:
  "RankingService_List (postgres_RankingRepo demo_lib)
     \<lparr>Sort = ''new'', Cursor = Some ''A'', Limit = 5, ViewerID = ''bob''\<rparr> demo_pg
   = RankingService_List (postgres_RankingRepo demo_lib)
     \<lparr>Sort = ''new'', Cursor = None, Limit = 5, ViewerID = ''bob''\<rparr> demo_pg"
proof -
  have "DecodeString url_alphabet ''A'' = None"
    by code_simp
  then have "DecodeCursor ''A'' = Inl (wrap ''invalid cursor encoding: '' (Opaque ''illegal base64 data''))"
    by (simp add: DecodeCursor_def)
  from bad_cursor_is_first_page[OF this, of "\<lparr>Sort = ''new'', Cursor = Some ''A'', Limit = 5, ViewerID = ''bob''\<rparr>"]
  show ?thesis by simp
qed

text \<open>
  C32: Submission validates before it stores. A title or description that is blank, or longer than
  its limit once trimmed, is refused with the validation error and the state is untouched, for
  any repository; over PostgreSQL any other outcome either leaves the tables as they were or adds
  exactly one request, with the trimmed texts, the caller as author, no votes and a count of
  zero; and the constraints, the exact counters and the self-vote rule survive.
\<close>

theorem submit_stores_valid_requests:
  assumes "vote_invariant L (tbl s)" and "parse_uuid L gen = Some gen"
    and "Submit (postgres_RequestRepo L now gen) authorID t d s = (res, s')"
  shows "(\<not> valid_submission t d \<longrightarrow> s' = s \<and> (\<exists>e. res = Inl e \<and> errors_Is e ErrValidation))
       \<and> (tbl s' = tbl s \<or>
          (\<exists>q. valid_submission t d \<and> feature_requests (tbl s') = feature_requests (tbl s) @ [q]
             \<and> users (tbl s') = users (tbl s) \<and> votes (tbl s') = votes (tbl s)
             \<and> parse_uuid L authorID = Some (r_author_id q) \<and> r_id q \<notin> r_id ` set (feature_requests (tbl s))
             \<and> r_title q = TrimSpace t \<and> r_description q = TrimSpace d \<and> r_vote_count q = 0
             \<and> voters (tbl s') (r_id q) = {} \<and> (\<forall>fr. res = Inr fr \<longrightarrow> fr = scan_row (q, False))))
       \<and> (\<forall>fr. res = Inr fr \<longrightarrow> tbl s' \<noteq> tbl s) \<and> vote_invariant L (tbl s')"
proof -
  have invalid: "s' = s \<and> (\<exists>e. res = Inl e \<and> errors_Is e ErrValidation)" if "\<not> valid_submission t d"
    using Submit_invalid[OF that, of "postgres_RequestRepo L now gen" authorID s] assms(3) by auto
  from Submit_tables[OF assms(3)] show ?thesis
  proof
    assume "tbl s' = tbl s \<and> (\<exists>e. res = Inl e)"
    with invalid assms(1) show ?thesis by auto
  next
    assume "\<exists>a q. valid_submission t d \<and> parse_uuid L authorID = Some a \<and> a \<in> u_id ` set (users (tbl s))
         \<and> gen \<notin> r_id ` set (feature_requests (tbl s)) \<and> tbl s' = add_request q (tbl s)
         \<and> q = \<lparr>r_id = gen, r_author_id = a, r_title = TrimSpace t, r_description = TrimSpace d,
                r_vote_count = 0, r_created_at = now, r_updated_at = now\<rparr>
         \<and> (res = Inr (scan_row (q, False)) \<or> (\<exists>e. res = Inl e))"
    then obtain a q where h: "valid_submission t d" "parse_uuid L authorID = Some a" "a \<in> u_id ` set (users (tbl s))"
      "gen \<notin> r_id ` set (feature_requests (tbl s))" "tbl s' = add_request q (tbl s)"
      "res = Inr (scan_row (q, False)) \<or> (\<exists>e. res = Inl e)"
      and eq: "q = \<lparr>r_id = gen, r_author_id = a, r_title = TrimSpace t, r_description = TrimSpace d,
                r_vote_count = 0, r_created_at = now, r_updated_at = now\<rparr>" by blast
    have q: "valid_submission t d" "parse_uuid L authorID = Some (r_author_id q)"
      "r_author_id q \<in> u_id ` set (users (tbl s))" "r_id q \<notin> r_id ` set (feature_requests (tbl s))"
      "tbl s' = add_request q (tbl s)" "r_id q = gen" "r_title q = TrimSpace t"
      "r_description q = TrimSpace d" "r_vote_count q = 0"
      "res = Inr (scan_row (q, False)) \<or> (\<exists>e. res = Inl e)"
      using h by (simp_all add: eq)
    have "vote_invariant L (tbl s')" by (rule Submit_keeps_invariant[OF assms])
    moreover have "voters (tbl s') (r_id q) = {}"
      using no_votes_on_missing[of L "tbl s" "r_id q"] assms(1) q(4,5) by (simp add: vote_invariant_def)
    moreover have "tbl s' \<noteq> tbl s"
      using q(5) by (auto simp: add_request_def dest!: arg_cong[where f = feature_requests])
    ultimately show ?thesis
      using q by (auto simp: add_request_def)
  qed
qed

theorem submit_stores_valid_requests_witness:
  "vote_invariant demo_lib (tbl (snd (Submit (postgres_RequestRepo demo_lib 7 ''r2'') ''bob'' '' CSV export '' ''Please'' demo_pg)))"
  using submit_stores_valid_requests[of demo_lib demo_pg "''r2''" 7 "''bob''" "'' CSV export ''" "''Please''"]
  by (cases "Submit (postgres_RequestRepo demo_lib 7 ''r2'') ''bob'' '' CSV export '' ''Please'' demo_pg")
     (simp add: demo_vote_invariant)

text \<open>
  The length limit of a title counts bytes, not characters: a title of 51 two-byte characters
  is refused as longer than 100 characters.
\<close>

theorem title_limit_counts_bytes:
  "Submit repo a (concat (replicate 51 (byte_string [195, 169]))) d s =
     (Inl (validation_error ''title must be 100 characters or fewer''), s)"
proof -
  let ?t = "concat (replicate 51 (byte_string [195, 169]))"
  have "strip_first white_space ?t = None" "strip_first (map rev white_space) (rev ?t) = None"
    by code_simp+
  then have t: "TrimSpace ?t = ?t" by (rule TrimSpace_id)
  have "length ?t = 102" "?t \<noteq> []" by code_simp+
  moreover have "format_int 100 = ''100''" by code_simp
  ultimately show ?thesis by (simp add: Submit_def t maxTitleLen_def)
qed

text \<open>
  Fetching one request returns the stored row with the viewer's own flag, or an error that
  callers recognise as not-found when there is no such row.
\<close>

theorem get_by_id_result:
  assumes "faults s = []" and "tables_ok L (tbl s)"
    and "parse_uuid L i = Some r" and "parse_uuid L viewer = Some v"
  shows "case find_request (tbl s) r of
      None \<Rightarrow> \<exists>e. GetByID (postgres_RequestRepo L now gen) i viewer s = (Inl e, s) \<and> errors_Is e ErrNotFound
    | Some q \<Rightarrow> GetByID (postgres_RequestRepo L now gen) i viewer s = (Inr (scan_row (q, v \<in> voters (tbl s) r)), s)"
proof -
  have "run_stmt (selectRequestSQL L i viewer) s =
      (Inr (case find_request (tbl s) r of None \<Rightarrow> [] | Some q \<Rightarrow> [(q, viewer_has_voted (tbl s) v q)]), s)"
    using assms by (simp add: run_stmt_no_faults selectRequestSQL_def bind_uuid_def filter_id_find split: option.split)
  then show ?thesis
    by (auto simp: GetByID_def postgres_RequestRepo_def GetFeatureRequest_def query_row_def scanRequestWithVote_def
        viewer_has_voted_def voters_def split: option.split dest!: find_request_SomeD)
qed

theorem get_by_id_result_witness:
  "\<exists>e. GetByID (postgres_RequestRepo demo_lib 7 ''g'') ''nope'' ''bob'' demo_pg = (Inl e, demo_pg) \<and> errors_Is e ErrNotFound"
proof -
  have "find_request demo_tables ''nope'' = None" by (simp add: find_request_None demo_rows)
  with get_by_id_result[of demo_pg demo_lib "''nope''" "''nope''" "''bob''" "''bob''" 7 "''g''"]
  show ?thesis by (simp add: demo_tables_ok)
qed

end
