(* ===== verification/Ranking_Repo.thy ===== *)
theory Ranking_Repo
  imports Vote_Tables
begin

text \<open>
  \<open>internal/repository/postgres/ranking.go\<close>: the reads and the repair behind the background jobs.
  The mismatch query is translated as it is written, a left join, grouped, filtered by its
  HAVING clause; the lemma \<open>mismatchesSQL_eq\<close> shows what it returns when the schema's
  constraints hold.
\<close>

record RequestForScoring =
  sc_ID :: string
  sc_VoteCount :: int
  sc_CreatedAt :: gotime

definition allRequestsSQL :: "request_row list stmt" where
  "allRequestsSQL t = Inr (feature_requests t, t)"

definition scoring_of :: "request_row \<Rightarrow> RequestForScoring" where
  "scoring_of q = \<lparr>sc_ID = r_id q, sc_VoteCount = r_vote_count q,
                  sc_CreatedAt = time_of_timestamptz (r_created_at q)\<rparr>"

definition GetAllRequests :: "(pg, RequestForScoring list) eff" where
  "GetAllRequests s =
     (case query_rows ''get all requests: '' allRequestsSQL s of
        (Inl e, s') \<Rightarrow> (Inl e, s')
      | (Inr rows, s') \<Rightarrow> (Inr (map scoring_of rows), s'))"

lemma scoring_of_fields [simp]:
  "sc_ID (scoring_of q) = r_id q" "sc_VoteCount (scoring_of q) = r_vote_count q"
  "sc_CreatedAt (scoring_of q) = time_of_timestamptz (r_created_at q)"
  by (simp_all add: scoring_of_def)

lemma allRequests_read_only: "reads_only allRequestsSQL"
  by (simp add: reads_only_def allRequestsSQL_def)

lemma GetAllRequests_cases:
  assumes "GetAllRequests s = (g, s')"
  shows "tbl s' = tbl s" and "g = Inr reqs \<Longrightarrow> reqs = map scoring_of (feature_requests (tbl s))"
    and "faults s = [] \<Longrightarrow> g = Inr (map scoring_of (feature_requests (tbl s)))"
proof -
  obtain x s1 where q: "query_rows ''get all requests: '' allRequestsSQL s = (x, s1)"
    by (cases "query_rows ''get all requests: '' allRequestsSQL s")
  have s': "s' = s1" "g = (case x of Inl e \<Rightarrow> Inl e | Inr rows \<Rightarrow> Inr (map scoring_of rows))"
    using assms q by (auto simp: GetAllRequests_def split: sum.splits)
  note c = query_rows_cases[OF q allRequests_read_only]
  show "tbl s' = tbl s" using c(1) s'(1) by simp
  show "reqs = map scoring_of (feature_requests (tbl s))" if "g = Inr reqs"
    using that s'(2) c(2) by (auto simp: allRequestsSQL_def split: sum.splits)
  show "g = Inr (map scoring_of (feature_requests (tbl s)))" if "faults s = []"
    using that s'(2) q by (auto simp: query_rows_def next_fault_no_faults allRequestsSQL_def)
qed

section \<open>Mismatches\<close>

record mismatch =
  mm_ID :: string
  mm_StoredCount :: int
  mm_ActualCount :: int

text \<open>\<open>feature_requests fr LEFT JOIN votes v ON v.request_id = fr.id\<close>\<close>

definition left_join_votes :: "tables \<Rightarrow> (request_row \<times> vote_row option) list" where
  "left_join_votes t =
     concat (map (\<lambda>q. case votes_on t (r_id q) of
                         [] \<Rightarrow> [(q, None)] | vs \<Rightarrow> map (\<lambda>v. (q, Some v)) vs) (feature_requests t))"

text \<open>\<open>GROUP BY fr.id, fr.vote_count\<close> and \<open>COUNT(v.user_id)\<close>, which skips NULLs.\<close>

definition group_key :: "request_row \<Rightarrow> string \<times> int" where
  "group_key q = (r_id q, r_vote_count q)"

definition vote_groups :: "tables \<Rightarrow> (string \<times> int) list" where
  "vote_groups t = remdups (map (\<lambda>p. group_key (fst p)) (left_join_votes t))"

definition group_count :: "tables \<Rightarrow> string \<times> int \<Rightarrow> int" where
  "group_count t k =
     int (length (filter (\<lambda>p. group_key (fst p) = k \<and> snd p \<noteq> None) (left_join_votes t)))"

definition mismatchesSQL :: "mismatch list stmt" where
  "mismatchesSQL t =
     (let ks = filter (\<lambda>k. snd k \<noteq> group_count t k) (vote_groups t)
      in if list_all (\<lambda>k. int32_range (group_count t k)) ks
         then Inr (map (\<lambda>k. \<lparr>mm_ID = fst k, mm_StoredCount = snd k, mm_ActualCount = group_count t k\<rparr>) ks, t)
         else Inl (PgError ''22003'' ''integer out of range''))"

definition GetVoteCountMismatches :: "(pg, mismatch list) eff" where
  "GetVoteCountMismatches s = query_rows ''get mismatches: '' mismatchesSQL s"

definition fixVoteCountSQL :: "pg_lib \<Rightarrow> int \<Rightarrow> string \<Rightarrow> int \<Rightarrow> nat stmt" where
  "fixVoteCountSQL L now requestID count t =
     (case bind_uuid L requestID of Inl e \<Rightarrow> Inl e | Inr r \<Rightarrow>
       Inr (length (filter (\<lambda>q. r_id q = r) (feature_requests t)),
            t\<lparr>feature_requests := map (set_count (\<lambda>_. count) now r) (feature_requests t)\<rparr>))"

definition FixVoteCount :: "pg_lib \<Rightarrow> int \<Rightarrow> string \<Rightarrow> int \<Rightarrow> (pg, unit) eff" where
  "FixVoteCount L now requestID count s =
     (case run_stmt (fixVoteCountSQL L now requestID count) s of
        (Inl e, s') \<Rightarrow> (Inl (wrap ''fix vote count: '' e), s')
      | (Inr _, s') \<Rightarrow> (Inr (), s'))"

section \<open>What the mismatch query returns\<close>

lemma remdups_block:
  "xs \<noteq> [] \<Longrightarrow> \<forall>x \<in> set xs. x = a \<Longrightarrow> a \<notin> set ys \<Longrightarrow> remdups (xs @ ys) = a # remdups ys"
proof (induction xs)
  case (Cons x xs)
  then show ?case by (cases xs) simp_all
qed simp

lemma remdups_blocks:
  assumes "distinct (map k qs)" and "\<And>q. q \<in> set qs \<Longrightarrow> f q \<noteq> []"
    and "\<And>q x. q \<in> set qs \<Longrightarrow> x \<in> set (f q) \<Longrightarrow> x = k q"
  shows "remdups (concat (map f qs)) = map k qs"
  using assms
proof (induction qs)
  case (Cons q qs)
  have rest: "x \<in> k ` set qs" if "x \<in> set (concat (map f qs))" for x
    using that Cons.prems(3) by fastforce
  have fresh: "k q \<notin> set (concat (map f qs))"
  proof
    assume "k q \<in> set (concat (map f qs))"
    then have "k q \<in> k ` set qs" by (rule rest)
    with Cons.prems(1) show False by simp
  qed
  have "remdups (f q @ concat (map f qs)) = k q # remdups (concat (map f qs))"
    using Cons.prems(2,3) fresh by (intro remdups_block) simp_all
  then show ?case using Cons by simp
qed simp

lemma vote_groups_eq:
  assumes "tables_ok L t"
  shows "vote_groups t = map group_key (feature_requests t)"
proof -
  let ?f = "\<lambda>q. map (\<lambda>p. group_key (fst p)) (case votes_on t (r_id q) of
                         [] \<Rightarrow> [(q, None)] | vs \<Rightarrow> map (\<lambda>v. (q, Some v)) vs)"
  have "distinct (map r_id (feature_requests t))" using assms by (simp add: tables_ok_def)
  then have "distinct (map group_key (feature_requests t))"
    by (auto simp: distinct_map group_key_def inj_on_def)
  then have "remdups (concat (map ?f (feature_requests t))) = map group_key (feature_requests t)"
    by (rule remdups_blocks) (auto split: list.splits)
  then show ?thesis by (simp add: vote_groups_def left_join_votes_def map_concat comp_def)
qed

lemma group_count_eq:
  assumes "tables_ok L t" and "q \<in> set (feature_requests t)"
  shows "group_count t (group_key q) = int (length (votes_on t (r_id q)))"
proof -
  let ?b = "\<lambda>q. case votes_on t (r_id q) of [] \<Rightarrow> [(q, None)] | vs \<Rightarrow> map (\<lambda>v. (q, Some v)) vs"
  let ?P = "\<lambda>p. group_key (fst p) = group_key q \<and> snd p \<noteq> None"
  have other: "filter ?P (?b q') = []" if "r_id q' \<noteq> r_id q" for q'
    using that by (auto simp: filter_empty_conv group_key_def split: list.splits)
  have own: "length (filter ?P (?b q)) = length (votes_on t (r_id q))"
    by (cases "votes_on t (r_id q)") (auto simp: comp_def)
  have "length (filter ?P (concat (map ?b qs))) =
      (if q \<in> set qs then length (votes_on t (r_id q)) else 0)"
    if "distinct (map r_id qs)" "set qs \<subseteq> set (feature_requests t)" for qs
    using that
  proof (induction qs)
    case (Cons q' qs)
    show ?case
    proof (cases "q' = q")
      case True
      then have "q \<notin> set qs" using Cons.prems by auto
      with True Cons own show ?thesis by simp
    next
      case False
      have "inj_on r_id (set (feature_requests t))" using assms(1) by (simp add: tables_ok_def distinct_map)
      with False Cons.prems assms(2) have "r_id q' \<noteq> r_id q" by (auto dest: inj_onD)
      with False Cons other show ?thesis by simp
    qed
  qed simp
  then show ?thesis
    using assms by (simp add: group_count_def left_join_votes_def tables_ok_def)
qed

definition wrong_rows :: "tables \<Rightarrow> request_row list" where
  "wrong_rows t = filter (\<lambda>q. r_vote_count q \<noteq> int (length (votes_on t (r_id q)))) (feature_requests t)"

definition mismatch_of :: "tables \<Rightarrow> request_row \<Rightarrow> mismatch" where
  "mismatch_of t q =
     \<lparr>mm_ID = r_id q, mm_StoredCount = r_vote_count q, mm_ActualCount = int (length (votes_on t (r_id q)))\<rparr>"

lemma mismatchesSQL_eq:
  assumes "tables_ok L t"
  shows "mismatchesSQL t =
     (if \<forall>q \<in> set (wrong_rows t). int32_range (int (length (votes_on t (r_id q))))
      then Inr (map (mismatch_of t) (wrong_rows t), t)
      else Inl (PgError ''22003'' ''integer out of range''))"
proof -
  have ks: "filter (\<lambda>k. snd k \<noteq> group_count t k) (vote_groups t) = map group_key (wrong_rows t)"
    unfolding vote_groups_eq[OF assms] filter_map wrong_rows_def comp_def
    by (rule arg_cong[where f = "map group_key"], rule filter_cong[OF refl])
       (simp add: group_count_eq[OF assms], simp add: group_key_def)
  have "group_count t (group_key q) = int (length (votes_on t (r_id q)))" if "q \<in> set (wrong_rows t)" for q
    using that group_count_eq[OF assms] by (simp add: wrong_rows_def)
  then show ?thesis
    unfolding mismatchesSQL_def ks Let_def list_all_iff
    by (auto simp: mismatch_of_def group_key_def)
qed

lemma mismatches_read_only: "reads_only mismatchesSQL"
  by (auto simp: reads_only_def mismatchesSQL_def Let_def split: if_splits)

lemma counts_exact_no_wrong_rows: "counts_exact t \<longleftrightarrow> wrong_rows t = []"
  by (auto simp: counts_exact_def wrong_rows_def filter_empty_conv)

lemma fixVoteCountSQL_eq:
  "fixVoteCountSQL L now requestID count t =
     (case parse_uuid L requestID of
        None \<Rightarrow> Inl (PgError ''22P02'' ''invalid input syntax for type uuid'')
      | Some r \<Rightarrow> Inr (length (filter (\<lambda>q. r_id q = r) (feature_requests t)), count_update (\<lambda>_. count) now r t))"
  by (simp add: fixVoteCountSQL_def bind_uuid_def count_update_def split: option.split)

end
