(* ===== verification/Go_Time.thy ===== *)
theory Go_Time
  imports Complex_Main Go_Text "HOL-Library.Signed_Division"
begin

text \<open>
  The parts of Go's \<open>time\<close> package the program uses: durations (nanoseconds in an \<open>int64\<close>), the
  parser \<open>time.ParseDuration\<close>, and floating point. A \<open>float64\<close> operation is the exact operation
  followed by a rounding \<open>fp_round\<close>, and \<open>math.Pow(x, 1.5)\<close> for positive \<open>x\<close> is a function
  \<open>fp_pow\<close>; both are parameters, and \<open>fp_ok\<close> states the documented facts the properties use.
\<close>

type_synonym duration = int

definition Second :: duration where
  "Second = 1000000000"

definition Minute :: duration where
  "Minute = 60 * Second"

definition Hour :: duration where
  "Hour = 3600000000000"

section \<open>Floating point\<close>

record fp =
  fp_round :: "real \<Rightarrow> real"
  fp_pow :: "real \<Rightarrow> real"

definition fp_ok :: "fp \<Rightarrow> bool" where
  "fp_ok F \<longleftrightarrow> mono (fp_round F)
     \<and> (\<forall>n. \<bar>n\<bar> \<le> 2 ^ 53 \<longrightarrow> fp_round F (real_of_int n) = real_of_int n)
     \<and> (\<forall>x > 0. 0 < fp_pow F x) \<and> (\<forall>x y. 0 < x \<longrightarrow> x \<le> y \<longrightarrow> fp_pow F x \<le> fp_pow F y)"

lemma fp_ok_int: "fp_ok F \<Longrightarrow> \<bar>n\<bar> \<le> 2 ^ 53 \<Longrightarrow> fp_round F (real_of_int n) = real_of_int n"
  by (simp add: fp_ok_def)

lemma fp_ok_mono: "fp_ok F \<Longrightarrow> x \<le> y \<Longrightarrow> fp_round F x \<le> fp_round F y"
  by (auto simp: fp_ok_def dest: monoD)

lemma fp_ok_consts [simp]:
  assumes "fp_ok F"
  shows "fp_round F 0 = 0" "fp_round F 1 = 1" "fp_round F 2 = 2"
  using fp_ok_int[OF assms, of 0] fp_ok_int[OF assms, of 1] fp_ok_int[OF assms, of 2] by simp_all

text \<open>An instance that does not round, for the concrete runs.\<close>

definition exact_fp :: fp where
  "exact_fp = \<lparr>fp_round = (\<lambda>x. x), fp_pow = (\<lambda>x. x * sqrt x)\<rparr>"

lemma exact_fp_ok: "fp_ok exact_fp"
  by (auto simp: fp_ok_def exact_fp_def mono_def intro!: mult_mono)

section \<open>Parsing durations\<close>

text \<open>
  \<open>leadingInt\<close>: the leading digits as a number of at most \<open>2 ^ 63\<close>, and the rest; \<open>None\<close> when the
  number is larger. \<open>leadingFraction\<close>: as many leading digits as fit, with the power of ten they
  are counted in; the digits after an overflow are consumed and dropped.
\<close>

fun leadingInt :: "nat \<Rightarrow> string \<Rightarrow> (nat \<times> string) option" where
  "leadingInt x [] = Some (x, [])"
| "leadingInt x (c # s) =
     (if \<not> is_digit c then Some (x, c # s)
      else if x > 2 ^ 63 div 10 then None
      else let x' = x * 10 + digit_val c in if x' > 2 ^ 63 then None else leadingInt x' s)"

fun leadingFraction :: "nat \<Rightarrow> nat \<Rightarrow> bool \<Rightarrow> string \<Rightarrow> nat \<times> nat \<times> string" where
  "leadingFraction x scale overflow [] = (x, scale, [])"
| "leadingFraction x scale overflow (c # s) =
     (if \<not> is_digit c then (x, scale, c # s)
      else if overflow then leadingFraction x scale True s
      else if x > (2 ^ 63 - 1) div 10 then leadingFraction x scale True s
      else let y = x * 10 + digit_val c in
        if y > 2 ^ 63 then leadingFraction x scale True s
        else leadingFraction y (scale * 10) False s)"

definition unitMap :: "string \<Rightarrow> nat option" where
  "unitMap u =
     (if u = ''ns'' then Some 1
      else if u \<in> {''us'', [CHR 0xC2, CHR 0xB5, CHR ''s''], [CHR 0xCE, CHR 0xBC, CHR ''s'']} then Some 1000
      else if u = ''ms'' then Some 1000000
      else if u = ''s'' then Some 1000000000
      else if u = ''m'' then Some 60000000000
      else if u = ''h'' then Some 3600000000000
      else None)"

text \<open>\<open>uint64(float64(f) * (float64(unit) / scale))\<close>.\<close>

definition fraction_ns :: "fp \<Rightarrow> nat \<Rightarrow> nat \<Rightarrow> nat \<Rightarrow> nat" where
  "fraction_ns F f unit scale =
     nat \<lfloor>fp_round F (fp_round F (real f) * fp_round F (real unit / real scale))\<rfloor>"

lemma leadingInt_length: "leadingInt x s = Some (v, t) \<Longrightarrow> length t \<le> length s"
  by (induction x s rule: leadingInt.induct) (auto simp: Let_def split: if_splits)

lemma leadingFraction_length: "leadingFraction x sc b s = (v, sc', t) \<Longrightarrow> length t \<le> length s"
  by (induction x sc b s arbitrary: v sc' t rule: leadingFraction.induct) (force simp: Let_def split: if_splits)+

text \<open>
  One number with its unit: the nanoseconds it adds and the rest of the text. The unit is the text
  up to the next digit or period, and must be known.
\<close>

definition duration_part :: "fp \<Rightarrow> string \<Rightarrow> (nat \<times> string) option" where
  "duration_part F s =
     (if \<not> (hd s = CHR ''.'' \<or> is_digit (hd s)) then None
      else case leadingInt 0 s of
        None \<Rightarrow> None
      | Some (v, s1) \<Rightarrow>
          let pre = length s \<noteq> length s1;
              (f, scale, post, s2) =
                (if s1 \<noteq> [] \<and> hd s1 = CHR ''.''
                 then (let (f, scale, s2) = leadingFraction 0 1 False (tl s1)
                       in (f, scale, length (tl s1) \<noteq> length s2, s2))
                 else (0, 1, False, s1))
          in if \<not> pre \<and> \<not> post then None
             else let u = takeWhile (\<lambda>c. \<not> (c = CHR ''.'' \<or> is_digit c)) s2;
                      s3 = dropWhile (\<lambda>c. \<not> (c = CHR ''.'' \<or> is_digit c)) s2
             in if u = [] then None
             else (case unitMap u of
                None \<Rightarrow> None
              | Some unit \<Rightarrow>
                  if v > 2 ^ 63 div unit then None
                  else let w = v * unit + (if f > 0 then fraction_ns F f unit scale else 0)
                       in if w > 2 ^ 63 then None else Some (w, s3)))"

lemma dropWhile_shorter: "takeWhile P s \<noteq> [] \<Longrightarrow> length (dropWhile P s) < length s"
  by (cases s) (auto split: if_splits simp: length_dropWhile_le less_Suc_eq_le)

lemma duration_part_length: "duration_part F s = Some (w, t) \<Longrightarrow> length t < length s"
proof -
  assume d: "duration_part F s = Some (w, t)"
  then obtain v s1 where v: "leadingInt 0 s = Some (v, s1)"
    by (auto simp: duration_part_def split: if_splits option.splits)
  obtain f sc s2 where f: "leadingFraction 0 1 False (tl s1) = (f, sc, s2)" by (rule prod_cases3)
  note shorter = dropWhile_shorter[of "\<lambda>c. \<not> (c = CHR ''.'' \<or> is_digit c)"]
  from d v f show ?thesis
    using leadingInt_length[OF v] leadingFraction_length[OF f] shorter[of s1] shorter[of s2]
    by (auto simp: duration_part_def Let_def split: if_splits option.splits)
qed

function duration_parts :: "fp \<Rightarrow> nat \<Rightarrow> string \<Rightarrow> nat option" where
  "duration_parts F d s =
     (if s = [] then Some d
      else case duration_part F s of
        None \<Rightarrow> None
      | Some (w, t) \<Rightarrow>
          let d' = (d + w) mod 2 ^ 64 in if d' > 2 ^ 63 then None else duration_parts F d' t)"
  by pat_completeness auto

termination
  by (relation "measure (\<lambda>(F, d, s). length s)") (auto dest: duration_part_length)

declare duration_parts.simps [simp del]

definition ParseDuration :: "fp \<Rightarrow> string \<Rightarrow> duration option" where
  "ParseDuration F s =
     (let (neg, t) = split_sign s in
      if t = ''0'' then Some 0
      else if t = [] then None
      else case duration_parts F 0 t of
        None \<Rightarrow> None
      | Some d \<Rightarrow>
          if neg then Some (wrap64 (- int d))
          else if d > 2 ^ 63 - 1 then None
          else Some (int d))"

lemma leadingInt_digits:
  "list_all is_digit ds \<Longrightarrow> leadingInt x (ds @ s) \<in> {None} \<union> {leadingInt y s | y. True}"
proof (induction ds arbitrary: x)
  case (Cons c ds)
  then show ?case by (auto simp: Let_def)
qed auto

text \<open>A count of days is not a duration: there is no such unit.\<close>

lemma ParseDuration_days: "ParseDuration F (format_int n @ ''d'') = None"
proof -
  let ?ds = "digits (nat \<bar>n\<bar>)"
  have sign: "split_sign (format_int n @ ''d'') = (n < 0, ?ds @ ''d'')"
  proof (cases "n < 0")
    case False
    obtain c cs where c: "?ds = c # cs" "is_digit c"
      using digits_all_digits[of "nat \<bar>n\<bar>"] digits_nonempty[of "nat \<bar>n\<bar>"] by (cases ?ds) auto
    then have "c \<noteq> CHR ''-''" "c \<noteq> CHR ''+''" using digit_not_sign by blast+
    with False c(1) show ?thesis by (simp add: format_int_def split_sign_def)
  qed (simp add: format_int_def split_sign_def)
  have hd_digit: "is_digit (hd (?ds @ ''d''))"
    using digits_all_digits[of "nat \<bar>n\<bar>"] digits_nonempty[of "nat \<bar>n\<bar>"] by (cases ?ds) auto
  have lead: "leadingInt 0 (?ds @ ''d'') = None \<or> (\<exists>y. leadingInt 0 (?ds @ ''d'') = Some (y, ''d''))"
    using leadingInt_digits[OF digits_all_digits[of "nat \<bar>n\<bar>"], of 0 "''d''"] by (auto simp: is_digit_def)
  have "duration_part F (?ds @ ''d'') = None"
    using lead hd_digit by (auto simp: duration_part_def Let_def unitMap_def is_digit_def)
  moreover have "?ds @ ''d'' \<noteq> []" "?ds @ ''d'' \<noteq> ''0''"
    by (auto simp: append_eq_Cons_conv)
  ultimately show ?thesis
    by (simp add: ParseDuration_def sign duration_parts.simps)
qed

end
