(* ===== verification/Redis_Ops.thy ===== *)
theory Redis_Ops
  imports Complex_Main Database Go_Time
begin

text \<open>
  The Redis client as the code uses it. Redis is a service outside the repository, so its commands
  are a record of functions over an abstract server state \<open>'r\<close> (the server's data, its clock and
  whatever may make a command fail). What a property relies on of Redis is a named
  hypothesis about these functions; most properties need none. The state of the whole
  process pairs the PostgreSQL state with the Redis state, and the lifting functions run an
  operation on one half.
\<close>

text \<open>
  A \<open>float64\<close>: a finite value, an infinity or a NaN. Rounding is left to the operations that
  produce the value (see \<open>Trending\<close>).
\<close>

datatype float64 = Finite real | PosInf | NegInf | NaN

record ZRangeBy =
  zr_Max :: string
  zr_Min :: string
  zr_Offset :: int
  zr_Count :: int

text \<open>The commands the code puts into a pipeline.\<close>

datatype redis_cmd =
    CmdSet string string duration
  | CmdZAdd string float64 string

record 'r redis =
  rd_Ping :: "('r, unit) eff"
  rd_Incr :: "string \<Rightarrow> ('r, int) eff"
  rd_Expire :: "string \<Rightarrow> duration \<Rightarrow> ('r, bool) eff"
  rd_Get :: "string \<Rightarrow> ('r, string) eff"
  rd_Set :: "string \<Rightarrow> string \<Rightarrow> duration \<Rightarrow> ('r, unit) eff"
  rd_ZAdd :: "string \<Rightarrow> float64 \<Rightarrow> string \<Rightarrow> ('r, int) eff"
  rd_ZRevRangeByScore :: "string \<Rightarrow> ZRangeBy \<Rightarrow> ('r, string list) eff"
  rd_Exec :: "redis_cmd list \<Rightarrow> ('r, unit) eff"

type_synonym 'r world = "pg \<times> 'r"

definition on_pg :: "(pg, 'a) eff \<Rightarrow> ('r world, 'a) eff" where
  "on_pg f w = (case f (fst w) of (x, p) \<Rightarrow> (x, p, snd w))"

definition on_redis :: "('r, 'a) eff \<Rightarrow> ('r world, 'a) eff" where
  "on_redis f w = (case f (snd w) of (x, r) \<Rightarrow> (x, fst w, r))"

lemma on_pg_cases:
  assumes "on_pg f w = (x, w')"
  obtains "f (fst w) = (x, fst w')" "snd w' = snd w"
  using assms by (auto simp: on_pg_def split: prod.splits)

lemma on_redis_fst [simp, state_frame]: "fst (snd (on_redis f w)) = fst w"
  by (simp add: on_redis_def split: prod.split)

lemma on_redis_cases:
  assumes "on_redis f w = (x, w')"
  obtains "f (snd w) = (x, snd w')" "fst w' = fst w"
  using assms by (auto simp: on_redis_def split: prod.splits)

end
