(* ===== verification/Jobs.thy ===== *)
theory Jobs
  imports Go_Prelude Go_Time
begin

text \<open>
  The ticker loop both background jobs consist of (\<open>TrendingJob.Run\<close> and \<open>ReconcileJob.Run\<close> in
  \<open>internal/ranking\<close>). \<open>time.NewTicker\<close> panics on an interval that is not positive. The select
  statement then takes ticks and the cancellation in whatever order they arrive: a run is a list of
  events, and an error of the body is logged and dropped. \<open>'c\<close> is what a tick reads from the
  environment (clocks, the statement time).
\<close>

datatype 'c job_event = Tick 'c | Cancelled

datatype job_status = JobPanicked | JobRunning | JobStopped

fun job_loop :: "('c \<Rightarrow> ('s, unit) eff) \<Rightarrow> 'c job_event list \<Rightarrow> 's \<Rightarrow> job_status \<times> 's" where
  "job_loop body [] s = (JobRunning, s)"
| "job_loop body (Cancelled # es) s = (JobStopped, s)"
| "job_loop body (Tick c # es) s = job_loop body es (snd (body c s))"

definition run_job :: "duration \<Rightarrow> ('c \<Rightarrow> ('s, unit) eff) \<Rightarrow> 'c job_event list \<Rightarrow> 's \<Rightarrow> job_status \<times> 's" where
  "run_job interval body es s = (if interval \<le> 0 then (JobPanicked, s) else job_loop body es s)"

lemma job_loop_preserves:
  assumes "\<And>c s. P s \<Longrightarrow> P (snd (body c s))" and "P s"
  shows "P (snd (job_loop body es s))"
  using assms(2)
proof (induction es arbitrary: s)
  case (Cons ev es)
  then show ?case by (cases ev) (simp_all add: assms(1))
qed simp

lemma job_loop_status: "fst (job_loop body es s) \<noteq> JobPanicked"
  by (induction body es s rule: job_loop.induct) auto

lemma job_loop_stops:
  "fst (job_loop body es s) = JobStopped \<longleftrightarrow> Cancelled \<in> set es"
  by (induction body es s rule: job_loop.induct) auto

lemma job_loop_after_cancel: "job_loop body (xs @ Cancelled # ys) s = job_loop body (xs @ [Cancelled]) s"
  by (induction body xs s rule: job_loop.induct) auto

end
