(* ===== verification/Reconcile.thy ===== *)
theory Reconcile
  imports Ranking_Repo Redis_Ops Jobs
begin

text \<open>
  \<open>internal/ranking/reconcile.go\<close> and the store adapter of \<open>cmd/server/adapters.go\<close>: the pass that
  compares every counter with its votes and repairs it. The locale \<open>reconcile_contract\<close> states
  what a store promises, \<open>reconcile_reliable\<close> adds that nothing fails; both are interpreted on
  the adapter, whose state is the database together with Redis.
\<close>

record 's ReconcileStore =
  rs_GetVoteCountMismatches :: "('s, mismatch list) eff"
  rs_FixVoteCount :: "string \<Rightarrow> int \<Rightarrow> ('s, unit) eff"
  rs_SetCachedCount :: "string \<Rightarrow> int \<Rightarrow> 's \<Rightarrow> 's"

fun reconcile_loop :: "'s ReconcileStore \<Rightarrow> mismatch list \<Rightarrow> 's \<Rightarrow> 's" where
  "reconcile_loop store [] s = s"
| "reconcile_loop store (m # ms) s =
     (case rs_FixVoteCount store (mm_ID m) (mm_ActualCount m) s of
        (Inl e, s1) \<Rightarrow> reconcile_loop store ms s1
      | (Inr _, s1) \<Rightarrow> reconcile_loop store ms (rs_SetCachedCount store (mm_ID m) (mm_ActualCount m) s1))"

definition reconcile :: "'s ReconcileStore \<Rightarrow> ('s, unit) eff" where
  "reconcile store s =
     (case rs_GetVoteCountMismatches store s of
        (Inl e, s1) \<Rightarrow> (Inl e, s1)
      | (Inr mismatches, s1) \<Rightarrow> (Inr (), reconcile_loop store mismatches s1))"

text \<open>The job; the store of a tick knows the time its statements will see.\<close>

definition ReconcileJob_Run ::
  "duration \<Rightarrow> (int \<Rightarrow> 's ReconcileStore) \<Rightarrow> int job_event list \<Rightarrow> 's \<Rightarrow> job_status \<times> 's" where
  "ReconcileJob_Run interval store es s = run_job interval (\<lambda>now. reconcile (store now)) es s"

section \<open>The contract of the store\<close>

text \<open>
  \<open>stored\<close> is the counter kept for a request (if there is such a request), \<open>actual\<close> the number of
  its votes, and \<open>ballots\<close> everything a repair must not touch.
\<close>

locale reconcile_contract =
  fixes store :: "'s ReconcileStore"
    and inv :: "'s \<Rightarrow> bool"
    and stored :: "'s \<Rightarrow> string \<Rightarrow> int option"
    and ballots :: "'s \<Rightarrow> 'b"
    and actual :: "'b \<Rightarrow> string \<Rightarrow> int"
  assumes mismatch_reads: "inv s \<Longrightarrow> rs_GetVoteCountMismatches store s = (rm, s') \<Longrightarrow>
      inv s' \<and> stored s' = stored s \<and> ballots s' = ballots s"
    and mismatch_result: "inv s \<Longrightarrow> rs_GetVoteCountMismatches store s = (Inr ms, s') \<Longrightarrow>
      (\<forall>m \<in> set ms. mm_ActualCount m = actual (ballots s) (mm_ID m) \<and> int32_range (mm_ActualCount m))
    \<and> mm_ID ` set ms = {i. \<exists>c. stored s i = Some c \<and> c \<noteq> actual (ballots s) i}"
    and fix_effect: "inv s \<Longrightarrow> int32_range c \<Longrightarrow> stored s i \<noteq> None \<Longrightarrow> rs_FixVoteCount store i c s = (rf, s') \<Longrightarrow>
      inv s' \<and> ballots s' = ballots s
    \<and> (stored s' = stored s \<and> (\<exists>e. rf = Inl e) \<or> stored s' = (stored s)(i \<mapsto> c))"
    and cache_frame: "inv s \<Longrightarrow> inv (rs_SetCachedCount store i c s)
    \<and> stored (rs_SetCachedCount store i c s) = stored s
    \<and> ballots (rs_SetCachedCount store i c s) = ballots s"
begin

definition wrong :: "'s \<Rightarrow> string set" where
  "wrong s = {i. \<exists>c. stored s i = Some c \<and> c \<noteq> actual (ballots s) i}"

text \<open>A list of repairs that are all right and all for existing requests.\<close>

definition good_repairs :: "'s \<Rightarrow> mismatch list \<Rightarrow> bool" where
  "good_repairs s ms \<longleftrightarrow> (\<forall>m \<in> set ms. mm_ActualCount m = actual (ballots s) (mm_ID m)
     \<and> int32_range (mm_ActualCount m) \<and> stored s (mm_ID m) \<noteq> None)"

definition repaired :: "'s \<Rightarrow> 's \<Rightarrow> bool" where
  "repaired s s' \<longleftrightarrow> inv s' \<and> ballots s' = ballots s
     \<and> (\<forall>i. stored s' i = stored s i
          \<or> i \<in> dom (stored s) \<and> stored s' i = Some (actual (ballots s) i))"

lemma repaired_refl: "inv s \<Longrightarrow> repaired s s"
  by (simp add: repaired_def)

lemma repaired_trans: "repaired s s1 \<Longrightarrow> repaired s1 s2 \<Longrightarrow> repaired s s2"
  unfolding repaired_def by (metis domIff)

lemma good_repairs_repaired: "good_repairs s ms \<Longrightarrow> repaired s s1 \<Longrightarrow> good_repairs s1 ms"
  unfolding good_repairs_def repaired_def by (metis domD option.distinct(1))

lemma one_repair:
  assumes "inv s" and "good_repairs s [m]"
    and "rs_FixVoteCount store (mm_ID m) (mm_ActualCount m) s = (r, s1)"
  shows "repaired s s1" and "repaired s (rs_SetCachedCount store (mm_ID m) (mm_ActualCount m) s1)"
    and "r = Inr u \<Longrightarrow> stored s1 (mm_ID m) = Some (actual (ballots s) (mm_ID m))"
proof -
  have m: "int32_range (mm_ActualCount m)" "stored s (mm_ID m) \<noteq> None"
    "mm_ActualCount m = actual (ballots s) (mm_ID m)"
    using assms(2) by (auto simp: good_repairs_def)
  note eff = fix_effect[OF assms(1) m(1,2) assms(3)]
  show 1: "repaired s s1" using eff m by (auto simp: repaired_def split: if_splits)
  show "repaired s (rs_SetCachedCount store (mm_ID m) (mm_ActualCount m) s1)"
    using 1 cache_frame[of s1] by (simp add: repaired_def)
  show "stored s1 (mm_ID m) = Some (actual (ballots s) (mm_ID m))" if "r = Inr u"
    using eff m(3) that by auto
qed

lemma loop_repairs: "inv s \<Longrightarrow> good_repairs s ms \<Longrightarrow> repaired s (reconcile_loop store ms s)"
proof (induction ms arbitrary: s)
  case Nil
  then show ?case by (simp add: repaired_refl)
next
  case (Cons m ms)
  obtain r s1 where f: "rs_FixVoteCount store (mm_ID m) (mm_ActualCount m) s = (r, s1)"
    by (cases "rs_FixVoteCount store (mm_ID m) (mm_ActualCount m) s")
  have m: "good_repairs s [m]" "good_repairs s ms" using Cons.prems(2) by (auto simp: good_repairs_def)
  have step: "repaired s (reconcile_loop store ms s')" if "repaired s s'" for s'
    using that m(2) Cons.IH[of s'] good_repairs_repaired repaired_trans by (auto simp: repaired_def)
  from step one_repair(1,2)[OF Cons.prems(1) m(1) f] show ?case
    by (cases r) (simp_all add: f)
qed

lemma wrong_subset: "repaired s s' \<Longrightarrow> wrong s' \<subseteq> wrong s"
  unfolding repaired_def wrong_def by (smt (verit) Collect_mono option.inject)

lemma mismatch_repairs:
  assumes "inv s" and "rs_GetVoteCountMismatches store s = (Inr ms, s1)"
  shows "good_repairs s1 ms" and "repaired s s1" and "mm_ID ` set ms = wrong s"
proof -
  have 1: "inv s1" "stored s1 = stored s" "ballots s1 = ballots s"
    using mismatch_reads[OF assms] by auto
  then show "repaired s s1" by (simp add: repaired_def)
  have res: "\<forall>m \<in> set ms. mm_ActualCount m = actual (ballots s) (mm_ID m) \<and> int32_range (mm_ActualCount m)"
    and ids: "mm_ID ` set ms = wrong s"
    using mismatch_result[OF assms, THEN conjunct1] mismatch_result[OF assms, THEN conjunct2]
    unfolding wrong_def by blast+
  then show "mm_ID ` set ms = wrong s" by simp
  have "stored s (mm_ID m) \<noteq> None" if "m \<in> set ms" for m
  proof -
    have "mm_ID m \<in> wrong s" using that ids by blast
    then show ?thesis by (auto simp: wrong_def)
  qed
  with res 1 show "good_repairs s1 ms" by (auto simp: good_repairs_def)
qed

theorem reconcile_repaired:
  assumes "inv s" and "reconcile store s = (r, s')"
  shows "repaired s s'"
proof -
  obtain q s1 where g: "rs_GetVoteCountMismatches store s = (q, s1)"
    by (cases "rs_GetVoteCountMismatches store s")
  show ?thesis
  proof (cases q)
    case (Inl e)
    with assms(2) g mismatch_reads[OF assms(1) g] show ?thesis by (auto simp: reconcile_def repaired_def)
  next
    case (Inr ms)
    note m = mismatch_repairs[OF assms(1) g[unfolded Inr]]
    then have "repaired s1 (reconcile_loop store ms s1)" by (intro loop_repairs) (simp_all add: repaired_def)
    with m(2) assms(2) g Inr show ?thesis by (auto simp: reconcile_def intro: repaired_trans)
  qed
qed

end

locale reconcile_reliable = reconcile_contract store inv stored ballots actual
  for store :: "'s ReconcileStore" and inv stored and ballots :: "'s \<Rightarrow> 'b" and actual +
  fixes ready :: "'s \<Rightarrow> bool"
  assumes ready_inv: "ready s \<Longrightarrow> inv s"
    and ready_reads: "ready s \<Longrightarrow> \<exists>ms s'. rs_GetVoteCountMismatches store s = (Inr ms, s') \<and> ready s'"
    and ready_fix: "ready s \<Longrightarrow> int32_range c \<Longrightarrow> stored s i \<noteq> None \<Longrightarrow> \<exists>s'. rs_FixVoteCount store i c s = (Inr (), s') \<and> ready s'"
    and ready_cache: "ready s \<Longrightarrow> ready (rs_SetCachedCount store i c s)"
begin

lemma loop_ready:
  assumes "ready s" and "good_repairs s ms"
  shows "ready (reconcile_loop store ms s)
       \<and> (\<forall>i \<in> mm_ID ` set ms. stored (reconcile_loop store ms s) i = Some (actual (ballots s) i))"
  using assms
proof (induction ms arbitrary: s)
  case (Cons m ms)
  have m: "good_repairs s [m]" "good_repairs s ms" using Cons.prems(2) by (auto simp: good_repairs_def)
  have "int32_range (mm_ActualCount m)" "stored s (mm_ID m) \<noteq> None" using m(1) by (auto simp: good_repairs_def)
  from ready_fix[OF Cons.prems(1) this] obtain s1
    where f: "rs_FixVoteCount store (mm_ID m) (mm_ActualCount m) s = (Inr (), s1)" "ready s1" by blast
  let ?s2 = "rs_SetCachedCount store (mm_ID m) (mm_ActualCount m) s1"
  note one = one_repair[OF ready_inv[OF Cons.prems(1)] m(1) f(1)]
  have s2: "ready ?s2" "stored ?s2 (mm_ID m) = Some (actual (ballots s) (mm_ID m))" "ballots ?s2 = ballots s"
    using one(2) one(3)[OF refl] f(2) ready_cache cache_frame[OF ready_inv[OF f(2)]] by (auto simp: repaired_def)
  note ih = Cons.IH[OF s2(1) good_repairs_repaired[OF m(2) one(2)]]
  have "repaired ?s2 (reconcile_loop store ms ?s2)"
    using s2(1) good_repairs_repaired[OF m(2) one(2)] by (intro loop_repairs ready_inv)
  then have "stored (reconcile_loop store ms ?s2) (mm_ID m) = Some (actual (ballots s) (mm_ID m))"
    using s2 unfolding repaired_def by metis
  with ih s2 f(1) show ?case by simp
qed simp

theorem reconcile_exact:
  assumes "ready s"
  shows "\<exists>s'. reconcile store s = (Inr (), s') \<and> ready s' \<and> repaired s s' \<and> wrong s' = {}"
proof -
  from ready_reads[OF assms] obtain ms s1
    where g: "rs_GetVoteCountMismatches store s = (Inr ms, s1)" "ready s1" by blast
  let ?s' = "reconcile_loop store ms s1"
  note m = mismatch_repairs[OF ready_inv[OF assms] g(1)]
  note all = loop_ready[OF g(2) m(1)]
  have r: "reconcile store s = (Inr (), ?s')" using g by (simp add: reconcile_def)
  have rep: "repaired s ?s'" by (rule reconcile_repaired[OF ready_inv[OF assms] r])
  have "i \<notin> wrong ?s'" for i
  proof (cases "i \<in> mm_ID ` set ms")
    case True
    with all rep m(2) show ?thesis by (auto simp: wrong_def repaired_def)
  next
    case False
    with m(3) wrong_subset[OF rep] show ?thesis by blast
  qed
  with r rep all show ?thesis by blast
qed

end

section \<open>The adapter over PostgreSQL and Redis\<close>

definition countKey :: "string \<Rightarrow> string" where
  "countKey requestID = ''count:'' @ requestID"

definition SetCachedCount :: "'r redis \<Rightarrow> string \<Rightarrow> int \<Rightarrow> 'r world \<Rightarrow> 'r world" where
  "SetCachedCount R requestID count w =
     snd (on_redis (rd_Set R (''count:'' @ requestID) (format_int count) 0) w)"

definition reconcileStoreAdapter :: "'r redis \<Rightarrow> pg_lib \<Rightarrow> int \<Rightarrow> ('r world) ReconcileStore" where
  "reconcileStoreAdapter R L now =
     \<lparr>rs_GetVoteCountMismatches = on_pg GetVoteCountMismatches,
      rs_FixVoteCount = (\<lambda>requestID count. on_pg (FixVoteCount L now requestID count)),
      rs_SetCachedCount = SetCachedCount R\<rparr>"

definition stored_count :: "'r world \<Rightarrow> string \<Rightarrow> int option" where
  "stored_count w i = map_option r_vote_count (find_request (tbl (fst w)) i)"

text \<open>What a repair leaves alone: users, votes and everything of a request but its counter and stamp.\<close>

definition untouched ::
  "tables \<Rightarrow> user_row list \<times> vote_row list \<times> (string \<times> string \<times> string \<times> string \<times> int) list" where
  "untouched t = (users t, votes t,
     map (\<lambda>q. (r_id q, r_author_id q, r_title q, r_description q, r_created_at q)) (feature_requests t))"

definition ballots_of ::
  "'r world \<Rightarrow> user_row list \<times> vote_row list \<times> (string \<times> string \<times> string \<times> string \<times> int) list" where
  "ballots_of w = untouched (tbl (fst w))"

definition actual_count :: "'a \<times> vote_row list \<times> 'b \<Rightarrow> string \<Rightarrow> int" where
  "actual_count b i = int (length (filter (\<lambda>v. v_request_id v = i) (fst (snd b))))"

lemma actual_count_votes_on: "actual_count (untouched t) i = int (length (votes_on t i))"
  by (simp add: actual_count_def untouched_def votes_on_def)

lemma tables_ok_set_count:
  assumes "tables_ok L t" and "int32_range c"
  shows "tables_ok L (count_update (\<lambda>_. c) now r t)"
  using assms by (simp add: tables_ok_def image_image)

lemma untouched_count_update [simp, state_frame]: "untouched (count_update g now r t) = untouched t"
  by (simp add: untouched_def comp_def)

lemma wrong_rows_stored:
  assumes "tables_ok L (tbl (fst w))"
  shows "r_id ` set (wrong_rows (tbl (fst w))) =
     {i. \<exists>c. stored_count w i = Some c \<and> c \<noteq> actual_count (ballots_of w) i}"
  using find_request_mem[OF assms]
  by (auto simp: wrong_rows_def stored_count_def ballots_of_def actual_count_votes_on image_iff
      dest!: find_request_SomeD)

lemma FixVoteCount_cases:
  assumes "FixVoteCount L now i c s = (r, s')" and "tables_ok L (tbl s)" and "find_request (tbl s) i \<noteq> None"
  shows "tbl s' = tbl s \<and> (\<exists>e. r = Inl e) \<or> tbl s' = count_update (\<lambda>_. c) now i (tbl s)"
proof -
  obtain q s1 where rs: "run_stmt (fixVoteCountSQL L now i c) s = (q, s1)"
    by (cases "run_stmt (fixVoteCountSQL L now i c) s")
  have i: "parse_uuid L i = Some i"
    using assms(2,3) by (auto simp: tables_ok_def dest!: find_request_SomeD)
  from rs have "s' = s1" "(\<exists>e. r = Inl e) \<longleftrightarrow> (\<exists>e. q = Inl e)"
    using assms(1) by (auto simp: FixVoteCount_def split: sum.splits)
  with rs i show ?thesis
    by (elim run_stmt_cases) (auto simp: fixVoteCountSQL_eq)
qed

definition rec_inv :: "pg_lib \<Rightarrow> 'r world \<Rightarrow> bool" where
  "rec_inv L w \<longleftrightarrow> tables_ok L (tbl (fst w))"

definition rec_ready :: "pg_lib \<Rightarrow> 'r world \<Rightarrow> bool" where
  "rec_ready L w \<longleftrightarrow> tables_ok L (tbl (fst w)) \<and> faults (fst w) = []
     \<and> (\<forall>q \<in> set (feature_requests (tbl (fst w))). int32_range (int (length (votes_on (tbl (fst w)) (r_id q)))))"

lemma stored_count_fix:
  assumes "stored_count w i \<noteq> None" and "tbl (fst w') = count_update (\<lambda>_. c) now i (tbl (fst w))"
  shows "stored_count w' = (stored_count w)(i \<mapsto> c)"
proof
  fix j
  show "stored_count w' j = ((stored_count w)(i \<mapsto> c)) j"
  proof (cases "find_request (tbl (fst w)) j")
    case None
    then show ?thesis using assms by (auto simp: stored_count_def)
  next
    case (Some q)
    then have "r_id q = j" by (auto dest: find_request_SomeD)
    with Some assms(2) show ?thesis by (auto simp: stored_count_def set_count_def)
  qed
qed

interpretation pgrec: reconcile_contract "reconcileStoreAdapter R L now" "rec_inv L"
  stored_count ballots_of actual_count for R :: "'r redis" and L now
proof unfold_locales
  fix s s' :: "'r world" and r assume a: "rec_inv L s" "rs_GetVoteCountMismatches (reconcileStoreAdapter R L now) s = (r, s')"
  then have "on_pg GetVoteCountMismatches s = (r, s')" by (simp add: reconcileStoreAdapter_def)
  then have "tbl (fst s') = tbl (fst s)"
    using query_rows_reads[OF mismatches_read_only, of "''get mismatches: ''" "fst s"]
    by (auto elim: on_pg_cases simp: GetVoteCountMismatches_def)
  with a(1) show "rec_inv L s' \<and> stored_count s' = stored_count s \<and> ballots_of s' = ballots_of s"
    by (simp add: rec_inv_def stored_count_def ballots_of_def fun_eq_iff)
next
  fix s s' :: "'r world" and ms assume a: "rec_inv L s" "rs_GetVoteCountMismatches (reconcileStoreAdapter R L now) s = (Inr ms, s')"
  then have "GetVoteCountMismatches (fst s) = (Inr ms, fst s')"
    by (auto elim: on_pg_cases simp: reconcileStoreAdapter_def)
  then have "mismatchesSQL (tbl (fst s)) = Inr (ms, tbl (fst s))"
    using query_rows_ok[OF mismatches_read_only] by (auto simp: GetVoteCountMismatches_def)
  then have ms: "ms = map (mismatch_of (tbl (fst s))) (wrong_rows (tbl (fst s)))"
    "\<forall>q \<in> set (wrong_rows (tbl (fst s))). int32_range (int (length (votes_on (tbl (fst s)) (r_id q))))"
    using a(1) by (auto simp: mismatchesSQL_eq rec_inv_def split: if_splits)
  have "mm_ID ` set ms = r_id ` set (wrong_rows (tbl (fst s)))"
    by (simp add: ms(1) image_image mismatch_of_def)
  with ms wrong_rows_stored[of L s] a(1)
  show "(\<forall>m \<in> set ms. mm_ActualCount m = actual_count (ballots_of s) (mm_ID m) \<and> int32_range (mm_ActualCount m))
      \<and> mm_ID ` set ms = {i. \<exists>c. stored_count s i = Some c \<and> c \<noteq> actual_count (ballots_of s) i}"
    by (auto simp: rec_inv_def mismatch_of_def ballots_of_def actual_count_votes_on)
next
  fix s s' :: "'r world" and c i r
  assume a: "rec_inv L s" "int32_range c" "stored_count s i \<noteq> None"
    and f: "rs_FixVoteCount (reconcileStoreAdapter R L now) i c s = (r, s')"
  then have "FixVoteCount L now i c (fst s) = (r, fst s')"
    by (auto elim: on_pg_cases simp: reconcileStoreAdapter_def)
  then have c: "tbl (fst s') = tbl (fst s) \<and> (\<exists>e. r = Inl e)
      \<or> tbl (fst s') = count_update (\<lambda>_. c) now i (tbl (fst s))"
    using a by (intro FixVoteCount_cases) (auto simp: rec_inv_def stored_count_def)
  then show "rec_inv L s' \<and> ballots_of s' = ballots_of s
      \<and> (stored_count s' = stored_count s \<and> (\<exists>e. r = Inl e) \<or> stored_count s' = (stored_count s)(i \<mapsto> c))"
  proof
    assume "tbl (fst s') = tbl (fst s) \<and> (\<exists>e. r = Inl e)"
    with a(1) show ?thesis by (simp add: rec_inv_def ballots_of_def stored_count_def fun_eq_iff)
  next
    assume t: "tbl (fst s') = count_update (\<lambda>_. c) now i (tbl (fst s))"
    with a stored_count_fix[OF a(3) t] show ?thesis
      by (simp add: rec_inv_def ballots_of_def tables_ok_set_count)
  qed
next
  fix s :: "'r world" and i c assume "rec_inv L s"
  then show "rec_inv L (rs_SetCachedCount (reconcileStoreAdapter R L now) i c s)
      \<and> stored_count (rs_SetCachedCount (reconcileStoreAdapter R L now) i c s) = stored_count s
      \<and> ballots_of (rs_SetCachedCount (reconcileStoreAdapter R L now) i c s) = ballots_of s"
    by (simp add: reconcileStoreAdapter_def SetCachedCount_def rec_inv_def stored_count_def ballots_of_def fun_eq_iff)
qed

interpretation pgrec_ready: reconcile_reliable "reconcileStoreAdapter R L now" "rec_inv L"
  stored_count ballots_of actual_count "rec_ready L" for R :: "'r redis" and L now
proof unfold_locales
  fix s :: "'r world" assume r: "rec_ready L s"
  then show "rec_inv L s" by (simp add: rec_ready_def rec_inv_def)
  have "GetVoteCountMismatches (fst s) = (Inr (map (mismatch_of (tbl (fst s))) (wrong_rows (tbl (fst s)))), fst s)"
    using r mismatchesSQL_eq[of L "tbl (fst s)"]
    by (simp add: rec_ready_def GetVoteCountMismatches_def query_rows_def next_fault_no_faults wrong_rows_def)
  with r show "\<exists>ms s'. rs_GetVoteCountMismatches (reconcileStoreAdapter R L now) s = (Inr ms, s') \<and> rec_ready L s'"
    by (simp add: reconcileStoreAdapter_def on_pg_def)
  show "rec_ready L (rs_SetCachedCount (reconcileStoreAdapter R L now) i c s)" for i c
    using r by (simp add: reconcileStoreAdapter_def SetCachedCount_def rec_ready_def)
  fix c i assume c: "int32_range c" "stored_count s i \<noteq> None"
  then have i: "parse_uuid L i = Some i"
    using r by (auto simp: rec_ready_def stored_count_def tables_ok_def dest!: find_request_SomeD)
  have "FixVoteCount L now i c (fst s) = (Inr (), (fst s)\<lparr>tbl := count_update (\<lambda>_. c) now i (tbl (fst s))\<rparr>)"
    using r by (simp add: rec_ready_def FixVoteCount_def run_stmt_no_faults fixVoteCountSQL_eq i)
  moreover have "tables_ok L (count_update (\<lambda>_. c) now i (tbl (fst s)))"
    using r c by (intro tables_ok_set_count) (auto simp: rec_ready_def)
  ultimately show "\<exists>s'. rs_FixVoteCount (reconcileStoreAdapter R L now) i c s = (Inr (), s') \<and> rec_ready L s'"
    using r by (auto simp: rec_ready_def reconcileStoreAdapter_def on_pg_def)
qed

end
