(* ===== verification/Trending.thy ===== *)
theory Trending
  imports Ranking_Repo Redis_Ops Jobs
begin

text \<open>
  \<open>internal/ranking/trending.go\<close> and its store adapter in \<open>cmd/server/adapters.go\<close>. The rounding of
  \<open>float64\<close> is the parameter of \<open>Go_Time\<close>; the special values of \<open>math.Pow\<close> and of division are
  written out.
\<close>

section \<open>The score\<close>

text \<open>\<open>time.Since(t)\<close> at time \<open>now\<close>: the difference, saturated to the range of \<open>time.Duration\<close>.\<close>

definition Since :: "gotime \<Rightarrow> gotime \<Rightarrow> duration" where
  "Since now t = max (- (2 ^ 63)) (min (now - t) (2 ^ 63 - 1))"

text \<open>\<open>Duration.Hours\<close>: whole hours plus the rest, with Go's truncating division.\<close>

definition Hours :: "fp \<Rightarrow> duration \<Rightarrow> real" where
  "Hours F d = fp_round F (real_of_int (d sdiv Hour) + fp_round F (real_of_int (d smod Hour) / real_of_int Hour))"

definition Pow15 :: "fp \<Rightarrow> real \<Rightarrow> float64" where
  "Pow15 F x = (if x < 0 then NaN else if x = 0 then Finite 0 else Finite (fp_pow F x))"

definition float_div :: "fp \<Rightarrow> real \<Rightarrow> float64 \<Rightarrow> float64" where
  "float_div F a b =
     (case b of
        Finite y \<Rightarrow> if y = 0 then (if a = 0 then NaN else if a > 0 then PosInf else NegInf)
                    else Finite (fp_round F (a / y))
      | PosInf \<Rightarrow> Finite 0
      | NegInf \<Rightarrow> Finite 0
      | NaN \<Rightarrow> NaN)"

definition TrendingScore :: "fp \<Rightarrow> gotime \<Rightarrow> int \<Rightarrow> gotime \<Rightarrow> float64" where
  "TrendingScore F now voteCount createdAt =
     (let ageHours = Hours F (Since now createdAt)
      in float_div F (real_of_int voteCount) (Pow15 F (fp_round F (ageHours + 2))))"

lemma Since_mono: "c1 \<le> c2 \<Longrightarrow> Since now c2 \<le> Since now c1"
  by (simp add: Since_def)

lemma Since_nonneg: "c \<le> now \<Longrightarrow> 0 \<le> Since now c"
  by (simp add: Since_def)

lemma Hours_nonneg_eq:
  "0 \<le> d \<Longrightarrow> Hours F d = fp_round F (real_of_int (d div Hour) + fp_round F (real_of_int (d mod Hour) / real_of_int Hour))"
  by (simp add: Hours_def signed_divide_int_def signed_modulo_int_def Hour_def sgn_if)

lemma fraction_bounds:
  assumes "fp_ok F"
  shows "0 \<le> fp_round F (real_of_int (d mod Hour) / real_of_int Hour)"
    and "fp_round F (real_of_int (d mod Hour) / real_of_int Hour) \<le> 1"
proof -
  have m: "0 \<le> d mod Hour" "d mod Hour \<le> Hour" by (simp_all add: Hour_def less_imp_le)
  then have "0 \<le> real_of_int (d mod Hour) / real_of_int Hour"
    "real_of_int (d mod Hour) / real_of_int Hour \<le> 1"
    by (simp_all add: Hour_def)
  then show "0 \<le> fp_round F (real_of_int (d mod Hour) / real_of_int Hour)"
    and "fp_round F (real_of_int (d mod Hour) / real_of_int Hour) \<le> 1"
    using fp_ok_mono[OF assms, of 0] fp_ok_mono[OF assms, of _ 1] assms by fastforce+
qed

lemma Hours_nonneg:
  assumes "fp_ok F" and "0 \<le> d"
  shows "0 \<le> Hours F d"
proof -
  have "0 \<le> real_of_int (d div Hour)" using assms(2) by (simp add: Hour_def pos_imp_zdiv_nonneg_iff)
  then have "0 \<le> real_of_int (d div Hour) + fp_round F (real_of_int (d mod Hour) / real_of_int Hour)"
    using fraction_bounds(1)[OF assms(1)] by (simp add: add_nonneg_nonneg)
  from fp_ok_mono[OF assms(1) this] show ?thesis
    using assms by (simp add: Hours_nonneg_eq)
qed

text \<open>An age never shrinks as time passes, rounding included.\<close>

lemma Hours_mono:
  assumes "fp_ok F" and "0 \<le> d" and "d \<le> e"
  shows "Hours F d \<le> Hours F e"
proof -
  let ?frac = "\<lambda>d. fp_round F (real_of_int (d mod Hour) / real_of_int Hour)"
  have le: "d div Hour \<le> e div Hour" using assms(3) by (simp add: Hour_def zdiv_mono1)
  have "real_of_int (d div Hour) + ?frac d \<le> real_of_int (e div Hour) + ?frac e"
  proof (cases "d div Hour = e div Hour")
    case True
    then have "d mod Hour \<le> e mod Hour"
      using assms(3) by (simp add: minus_mult_div_eq_mod[symmetric])
    then have "real_of_int (d mod Hour) / real_of_int Hour \<le> real_of_int (e mod Hour) / real_of_int Hour"
      by (simp add: Hour_def divide_right_mono)
    from fp_ok_mono[OF assms(1) this] True show ?thesis by simp
  next
    case False
    with le have "real_of_int (d div Hour) + 1 \<le> real_of_int (e div Hour)" by linarith
    with fraction_bounds(2)[OF assms(1), of d] fraction_bounds(1)[OF assms(1), of e] show ?thesis by linarith
  qed
  from fp_ok_mono[OF assms(1) this] show ?thesis
    using assms by (simp add: Hours_nonneg_eq)
qed

lemma base_positive:
  assumes "fp_ok F" and "createdAt \<le> now"
  shows "0 < fp_round F (Hours F (Since now createdAt) + 2)"
proof -
  have "2 \<le> Hours F (Since now createdAt) + 2"
    using Hours_nonneg[OF assms(1) Since_nonneg[OF assms(2)]] by simp
  from fp_ok_mono[OF assms(1) this] show ?thesis using assms(1) by simp
qed

lemma TrendingScore_past:
  assumes "fp_ok F" and "createdAt \<le> now"
  shows "\<exists>b. b = fp_pow F (fp_round F (Hours F (Since now createdAt) + 2)) \<and> 0 < b
     \<and> TrendingScore F now v createdAt = Finite (fp_round F (real_of_int v / b))"
  using base_positive[OF assms] assms(1)
  by (auto simp: TrendingScore_def float_div_def Pow15_def Let_def fp_ok_def)

section \<open>The recompute pass\<close>

record 's TrendingStore =
  ts_GetAllRequests :: "('s, RequestForScoring list) eff"
  ts_SetTrendingScore :: "string \<Rightarrow> float64 \<Rightarrow> ('s, unit) eff"

text \<open>The clock is read once per request: \<open>clock i\<close> is its reading for the \<open>i\<close>-th one.\<close>

fun recompute_loop ::
  "fp \<Rightarrow> (nat \<Rightarrow> gotime) \<Rightarrow> nat \<Rightarrow> 's TrendingStore \<Rightarrow> RequestForScoring list \<Rightarrow> 's \<Rightarrow> 's" where
  "recompute_loop F clock i store [] s = s"
| "recompute_loop F clock i store (req # reqs) s =
     recompute_loop F clock (Suc i) store reqs
       (snd (ts_SetTrendingScore store (sc_ID req)
               (TrendingScore F (clock i) (sc_VoteCount req) (sc_CreatedAt req)) s))"

definition recompute :: "fp \<Rightarrow> (nat \<Rightarrow> gotime) \<Rightarrow> 's TrendingStore \<Rightarrow> ('s, unit) eff" where
  "recompute F clock store s =
     (case ts_GetAllRequests store s of
        (Inl e, s1) \<Rightarrow> (Inl e, s1)
      | (Inr requests, s1) \<Rightarrow> (Inr (), recompute_loop F clock 0 store requests s1))"

definition SetTrendingScore :: "'r redis \<Rightarrow> string \<Rightarrow> float64 \<Rightarrow> ('r, unit) eff" where
  "SetTrendingScore R requestID score r =
     (case rd_ZAdd R ''trending'' score requestID r of (x, r') \<Rightarrow> (case x of Inl e \<Rightarrow> Inl e | Inr _ \<Rightarrow> Inr (), r'))"

definition trendingStoreAdapter :: "'r redis \<Rightarrow> ('r world) TrendingStore" where
  "trendingStoreAdapter R =
     \<lparr>ts_GetAllRequests = on_pg GetAllRequests,
      ts_SetTrendingScore = (\<lambda>requestID score. on_redis (SetTrendingScore R requestID score))\<rparr>"

lemma recompute_loop_pg [simp, state_frame]:
  "fst (recompute_loop F clock i (trendingStoreAdapter R) reqs w) = fst w"
  by (induction reqs arbitrary: i w) (simp_all add: trendingStoreAdapter_def)

section \<open>The job\<close>

text \<open>Every tick has its own clock readings.\<close>

definition TrendingJob_Run ::
  "fp \<Rightarrow> duration \<Rightarrow> 's TrendingStore \<Rightarrow> (nat \<Rightarrow> gotime) job_event list \<Rightarrow> 's \<Rightarrow> job_status \<times> 's" where
  "TrendingJob_Run F interval store es s = run_job interval (\<lambda>clock. recompute F clock store) es s"

end
