(* ===== verification/Redis_Demo.thy ===== *)
theory Redis_Demo
  imports Redis_Ops Demo
begin

text \<open>
  A small concrete Redis the witnesses are evaluated on: counters, strings and sorted sets as
  functions, with no expiry and no failure.
\<close>

record demo_store =
  ds_counter :: "string \<Rightarrow> int"
  ds_string :: "string \<Rightarrow> string option"
  ds_zset :: "string \<Rightarrow> string \<Rightarrow> float64 option"

fun demo_cmd :: "redis_cmd \<Rightarrow> demo_store \<Rightarrow> demo_store" where
  "demo_cmd (CmdSet k v ttl) d = d\<lparr>ds_string := (ds_string d)(k \<mapsto> v)\<rparr>"
| "demo_cmd (CmdZAdd k x m) d = d\<lparr>ds_zset := (ds_zset d)(k := (ds_zset d k)(m \<mapsto> x))\<rparr>"

definition demo_redis :: "demo_store redis" where
  "demo_redis =
     \<lparr>rd_Ping = (\<lambda>d. (Inr (), d)),
      rd_Incr = (\<lambda>k d. (Inr (ds_counter d k + 1), d\<lparr>ds_counter := (ds_counter d)(k := ds_counter d k + 1)\<rparr>)),
      rd_Expire = (\<lambda>k ttl d. (Inr True, d)),
      rd_Get = (\<lambda>k d. (case ds_string d k of None \<Rightarrow> Inl (Opaque ''redis: nil'') | Some v \<Rightarrow> Inr v, d)),
      rd_Set = (\<lambda>k v ttl d. (Inr (), demo_cmd (CmdSet k v ttl) d)),
      rd_ZAdd = (\<lambda>k x m d. (Inr 1, demo_cmd (CmdZAdd k x m) d)),
      rd_ZRevRangeByScore = (\<lambda>k b d. (Inr [], d)),
      rd_Exec = (\<lambda>cs d. (Inr (), fold demo_cmd cs d))\<rparr>"

definition demo_store_empty :: demo_store where
  "demo_store_empty = \<lparr>ds_counter = (\<lambda>_. 0), ds_string = Map.empty, ds_zset = (\<lambda>_. Map.empty)\<rparr>"

text \<open>The demonstration database with a counter that has drifted from its votes.\<close>

definition drifted_pg :: pg where
  "drifted_pg = \<lparr>tbl = count_update (\<lambda>_. 5) 9 ''r1'' demo_tables, faults = []\<rparr>"

lemma drifted_simps [simp]: "faults drifted_pg = []" "voters (tbl drifted_pg) i = {}"
  by (simp_all add: drifted_pg_def demo_voters)

lemma drifted_tables_ok: "tables_ok demo_lib (tbl drifted_pg)"
  by (simp add: drifted_pg_def tables_ok_def demo_tables_def demo_lib_def ascii_lower_def int32_range_def
      set_count_def)

end
