(* ===== verification/Ranking_Properties.thy ===== *)
theory Ranking_Properties
  imports Reconcile Trending Redis_Demo
begin

text \<open>
  The correctness of the background jobs: repair of the vote counters, and the trending scores.
\<close>

section \<open>Reconciliation\<close>

lemma wrong_empty_counts_exact:
  assumes "tables_ok L (tbl (fst w))"
  shows "pgrec.wrong w = {} \<longleftrightarrow> counts_exact (tbl (fst w))"
proof -
  have "pgrec.wrong w = r_id ` set (wrong_rows (tbl (fst w)))"
    using wrong_rows_stored[OF assms] by (simp add: pgrec.wrong_def)
  then show ?thesis by (simp add: counts_exact_no_wrong_rows)
qed

lemma untouched_no_self_votes:
  assumes "untouched t' = untouched t" and "no_self_votes t"
  shows "no_self_votes t'"
proof -
  have v: "votes t' = votes t"
    and m: "map (\<lambda>q. (r_id q, r_author_id q, r_title q, r_description q, r_created_at q)) (feature_requests t')
          = map (\<lambda>q. (r_id q, r_author_id q, r_title q, r_description q, r_created_at q)) (feature_requests t)"
    using assms(1) by (simp_all add: untouched_def)
  have "map (\<lambda>q. (r_id q, r_author_id q)) (feature_requests t') = map (\<lambda>q. (r_id q, r_author_id q)) (feature_requests t)"
    using arg_cong[OF m, of "map (\<lambda>x. (fst x, fst (snd x)))"] by (simp add: comp_def)
  then have rows: "(\<lambda>q. (r_id q, r_author_id q)) ` set (feature_requests t')
      = (\<lambda>q. (r_id q, r_author_id q)) ` set (feature_requests t)"
    by (metis list.set_map)
  have ns: "no_self_votes u \<longleftrightarrow>
      (\<forall>p \<in> (\<lambda>q. (r_id q, r_author_id q)) ` set (feature_requests u). snd p \<notin> voters u (fst p))" for u
    by (auto simp: no_self_votes_def)
  have "voters t' = voters t" using v by (simp add: voters_def fun_eq_iff)
  then show ?thesis using assms(2) unfolding ns rows by (simp only:)
qed

lemma reconcile_pass:
  assumes "tables_ok L (tbl (fst w))" and "reconcile (reconcileStoreAdapter R L now) w = (res, w')"
  shows "pgrec.repaired L w w'" and "tables_ok L (tbl (fst w'))" and "untouched (tbl (fst w')) = untouched (tbl (fst w))"
    and "counts_exact (tbl (fst w)) \<Longrightarrow> counts_exact (tbl (fst w'))"
proof -
  show rep: "pgrec.repaired L w w'"
    using assms by (intro pgrec.reconcile_repaired) (simp_all add: rec_inv_def)
  then show ok: "tables_ok L (tbl (fst w'))" and "untouched (tbl (fst w')) = untouched (tbl (fst w))"
    by (simp_all add: pgrec.repaired_def rec_inv_def ballots_of_def)
  show "counts_exact (tbl (fst w'))" if "counts_exact (tbl (fst w))"
    using that pgrec.wrong_subset[OF rep] wrong_empty_counts_exact[OF assms(1)] wrong_empty_counts_exact[OF ok] by blast
qed

lemma untouched_votes: "untouched t' = untouched t \<Longrightarrow> votes t' = votes t"
  by (simp add: untouched_def)

text \<open>Every request's vote total fits the counter's type.\<close>

definition totals_fit :: "tables \<Rightarrow> bool" where
  "totals_fit t \<longleftrightarrow> (\<forall>q \<in> set (feature_requests t). int32_range (int (card (voters t (r_id q)))))"

lemma reconcile_pass_exact:
  assumes "tables_ok L (tbl (fst w))" and "faults (fst w) = []" and "totals_fit (tbl (fst w))"
  shows "\<exists>w'. reconcile (reconcileStoreAdapter R L now) w = (Inr (), w') \<and> counts_exact (tbl (fst w'))"
proof -
  have "rec_ready L w"
    using assms length_votes_on by (auto simp: rec_ready_def tables_ok_def totals_fit_def)
  from pgrec_ready.reconcile_exact[OF this, of R now] obtain w' where
    w: "reconcile (reconcileStoreAdapter R L now) w = (Inr (), w')" "rec_ready L w'" "pgrec.wrong w' = {}"
    by blast
  then have "counts_exact (tbl (fst w'))"
    using wrong_empty_counts_exact[of L w'] by (simp add: rec_ready_def)
  with w(1) show ?thesis by blast
qed


lemma drifted_totals_fit: "totals_fit (tbl drifted_pg)"
  by (simp add: totals_fit_def int32_range_def)


text \<open>
  Under any faults a reconciliation pass never makes a counter wrong: each counter is as it was
  or equal to its number of votes, exact counters stay exact, the votes and the schema's
  constraints are kept, and so is the whole vote invariant.
\<close>

theorem reconcile_never_worse:
  assumes "tables_ok L (tbl p)" and "reconcile (reconcileStoreAdapter R L now) (p, r) = (res, (p', r'))"
  shows "tables_ok L (tbl p') \<and> untouched (tbl p') = untouched (tbl p)
     \<and> (\<forall>i q'. find_request (tbl p') i = Some q' \<longrightarrow>
          (\<exists>q. find_request (tbl p) i = Some q
             \<and> (r_vote_count q' = r_vote_count q \<or> r_vote_count q' = int (card (voters (tbl p') i)))))
     \<and> (vote_invariant L (tbl p) \<longrightarrow> vote_invariant L (tbl p'))"
proof -
  note pass = reconcile_pass[of L "(p, r)", simplified, OF assms]
  have counter: "\<exists>q. find_request (tbl p) i = Some q
      \<and> (r_vote_count q' = r_vote_count q \<or> r_vote_count q' = int (card (voters (tbl p') i)))"
    if "find_request (tbl p') i = Some q'" for i q'
  proof -
    have "actual_count (ballots_of (p, r)) i = int (card (voters (tbl p') i))"
      using length_votes_on[of "tbl p'" i] pass(2,3) actual_count_votes_on[of "tbl p'" i]
      by (simp add: ballots_of_def tables_ok_def)
    moreover have "stored_count (p', r') i = stored_count (p, r) i
        \<or> i \<in> dom (stored_count (p, r)) \<and> stored_count (p', r') i = Some (actual_count (ballots_of (p, r)) i)"
      using pass(1) by (simp add: pgrec.repaired_def)
    ultimately show ?thesis using that
      by (cases "find_request (tbl p) i") (auto simp: stored_count_def)
  qed
  have "vote_invariant L (tbl p')" if "vote_invariant L (tbl p)"
    using that pass(2,4) untouched_no_self_votes[of "tbl p'" "tbl p"] pass(3) by (simp add: vote_invariant_def)
  with pass(2,3) counter show ?thesis by auto
qed

theorem reconcile_never_worse_witness:
  "votes (tbl (fst (snd (reconcile (reconcileStoreAdapter demo_redis demo_lib 10)
     (drifted_pg\<lparr>faults := [NoFault, FailAfter (Opaque ''lost'')]\<rparr>, demo_store_empty))))) = []"
proof -
  let ?w = "(drifted_pg\<lparr>faults := [NoFault, FailAfter (Opaque ''lost'')]\<rparr>, demo_store_empty)"
  obtain res p' r' where r: "reconcile (reconcileStoreAdapter demo_redis demo_lib 10) ?w = (res, (p', r'))"
    by (metis prod_cases3)
  from reconcile_never_worse[OF _ r] have "untouched (tbl p') = untouched (tbl drifted_pg)"
    by (simp add: drifted_tables_ok)
  then have "votes (tbl p') = votes (tbl drifted_pg)" by (rule untouched_votes)
  with r show ?thesis by (simp add: drifted_pg_def demo_tables_def)
qed



section \<open>Trending scores\<close>

text \<open>
  For a request created in the past the score is a number, it never decreases with the votes,
  and for a non-negative vote count it is non-negative and never increases with the age; rounding
  is included, whatever the rounding mode.
\<close>

theorem trending_score_monotone:
  assumes "fp_ok F" and "c1 \<le> c2" and "c2 \<le> now" and "0 \<le> v1" and "v1 \<le> v2"
  shows "\<exists>x y. TrendingScore F now v1 c1 = Finite x \<and> TrendingScore F now v2 c2 = Finite y \<and> 0 \<le> x \<and> x \<le> y"
proof -
  let ?b = "\<lambda>c. fp_pow F (fp_round F (Hours F (Since now c) + 2))"
  have c: "c1 \<le> now" using assms by simp
  have b: "0 < ?b c1" "0 < ?b c2"
    and s: "TrendingScore F now v1 c1 = Finite (fp_round F (real_of_int v1 / ?b c1))"
      "TrendingScore F now v2 c2 = Finite (fp_round F (real_of_int v2 / ?b c2))"
    using TrendingScore_past[OF assms(1) c, of v1] TrendingScore_past[OF assms(1,3), of v2] by auto
  have "Hours F (Since now c2) + 2 \<le> Hours F (Since now c1) + 2"
    using Hours_mono[OF assms(1) Since_nonneg[OF assms(3)] Since_mono[OF assms(2)]] by simp
  moreover note base_positive[OF assms(1,3)]
  ultimately have "?b c2 \<le> ?b c1"
    using assms(1) fp_ok_mono[OF assms(1)] by (simp add: fp_ok_def)
  then have "real_of_int v1 / ?b c1 \<le> real_of_int v2 / ?b c2"
    using b assms(4,5) by (intro frac_le) simp_all
  moreover have "0 \<le> real_of_int v1 / ?b c1" using b assms(4) by simp
  ultimately have "0 \<le> fp_round F (real_of_int v1 / ?b c1)"
    "fp_round F (real_of_int v1 / ?b c1) \<le> fp_round F (real_of_int v2 / ?b c2)"
    using fp_ok_mono[OF assms(1)] fp_ok_consts(1)[OF assms(1)] by metis+
  with s show ?thesis by blast
qed

theorem trending_score_monotone_witness:
  "\<exists>x y. TrendingScore exact_fp 9000000000000 3 0 = Finite x
       \<and> TrendingScore exact_fp 9000000000000 4 5000000000000 = Finite y \<and> x \<le> y"
  using trending_score_monotone[OF exact_fp_ok, of 0 5000000000000 9000000000000 3 4] by auto

text \<open>What the properties ask of \<open>ZADD\<close>: it sets the member's score, or fails and changes nothing.\<close>

definition zadd_law :: "'r redis \<Rightarrow> ('r \<Rightarrow> string \<Rightarrow> string \<Rightarrow> float64 option) \<Rightarrow> bool" where
  "zadd_law R zs \<longleftrightarrow> (\<forall>k x m r y r'. rd_ZAdd R k x m r = (y, r') \<longrightarrow>
       (\<exists>e. y = Inl e) \<and> zs r' = zs r \<or> (\<exists>n. y = Inr n) \<and> zs r' = (zs r)(k := (zs r k)(m \<mapsto> x)))"

definition score_at :: "fp \<Rightarrow> (nat \<Rightarrow> gotime) \<Rightarrow> nat \<Rightarrow> RequestForScoring \<Rightarrow> float64" where
  "score_at F clock n req = TrendingScore F (clock n) (sc_VoteCount req) (sc_CreatedAt req)"

lemma zadd_step:
  assumes "zadd_law R zs"
  obtains (failed) "zs (snd (snd (ts_SetTrendingScore (trendingStoreAdapter R) m x w))) = zs (snd w)"
      "\<exists>e r'. rd_ZAdd R ''trending'' x m (snd w) = (Inl e, r')"
    | (set) "zs (snd (snd (ts_SetTrendingScore (trendingStoreAdapter R) m x w))) =
         (zs (snd w))(''trending'' := (zs (snd w) ''trending'')(m \<mapsto> x))"
proof -
  obtain y r' where z: "rd_ZAdd R ''trending'' x m (snd w) = (y, r')"
    by (cases "rd_ZAdd R ''trending'' x m (snd w)")
  have after: "snd (snd (ts_SetTrendingScore (trendingStoreAdapter R) m x w)) = r'"
    by (simp add: trendingStoreAdapter_def on_redis_def SetTrendingScore_def z)
  have "(\<exists>e. y = Inl e) \<and> zs r' = zs (snd w)
      \<or> (\<exists>n. y = Inr n) \<and> zs r' = (zs (snd w))(''trending'' := (zs (snd w) ''trending'')(m \<mapsto> x))"
    using assms z unfolding zadd_law_def by blast
  then show ?thesis using after z failed set by auto
qed

lemma recompute_loop_scores:
  assumes "zadd_law R zs" and "w' = recompute_loop F clock i (trendingStoreAdapter R) reqs w"
  shows "zs (snd w') k m = zs (snd w) k m
     \<or> (k = ''trending'' \<and> (\<exists>n < length reqs. sc_ID (reqs ! n) = m
          \<and> zs (snd w') k m = Some (score_at F clock (i + n) (reqs ! n))))"
  using assms(2)
proof (induction reqs arbitrary: i w)
  case (Cons req reqs)
  let ?w1 = "snd (ts_SetTrendingScore (trendingStoreAdapter R) (sc_ID req) (score_at F clock i req) w)"
  have "w' = recompute_loop F clock (Suc i) (trendingStoreAdapter R) reqs ?w1"
    using Cons.prems by (simp add: score_at_def)
  from Cons.IH[OF this] show ?case
  proof (elim disjE conjE exE)
    assume same: "zs (snd w') k m = zs (snd ?w1) k m"
    show ?thesis
      using assms(1)
    proof (rule zadd_step[of R zs "sc_ID req" "score_at F clock i req" w])
      assume "zs (snd ?w1) = zs (snd w)"
      with same show ?thesis by simp
    next
      assume "zs (snd ?w1) = (zs (snd w))(''trending'' := (zs (snd w) ''trending'')(sc_ID req \<mapsto> score_at F clock i req))"
      with same have "zs (snd w') k m = zs (snd w) k m \<or> (k = ''trending'' \<and> sc_ID req = m
          \<and> zs (snd w') k m = Some (score_at F clock i req))"
        by (simp split: if_splits)
      then show ?thesis by (auto intro!: exI[of _ "0::nat"])
    qed
  next
    fix n
    assume "k = ''trending''" "n < length reqs" "sc_ID (reqs ! n) = m"
      "zs (snd w') k m = Some (score_at F clock (Suc i + n) (reqs ! n))"
    then show ?thesis by (intro disjI2 conjI exI[of _ "Suc n"]) simp_all
  qed
qed simp

lemma recompute_loop_all:
  assumes "zadd_law R zs" and "\<And>k x m r. \<exists>n r'. rd_ZAdd R k x m r = (Inr n, r')"
    and "w' = recompute_loop F clock i (trendingStoreAdapter R) reqs w" and "distinct (map sc_ID reqs)"
    and "n < length reqs"
  shows "zs (snd w') ''trending'' (sc_ID (reqs ! n)) = Some (score_at F clock (i + n) (reqs ! n))"
  using assms(3,4,5)
proof (induction reqs arbitrary: i w n)
  case (Cons req reqs)
  let ?w1 = "snd (ts_SetTrendingScore (trendingStoreAdapter R) (sc_ID req) (score_at F clock i req) w)"
  have w': "w' = recompute_loop F clock (Suc i) (trendingStoreAdapter R) reqs ?w1"
    using Cons.prems by (simp add: score_at_def)
  show ?case
  proof (cases n)
    case 0
    have "zs (snd ?w1) ''trending'' (sc_ID req) = Some (score_at F clock i req)"
      using assms(1)
    proof (rule zadd_step[of R zs "sc_ID req" "score_at F clock i req" w])
      assume "\<exists>e r'. rd_ZAdd R ''trending'' (score_at F clock i req) (sc_ID req) (snd w) = (Inl e, r')"
      with assms(2)[of "''trending''" "score_at F clock i req" "sc_ID req" "snd w"] show ?thesis by auto
    qed simp
    moreover have "\<not> (\<exists>n < length reqs. sc_ID (reqs ! n) = sc_ID req)"
      using Cons.prems(2) nth_mem[of _ reqs] by (metis distinct.simps(2) imageI list.set_map list.simps(9))
    ultimately show ?thesis
      using recompute_loop_scores[OF assms(1) w', of "''trending''" "sc_ID req"] 0 by auto
  next
    case (Suc n')
    with Cons.IH[OF w', of n'] Cons.prems show ?thesis by simp
  qed
qed simp

text \<open>
  C36: A trending pass does not touch the database. In Redis it changes nothing but entries of the
  sorted set \<open>trending\<close>, and an entry it changes holds the score of a stored request, from its
  current counter and age; when neither store fails, every stored request has its score afterwards.
\<close>

theorem recompute_scores_every_request:
  assumes "zadd_law R zs" and "tables_ok L (tbl p)"
    and "recompute F clock (trendingStoreAdapter R) (p, r) = (res, (p', r'))"
  shows "tbl p' = tbl p
     \<and> (\<forall>k m. zs r' k m = zs r k m \<or> (k = ''trending'' \<and> (\<exists>n q. q \<in> set (feature_requests (tbl p)) \<and> r_id q = m
          \<and> zs r' k m = Some (TrendingScore F (clock n) (r_vote_count q) (time_of_timestamptz (r_created_at q))))))
     \<and> (faults p = [] \<and> (\<forall>k x m s. \<exists>n s'. rd_ZAdd R k x m s = (Inr n, s')) \<longrightarrow>
          res = Inr () \<and> (\<forall>q \<in> set (feature_requests (tbl p)). \<exists>n. zs r' ''trending'' (r_id q) =
             Some (TrendingScore F (clock n) (r_vote_count q) (time_of_timestamptz (r_created_at q)))))"
proof -
  let ?qs = "feature_requests (tbl p)"
  obtain g p1 where g: "GetAllRequests p = (g, p1)" by (cases "GetAllRequests p")
  note p1 = GetAllRequests_cases[OF g]
  have run: "on_pg GetAllRequests (p, r) = (g, (p1, r))" by (simp add: on_pg_def g)
  show ?thesis
  proof (cases g)
    case (Inl e)
    with assms(3) run p1(1) p1(3) show ?thesis by (auto simp: recompute_def trendingStoreAdapter_def)
  next
    case (Inr reqs)
    then have reqs: "reqs = map scoring_of ?qs" by (rule p1(2))
    have w': "(p', r') = recompute_loop F clock 0 (trendingStoreAdapter R) (map scoring_of ?qs) (p1, r)"
      and res: "res = Inr ()"
      using assms(3) run Inr reqs by (simp_all add: recompute_def trendingStoreAdapter_def)
    from arg_cong[OF w', of fst] have "p' = p1" by simp
    have score: "score_at F clock n (map scoring_of ?qs ! n) =
        TrendingScore F (clock n) (r_vote_count (?qs ! n)) (time_of_timestamptz (r_created_at (?qs ! n)))"
      if "n < length ?qs" for n
      using that by (simp add: score_at_def)
    have entry: "zs r' k m = zs r k m \<or> (k = ''trending'' \<and> (\<exists>n q. q \<in> set ?qs \<and> r_id q = m
          \<and> zs r' k m = Some (TrendingScore F (clock n) (r_vote_count q) (time_of_timestamptz (r_created_at q)))))" for k m
      using recompute_loop_scores[OF assms(1) w', of k m]
    proof (elim disjE conjE exE)
      fix n
      assume n: "n < length (map scoring_of ?qs)" and m: "sc_ID (map scoring_of ?qs ! n) = m" and k: "k = ''trending''"
        and e: "zs (snd (p', r')) k m = Some (score_at F clock (0 + n) (map scoring_of ?qs ! n))"
      from n have "?qs ! n \<in> set ?qs" by simp
      moreover have "r_id (?qs ! n) = m" using n m by simp
      moreover have "zs r' k m = Some (TrendingScore F (clock n) (r_vote_count (?qs ! n))
          (time_of_timestamptz (r_created_at (?qs ! n))))" using e n score by simp
      ultimately show ?thesis using k by blast
    qed simp
    have all: "\<exists>n. zs r' ''trending'' (r_id q) =
             Some (TrendingScore F (clock n) (r_vote_count q) (time_of_timestamptz (r_created_at q)))"
      if "\<forall>k x m s. \<exists>n s'. rd_ZAdd R k x m s = (Inr n, s')" "q \<in> set ?qs" for q
    proof -
      from that(2) obtain n where n: "n < length ?qs" "q = ?qs ! n" by (auto simp: in_set_conv_nth)
      have "distinct (map sc_ID (map scoring_of ?qs))" using assms(2) by (simp add: tables_ok_def comp_def)
      from recompute_loop_all[OF assms(1) _ w' this, of n] that(1) n score show ?thesis by auto
    qed
    show ?thesis using entry all res p1(1) \<open>p' = p1\<close> by blast
  qed
qed

lemma demo_zadd_law: "zadd_law demo_redis ds_zset"
  by (simp add: zadd_law_def demo_redis_def)

theorem recompute_scores_every_request_witness:
  "ds_zset (snd (snd (recompute exact_fp (\<lambda>_. 9) (trendingStoreAdapter demo_redis) (demo_pg, demo_store_empty))))
     ''count:r1'' ''r1'' = None"
proof -
  obtain res p' r' where r: "recompute exact_fp (\<lambda>_. 9) (trendingStoreAdapter demo_redis) (demo_pg, demo_store_empty)
      = (res, (p', r'))" by (metis prod_cases3)
  have ok: "tables_ok demo_lib (tbl demo_pg)" by (simp add: demo_tables_ok)
  have "''count:r1'' \<noteq> ''trending''" by simp
  with recompute_scores_every_request[OF demo_zadd_law ok r]
  have "ds_zset r' ''count:r1'' ''r1'' = ds_zset demo_store_empty ''count:r1'' ''r1''"
    by blast
  with r show ?thesis by (simp add: demo_store_empty_def)
qed

end
