(* ===== verification/Vote_Cache.thy ===== *)
theory Vote_Cache
  imports Redis_Demo Reconcile
begin

text \<open>
  \<open>internal/repository/redis/votes.go\<close>: the Redis cache of vote counts and rankings, over the
  parameter record of Redis commands.
\<close>

definition both_writes :: "string \<Rightarrow> int \<Rightarrow> redis_cmd list" where
  "both_writes requestID newCount =
     [CmdSet (countKey requestID) (format_int newCount) 0,
      CmdZAdd ''top'' (Finite (real_of_int newCount)) requestID]"

definition IncrementCount :: "'r redis \<Rightarrow> string \<Rightarrow> int \<Rightarrow> 'r \<Rightarrow> 'r" where
  "IncrementCount R requestID newCount r = snd (rd_Exec R (both_writes requestID newCount) r)"

definition DecrementCount :: "'r redis \<Rightarrow> string \<Rightarrow> int \<Rightarrow> 'r \<Rightarrow> 'r" where
  "DecrementCount R requestID newCount r = snd (rd_Exec R (both_writes requestID newCount) r)"

definition GetCount :: "'r redis \<Rightarrow> string \<Rightarrow> 'r \<Rightarrow> int \<times> 'r" where
  "GetCount R requestID r =
     (case rd_Get R (countKey requestID) r of
        (Inl e, r') \<Rightarrow> (- 1, r')
      | (Inr val, r') \<Rightarrow> (case parse_int 32 val of None \<Rightarrow> (- 1, r') | Some n \<Rightarrow> (n, r')))"

definition cache_SetTrendingScore :: "'r redis \<Rightarrow> string \<Rightarrow> float64 \<Rightarrow> ('r, unit) eff" where
  "cache_SetTrendingScore R requestID score r =
     (case rd_ZAdd R ''trending'' score requestID r of
        (Inl e, r') \<Rightarrow> (Inl e, r') | (Inr _, r') \<Rightarrow> (Inr (), r'))"

definition ranked_range :: "int \<Rightarrow> ZRangeBy" where
  "ranked_range n = \<lparr>zr_Max = ''+inf'', zr_Min = ''-inf'', zr_Offset = 0, zr_Count = n\<rparr>"

definition GetTopRanked :: "'r redis \<Rightarrow> int \<Rightarrow> ('r, string list) eff" where
  "GetTopRanked R n r =
     (case rd_ZRevRangeByScore R ''top'' (ranked_range n) r of
        (Inl e, r') \<Rightarrow> (Inl (wrap ''get top ranked: '' e), r') | (Inr ids, r') \<Rightarrow> (Inr ids, r'))"

definition GetTrendingRanked :: "'r redis \<Rightarrow> int \<Rightarrow> ('r, string list) eff" where
  "GetTrendingRanked R n r =
     (case rd_ZRevRangeByScore R ''trending'' (ranked_range n) r of
        (Inl e, r') \<Rightarrow> (Inl (wrap ''get trending ranked: '' e), r') | (Inr ids, r') \<Rightarrow> (Inr ids, r'))"

text \<open>
  What the cache relies on of Redis strings, for a view \<open>str\<close> of them: a pipeline that reports
  success has run its \<open>SET\<close>s in order, and \<open>GET\<close> returns the stored text or an error.
\<close>

fun pipeline_strings :: "redis_cmd list \<Rightarrow> (string \<Rightarrow> string option) \<Rightarrow> string \<Rightarrow> string option" where
  "pipeline_strings [] m = m"
| "pipeline_strings (CmdSet k v ttl # cs) m = pipeline_strings cs (m(k \<mapsto> v))"
| "pipeline_strings (CmdZAdd k x y # cs) m = pipeline_strings cs m"

definition strings_law :: "'r redis \<Rightarrow> ('r \<Rightarrow> string \<Rightarrow> string option) \<Rightarrow> bool" where
  "strings_law R str \<longleftrightarrow>
     (\<forall>cs r r'. rd_Exec R cs r = (Inr (), r') \<longrightarrow> str r' = pipeline_strings cs (str r))
   \<and> (\<forall>k r v r'. rd_Get R k r = (Inr v, r') \<longrightarrow> str r k = Some v)"

lemma parse_format_int32: "int32_range n \<Longrightarrow> parse_int 32 (format_int n) = Some n"
  by (rule parse_int_format) (simp add: signed_range_32)

text \<open>
  A count that was cached successfully reads back as itself, or as the not-cached value -1
  when the read fails, and never as another number; different requests do not share an entry.
\<close>

theorem cached_count_reads_back:
  assumes "strings_law R str" and "rd_Exec R (both_writes i c) r = (Inr (), r')" and "int32_range c"
  shows "IncrementCount R i c r = r' \<and> DecrementCount R i c r = r'
       \<and> fst (GetCount R i r') \<in> {c, - 1}
       \<and> (\<forall>j. j \<noteq> i \<longrightarrow> str r' (countKey j) = str r (countKey j))"
proof -
  have s: "str r' = (str r)(countKey i \<mapsto> format_int c)"
    using assms(1,2) by (simp add: strings_law_def both_writes_def)
  have "fst (GetCount R i r') \<in> {c, - 1}"
  proof (cases "rd_Get R (countKey i) r'")
    case (Pair x r'')
    show ?thesis
    proof (cases x)
      case (Inr v)
      with Pair assms(1) have "str r' (countKey i) = Some v" unfolding strings_law_def by blast
      with s have "v = format_int c" by simp
      with Pair Inr show ?thesis by (simp add: GetCount_def parse_format_int32[OF assms(3)])
    qed (simp add: GetCount_def Pair)
  qed
  with s assms(2) show ?thesis
    by (simp add: IncrementCount_def DecrementCount_def countKey_def)
qed

lemma demo_strings_law: "strings_law demo_redis ds_string"
proof -
  have "ds_string (fold demo_cmd cs d) = pipeline_strings cs (ds_string d)" for cs d
    by (induction cs "ds_string d" arbitrary: d rule: pipeline_strings.induct) simp_all
  then show ?thesis by (auto simp: strings_law_def demo_redis_def split: option.splits)
qed

theorem cached_count_reads_back_witness:
  "fst (GetCount demo_redis ''r1'' (IncrementCount demo_redis ''r1'' 7 demo_store_empty)) \<in> {7, - 1}"
proof -
  have "rd_Exec demo_redis (both_writes ''r1'' 7) demo_store_empty
      = (Inr (), fold demo_cmd (both_writes ''r1'' 7) demo_store_empty)"
    by (simp add: demo_redis_def)
  from cached_count_reads_back[OF demo_strings_law this] show ?thesis
    by (simp add: int32_range_def)
qed

end
