(* ===== verification/User_Repo.thy ===== *)
theory User_Repo
  imports Vote_Tables
begin

text \<open>
  \<open>internal/repository/postgres/users.go\<close> and \<open>user_repo.go\<close>: creating and fetching users. The
  e-mail column is CITEXT, so equality and uniqueness compare folded texts. \<open>gen\<close> is the
  identifier \<open>gen_random_uuid()\<close> supplies.
\<close>

section \<open>Statements\<close>

definition duplicate_id :: goerror where
  "duplicate_id = PgError ''23505'' ''duplicate key value violates unique constraint \"users_pkey\"''"

definition duplicate_email :: goerror where
  "duplicate_email = PgError ''23505'' ''duplicate key value violates unique constraint \"users_email_key\"''"

definition createUserSQL :: "pg_lib \<Rightarrow> int \<Rightarrow> string \<Rightarrow> string \<Rightarrow> string \<Rightarrow> user_row list stmt" where
  "createUserSQL L now gen email passwordHash t =
     (if gen \<in> u_id ` set (users t)
      then Inl duplicate_id
      else if citext_fold L email \<in> (\<lambda>u. citext_fold L (u_email u)) ` set (users t)
      then Inl duplicate_email
      else let u = \<lparr>u_id = gen, u_email = email, u_password_hash = Some passwordHash, u_created_at = now\<rparr>
           in Inr ([u], t\<lparr>users := users t @ [u]\<rparr>))"

definition getUserByEmailSQL :: "pg_lib \<Rightarrow> string \<Rightarrow> user_row list stmt" where
  "getUserByEmailSQL L email t =
     Inr (filter (\<lambda>u. citext_fold L (u_email u) = citext_fold L email) (users t), t)"

definition getUserByIDSQL :: "string \<Rightarrow> user_row list stmt" where
  "getUserByIDSQL i t = Inr (filter (\<lambda>u. u_id u = i) (users t), t)"

section \<open>UserRepository\<close>

text \<open>A row of the query, or the error of reading it, as it is.\<close>

definition scanUser :: "user_row result \<Rightarrow> user_row result" where
  "scanUser row = (case row of Inl e \<Rightarrow> Inl e | Inr u \<Rightarrow> Inr u)"

definition UserRepository_CreateUser ::
  "pg_lib \<Rightarrow> int \<Rightarrow> string \<Rightarrow> string \<Rightarrow> string \<Rightarrow> (pg, user_row) eff" where
  "UserRepository_CreateUser L now gen email passwordHash s =
     (case query_row (createUserSQL L now gen email passwordHash) s of
        (row, s') \<Rightarrow> (case scanUser row of Inl e \<Rightarrow> Inl (wrap ''create user: '' e) | Inr u \<Rightarrow> Inr u, s'))"

definition UserRepository_GetUserByEmail :: "pg_lib \<Rightarrow> string \<Rightarrow> (pg, user_row) eff" where
  "UserRepository_GetUserByEmail L email s =
     (case query_row (getUserByEmailSQL L email) s of
        (row, s') \<Rightarrow> (case scanUser row of Inl e \<Rightarrow> Inl (wrap ''get user by email: '' e) | Inr u \<Rightarrow> Inr u, s'))"

definition UserRepository_GetUserByID :: "string \<Rightarrow> (pg, user_row) eff" where
  "UserRepository_GetUserByID i s =
     (case query_row (getUserByIDSQL i) s of
        (row, s') \<Rightarrow> (case scanUser row of Inl e \<Rightarrow> Inl (wrap ''get user by id: '' e) | Inr u \<Rightarrow> Inr u, s'))"

section \<open>UserRepo\<close>

definition derefStr :: "string option \<Rightarrow> string" where
  "derefStr s = (case s of None \<Rightarrow> [] | Some t \<Rightarrow> t)"

definition user_record :: "user_row \<Rightarrow> UserRecord" where
  "user_record u = \<lparr>ur_ID = u_id u, ur_Email = u_email u, ur_PasswordHash = derefStr (u_password_hash u)\<rparr>"

definition CreateUser :: "pg_lib \<Rightarrow> int \<Rightarrow> string \<Rightarrow> string \<Rightarrow> string \<Rightarrow> (pg, UserRecord) eff" where
  "CreateUser L now gen email passwordHash s =
     (case query_row (createUserSQL L now gen email passwordHash) s of
        (Inl e, s') \<Rightarrow> (Inl (wrap ''create user: '' e), s') | (Inr u, s') \<Rightarrow> (Inr (user_record u), s'))"

definition GetUserByEmail :: "pg_lib \<Rightarrow> string \<Rightarrow> (pg, UserRecord) eff" where
  "GetUserByEmail L email s =
     (case query_row (getUserByEmailSQL L email) s of
        (Inl e, s') \<Rightarrow> (Inl (wrap ''get user by email: '' e), s') | (Inr u, s') \<Rightarrow> (Inr (user_record u), s'))"

section \<open>Lookup by e-mail\<close>

definition user_of_email :: "pg_lib \<Rightarrow> tables \<Rightarrow> string \<Rightarrow> user_row option" where
  "user_of_email L t email = find (\<lambda>u. citext_fold L (u_email u) = citext_fold L email) (users t)"

definition add_user :: "user_row \<Rightarrow> tables \<Rightarrow> tables" where
  "add_user u t = t\<lparr>users := users t @ [u]\<rparr>"

lemma add_user_fields [simp]:
  "users (add_user u t) = users t @ [u]" "feature_requests (add_user u t) = feature_requests t"
  "votes (add_user u t) = votes t"
  by (simp_all add: add_user_def)

lemma user_of_email_None:
  "user_of_email L t email = None \<longleftrightarrow> citext_fold L email \<notin> (\<lambda>u. citext_fold L (u_email u)) ` set (users t)"
  unfolding user_of_email_def find_None_iff' by (metis (mono_tags, lifting) imageE image_eqI)

lemma user_of_email_Some:
  "user_of_email L t email = Some u \<Longrightarrow> u \<in> set (users t) \<and> citext_fold L (u_email u) = citext_fold L email"
  by (auto simp: user_of_email_def dest: find_SomeD)

lemma filter_email_find:
  assumes "tables_ok L t"
  shows "filter (\<lambda>u. citext_fold L (u_email u) = citext_fold L email) (users t) =
     (case user_of_email L t email of None \<Rightarrow> [] | Some u \<Rightarrow> [u])"
proof -
  have "distinct (map (\<lambda>u. citext_fold L (u_email u)) (users t))" using assms by (simp add: tables_ok_def)
  from filter_key_find[OF this, of "citext_fold L email"] show ?thesis by (simp add: user_of_email_def)
qed

lemma user_of_email_add_user:
  assumes "user_of_email L t (u_email u) = None"
  shows "user_of_email L (add_user u t) email =
     (if citext_fold L email = citext_fold L (u_email u) then Some u else user_of_email L t email)"
proof (cases "citext_fold L email = citext_fold L (u_email u)")
  case True
  then have "user_of_email L t email = None" using assms by (simp add: user_of_email_None)
  with True show ?thesis by (simp add: user_of_email_def find_append)
next
  case False
  then show ?thesis by (simp add: user_of_email_def find_append split: option.split)
qed

lemma user_of_email_keeps:
  assumes "user_of_email L t (u_email u) = None" and "user_of_email L t e = Some z"
  shows "user_of_email L (add_user u t) e = Some z"
  using assms(2) by (simp add: user_of_email_def find_append)

lemma tables_ok_add_user:
  assumes "tables_ok L t" and "u_id u \<notin> u_id ` set (users t)" and "user_of_email L t (u_email u) = None"
    and "parse_uuid L (u_id u) = Some (u_id u)"
  shows "tables_ok L (add_user u t)"
  using assms by (simp add: tables_ok_def user_of_email_None)

lemma vote_invariant_add_user:
  assumes "vote_invariant L t" and "u_id u \<notin> u_id ` set (users t)" and "user_of_email L t (u_email u) = None"
    and "parse_uuid L (u_id u) = Some (u_id u)"
  shows "vote_invariant L (add_user u t)"
  using assms tables_ok_add_user[of L t u]
  by (simp add: vote_invariant_def counts_exact_def no_self_votes_def votes_on_def voters_def)

section \<open>What the methods do\<close>

lemma user_reads_only: "reads_only (getUserByEmailSQL L email)"
  by (simp add: reads_only_def getUserByEmailSQL_def)

lemma CreateUser_cases:
  assumes "CreateUser L now gen email h s = (r, s')"
  obtains (unchanged) e where "r = Inl e" "tbl s' = tbl s"
    | (created) u where "u = \<lparr>u_id = gen, u_email = email, u_password_hash = Some h, u_created_at = now\<rparr>"
      "gen \<notin> u_id ` set (users (tbl s))" "user_of_email L (tbl s) email = None"
      "tbl s' = add_user u (tbl s)" "r = Inr (user_record u) \<or> (\<exists>e. r = Inl e)"
proof -
  let ?st = "createUserSQL L now gen email h"
  let ?u = "\<lparr>u_id = gen, u_email = email, u_password_hash = Some h, u_created_at = now\<rparr>"
  obtain q s1 where rs: "run_stmt ?st s = (q, s1)" by (cases "run_stmt ?st s")
  have st: "a = [?u] \<and> t' = add_user ?u (tbl s) \<and> gen \<notin> u_id ` set (users (tbl s))
      \<and> user_of_email L (tbl s) email = None" if "?st (tbl s) = Inr (a, t')" for a t'
    using that by (auto simp: createUserSQL_def Let_def user_of_email_None add_user_def split: if_splits)
  have r: "s' = s1" "\<And>e. q = Inl e \<Longrightarrow> \<exists>e'. r = Inl e'" "q = Inr [?u] \<Longrightarrow> r = Inr (user_record ?u)"
    using assms rs by (auto simp: CreateUser_def query_row_def split: sum.splits list.splits)
  from rs show ?thesis
  proof (cases rule: run_stmt_cases)
    case (unchanged e)
    then obtain e' where "r = Inl e'" using r(2) by metis
    with that(1) unchanged(2) r(1) show ?thesis by simp
  next
    case (lost e a)
    then obtain e' where "r = Inl e'" using r(2) by metis
    with that(2)[of ?u] st[OF lost(2)] r(1) show ?thesis by simp
  next
    case (effect a)
    with st[OF effect(2)] r(3) have "r = Inr (user_record ?u)" by simp
    with that(2)[of ?u] st[OF effect(2)] r(1) show ?thesis by simp
  qed
qed

lemma CreateUser_no_faults:
  assumes "faults s = []" and "gen \<notin> u_id ` set (users (tbl s))"
  shows "CreateUser L now gen email h s =
     (case user_of_email L (tbl s) email of
        Some u \<Rightarrow> (Inl (wrap ''create user: '' duplicate_email), s)
      | None \<Rightarrow> (let u = \<lparr>u_id = gen, u_email = email, u_password_hash = Some h, u_created_at = now\<rparr>
                  in (Inr (user_record u), s\<lparr>tbl := add_user u (tbl s)\<rparr>)))"
proof (cases "user_of_email L (tbl s) email")
  case None
  then have "citext_fold L email \<notin> (\<lambda>u. citext_fold L (u_email u)) ` set (users (tbl s))"
    by (simp add: user_of_email_None)
  with None assms show ?thesis
    by (simp add: CreateUser_def query_row_def run_stmt_no_faults createUserSQL_def Let_def add_user_def)
next
  case (Some u)
  then have "citext_fold L email \<in> (\<lambda>u. citext_fold L (u_email u)) ` set (users (tbl s))"
    by (metis option.distinct(1) user_of_email_None)
  with Some assms show ?thesis
    by (simp add: CreateUser_def query_row_def run_stmt_no_faults createUserSQL_def)
qed

lemma GetUserByEmail_tbl: "GetUserByEmail L email s = (r, s') \<Longrightarrow> tbl s' = tbl s"
  using query_row_reads[OF user_reads_only, of L email s]
  by (auto simp: GetUserByEmail_def split: prod.splits sum.splits)

lemma GetUserByEmail_ok:
  assumes "GetUserByEmail L email s = (Inr ur, s')" and "tables_ok L (tbl s)"
  shows "\<exists>u. user_of_email L (tbl s) email = Some u \<and> ur = user_record u"
proof -
  obtain u where "query_row (getUserByEmailSQL L email) s = (Inr u, s')" "ur = user_record u"
    using assms(1) by (auto simp: GetUserByEmail_def split: prod.splits sum.splits)
  then show ?thesis
    using filter_email_find[OF assms(2), of email]
    by (auto simp: getUserByEmailSQL_def elim!: query_row_ok split: option.splits)
qed

lemma GetUserByEmail_no_faults:
  assumes "faults s = []" and "tables_ok L (tbl s)"
  shows "GetUserByEmail L email s =
     (case user_of_email L (tbl s) email of
        None \<Rightarrow> (Inl (wrap ''get user by email: '' (Sentinel PgxErrNoRows)), s)
      | Some u \<Rightarrow> (Inr (user_record u), s))"
  using assms
  by (simp add: GetUserByEmail_def query_row_def run_stmt_no_faults getUserByEmailSQL_def filter_email_find
      split: option.split)

end
