(* ===== verification/Auth_Service.thy ===== *)
theory Auth_Service
  imports Domain Go_Base64 "HOL-Library.Sublist"
begin

unbundle bit_operations_syntax

text \<open>
  \<open>internal/service/auth.go\<close>: password hashing and verification around Argon2, and tokens around
  a JWT library. Both libraries are parameters: \<open>IDKey\<close> is \<open>argon2.IDKey\<close>, \<open>SignedString\<close> and
  \<open>ParseWithClaims\<close> are the two entry points of \<open>golang-jwt\<close>. What the properties rely on is
  stated as \<open>argon2_law\<close> and \<open>jwt_law\<close>. The salt read from \<open>crypto/rand\<close> and the clock readings
  are arguments.
\<close>

section \<open>Passwords\<close>

definition argon2Memory :: int where "argon2Memory = 64 * 1024"
definition argon2Iterations :: int where "argon2Iterations = 3"
definition argon2Parallelism :: int where "argon2Parallelism = 2"
definition argon2SaltLen :: nat where "argon2SaltLen = 16"
definition argon2KeyLen :: nat where "argon2KeyLen = 32"

record jwtClaims =
  jc_UserID :: string
  jc_ExpiresAt :: gotime
  jc_IssuedAt :: gotime

text \<open>The signing method of a parsed token, with its \<open>alg\<close> header.\<close>

datatype jwt_method = SigningMethodHMAC string | OtherMethod string

record jwtToken =
  jt_Method :: jwt_method
  jt_Claims :: "jwtClaims option"
  jt_Valid :: bool

record auth_lib =
  IDKey :: "string \<Rightarrow> string \<Rightarrow> int \<Rightarrow> int \<Rightarrow> int \<Rightarrow> nat \<Rightarrow> string"
  NewNumericDate :: "gotime \<Rightarrow> gotime"
  SignedString :: "jwtClaims \<Rightarrow> string \<Rightarrow> string result"
  ParseWithClaims :: "gotime \<Rightarrow> string \<Rightarrow> (jwt_method \<Rightarrow> string result) \<Rightarrow> jwtToken result"

definition derive_key :: "auth_lib \<Rightarrow> string \<Rightarrow> string \<Rightarrow> nat \<Rightarrow> string" where
  "derive_key A password salt keyLen =
     IDKey A password salt argon2Iterations argon2Memory argon2Parallelism keyLen"

definition encode_hash :: "string \<Rightarrow> string \<Rightarrow> string" where
  "encode_hash salt hash =
     ''$argon2id$v=19$m='' @ format_int argon2Memory @ '',t='' @ format_int argon2Iterations
     @ '',p='' @ format_int argon2Parallelism @ ''$'' @ EncodeToString std_alphabet salt
     @ ''$'' @ EncodeToString std_alphabet hash"

definition HashPassword :: "auth_lib \<Rightarrow> string result \<Rightarrow> string \<Rightarrow> string result" where
  "HashPassword A salt_read password =
     (case salt_read of
        Inl e \<Rightarrow> Inl (wrap ''generate salt: '' e)
      | Inr salt \<Rightarrow> Inr (encode_hash salt (derive_key A password salt argon2KeyLen)))"

text \<open>The comparison loop: \<open>diff |= hash[i] ^ expectedHash[i]\<close> on bytes, for all indices.\<close>

definition byte_of :: "char \<Rightarrow> 8 word" where
  "byte_of c = word_of_nat (of_char c)"

fun diff_loop :: "8 word \<Rightarrow> string \<Rightarrow> string \<Rightarrow> 8 word" where
  "diff_loop diff (h # hash) (e # expected) = diff_loop (diff OR (byte_of h XOR byte_of e)) hash expected"
| "diff_loop diff _ _ = diff"

definition VerifyPassword :: "auth_lib \<Rightarrow> string \<Rightarrow> string \<Rightarrow> bool" where
  "VerifyPassword A encoded password =
     (let parts = Split (CHR ''$'') encoded
      in if length parts \<noteq> 6 then False
         else (case DecodeString std_alphabet (parts ! 4) of
                 None \<Rightarrow> False
               | Some salt \<Rightarrow>
                   (case DecodeString std_alphabet (parts ! 5) of
                      None \<Rightarrow> False
                    | Some expectedHash \<Rightarrow>
                        let hash = derive_key A password salt (length expectedHash mod 2 ^ 32)
                        in if length hash \<noteq> length expectedHash then False
                           else diff_loop 0 hash expectedHash = 0)))"

text \<open>The documented length of a derived key.\<close>

definition argon2_law :: "auth_lib \<Rightarrow> bool" where
  "argon2_law A \<longleftrightarrow> (\<forall>p s t m k n. length (IDKey A p s t m k n) = n)"

lemma length_derive_key: "argon2_law A \<Longrightarrow> length (derive_key A p s n) = n"
  by (simp add: argon2_law_def derive_key_def)

lemma byte_of_eq_iff [simp]: "byte_of c = byte_of d \<longleftrightarrow> c = d"
proof
  assume "byte_of c = byte_of d"
  then have "unat (byte_of c) = unat (byte_of d)" by simp
  then have "(of_char c :: nat) = of_char d" by (simp add: byte_of_def unat_of_nat)
  then show "c = d" by (simp only: of_char_eq_iff)
qed simp

lemma xor_zero_iff: "(a :: 8 word) XOR b = 0 \<longleftrightarrow> a = b"
  by (metis xor.assoc xor.left_neutral xor.right_neutral xor_self_eq)

text \<open>Running over every byte without an early exit decides equality all the same.\<close>

lemma diff_loop_zero:
  "length xs = length ys \<Longrightarrow> diff_loop d xs ys = 0 \<longleftrightarrow> d = 0 \<and> xs = ys"
proof (induction d xs ys rule: diff_loop.induct)
  case (1 diff h hash e expected)
  then show ?case by (auto simp: xor_zero_iff or_eq_0_iff)
qed auto

lemma VerifyPassword_iff:
  assumes "argon2_law A" and "Split (CHR ''$'') encoded = [a, b, c, d, s, h]"
    and "DecodeString std_alphabet s = Some salt" and "DecodeString std_alphabet h = Some hash"
    and "length hash < 2 ^ 32"
  shows "VerifyPassword A encoded password \<longleftrightarrow> derive_key A password salt (length hash) = hash"
  using assms by (simp add: VerifyPassword_def length_derive_key diff_loop_zero)

lemma Split_encode_hash:
  "Split (CHR ''$'') (encode_hash salt hash) =
     [[], ''argon2id'', ''v=19'',
      ''m='' @ format_int argon2Memory @ '',t='' @ format_int argon2Iterations @ '',p='' @ format_int argon2Parallelism,
      EncodeToString std_alphabet salt, EncodeToString std_alphabet hash]"
proof -
  let ?d = "CHR ''$''"
  let ?params = "''m='' @ format_int argon2Memory @ '',t='' @ format_int argon2Iterations @ '',p='' @ format_int argon2Parallelism"
  have enc: "encode_hash salt hash = [] @ ?d # (''argon2id'' @ ?d # (''v=19'' @ ?d # (?params @ ?d #
      (EncodeToString std_alphabet salt @ ?d # EncodeToString std_alphabet hash))))"
    by (simp add: encode_hash_def)
  have nums: "?d \<notin> set (format_int i)" for i
  proof
    assume "?d \<in> set (format_int i)"
    then have "is_digit ?d \<or> ?d = CHR ''-''" by (rule format_int_chars)
    then show False by (simp add: is_digit_def)
  qed
  have "?d \<notin> set ?params" by (simp add: nums)
  then have "Split ?d (?params @ ?d # r) = ?params # Split ?d r" for r by (rule Split_Cons)
  moreover have "Split ?d ([] @ ?d # r) = [] # Split ?d r" for r by (rule Split_Cons) simp
  moreover have "Split ?d (''argon2id'' @ ?d # r) = ''argon2id'' # Split ?d r" for r by (rule Split_Cons) simp
  moreover have "Split ?d (''v=19'' @ ?d # r) = ''v=19'' # Split ?d r" for r by (rule Split_Cons) simp
  moreover have "Split ?d (EncodeToString std_alphabet s @ ?d # r) = EncodeToString std_alphabet s # Split ?d r" for s r
    by (rule Split_Cons[OF b64std_no_dollar])
  moreover have "Split ?d (EncodeToString std_alphabet s) = [EncodeToString std_alphabet s]" for s
    by (rule Split_last[OF b64std_no_dollar])
  ultimately show ?thesis unfolding enc by (simp only:)
qed

lemma decode_encode_std: "DecodeString std_alphabet (EncodeToString std_alphabet s) = Some s"
  by (rule b64std.decode_encode)

section \<open>Tokens\<close>

record AuthService =
  as_accessSecret :: string
  as_refreshSecret :: string
  as_accessTTL :: int
  as_refreshTTL :: int

definition issueToken :: "auth_lib \<Rightarrow> gotime \<Rightarrow> gotime \<Rightarrow> string \<Rightarrow> string \<Rightarrow> int \<Rightarrow> string result" where
  "issueToken A now1 now2 userID secret ttl =
     (let claims = \<lparr>jc_UserID = userID, jc_ExpiresAt = NewNumericDate A (now1 + ttl),
                    jc_IssuedAt = NewNumericDate A now2\<rparr>
      in case SignedString A claims secret of
           Inl e \<Rightarrow> Inl (wrap ''sign token: '' e) | Inr tok \<Rightarrow> Inr tok)"

definition keyfunc :: "string \<Rightarrow> jwt_method \<Rightarrow> string result" where
  "keyfunc secret m =
     (case m of
        SigningMethodHMAC alg \<Rightarrow> Inr secret
      | OtherMethod alg \<Rightarrow> Inl (Opaque (''unexpected signing method: '' @ alg)))"

definition verifyToken :: "auth_lib \<Rightarrow> gotime \<Rightarrow> string \<Rightarrow> string \<Rightarrow> TokenClaims result" where
  "verifyToken A now tokenStr secret =
     (case ParseWithClaims A now tokenStr (keyfunc secret) of
        Inl e \<Rightarrow> Inl (Wrap2 (Sentinel ErrUnauthorized) e)
      | Inr token \<Rightarrow>
          (case jt_Claims token of
             None \<Rightarrow> Inl (Sentinel ErrUnauthorized)
           | Some claims \<Rightarrow>
               if \<not> jt_Valid token then Inl (Sentinel ErrUnauthorized)
               else Inr \<lparr>tc_UserID = jc_UserID claims\<rparr>))"

text \<open>The methods read the clock twice in a row; the model gives both readings the same value.\<close>

definition IssueAccessToken :: "auth_lib \<Rightarrow> AuthService \<Rightarrow> gotime \<Rightarrow> string \<Rightarrow> string result" where
  "IssueAccessToken A a now userID = issueToken A now now userID (as_accessSecret a) (as_accessTTL a)"

definition IssueRefreshToken :: "auth_lib \<Rightarrow> AuthService \<Rightarrow> gotime \<Rightarrow> string \<Rightarrow> string result" where
  "IssueRefreshToken A a now userID = issueToken A now now userID (as_refreshSecret a) (as_refreshTTL a)"

definition VerifyAccessToken :: "auth_lib \<Rightarrow> AuthService \<Rightarrow> gotime \<Rightarrow> string \<Rightarrow> TokenClaims result" where
  "VerifyAccessToken A a now tokenStr = verifyToken A now tokenStr (as_accessSecret a)"

definition VerifyRefreshToken :: "auth_lib \<Rightarrow> AuthService \<Rightarrow> gotime \<Rightarrow> string \<Rightarrow> TokenClaims result" where
  "VerifyRefreshToken A a now tokenStr = verifyToken A now tokenStr (as_refreshSecret a)"

text \<open>
  The documented behaviour of the JWT library: parsing consults the key function with the token's
  own method and refuses the token when it refuses; a token the library signed with HS256 parses,
  under its key, to the signed claims until they expire, and is refused from then on.
\<close>

definition jwt_law :: "auth_lib \<Rightarrow> bool" where
  "jwt_law A \<longleftrightarrow>
     (\<forall>now tok kf t. ParseWithClaims A now tok kf = Inr t \<longrightarrow> (\<exists>k. kf (jt_Method t) = Inr k))
   \<and> (\<forall>claims secret tok now kf. SignedString A claims secret = Inr tok \<longrightarrow>
        kf (SigningMethodHMAC ''HS256'') = Inr secret \<longrightarrow>
        (if now < jc_ExpiresAt claims
         then ParseWithClaims A now tok kf =
                Inr \<lparr>jt_Method = SigningMethodHMAC ''HS256'', jt_Claims = Some claims, jt_Valid = True\<rparr>
         else \<exists>e. ParseWithClaims A now tok kf = Inl e))"

lemma verifyToken_error:
  "verifyToken A now tok secret = Inl e \<Longrightarrow> errors_Is e ErrUnauthorized"
  by (auto simp: verifyToken_def split: sum.splits option.splits if_splits)

lemma issued_verifies:
  assumes "jwt_law A" and "issueToken A now1 now2 userID secret ttl = Inr tok"
  shows "now < NewNumericDate A (now1 + ttl) \<Longrightarrow> verifyToken A now tok secret = Inr \<lparr>tc_UserID = userID\<rparr>"
    and "\<not> now < NewNumericDate A (now1 + ttl) \<Longrightarrow> \<exists>e. verifyToken A now tok secret = Inl e"
proof -
  let ?c = "\<lparr>jc_UserID = userID, jc_ExpiresAt = NewNumericDate A (now1 + ttl), jc_IssuedAt = NewNumericDate A now2\<rparr>"
  have "SignedString A ?c secret = Inr tok"
    using assms(2) by (simp add: issueToken_def Let_def split: sum.splits)
  moreover have "keyfunc secret (SigningMethodHMAC ''HS256'') = Inr secret" by (simp add: keyfunc_def)
  ultimately have p: "if now < jc_ExpiresAt ?c
         then ParseWithClaims A now tok (keyfunc secret) =
                Inr \<lparr>jt_Method = SigningMethodHMAC ''HS256'', jt_Claims = Some ?c, jt_Valid = True\<rparr>
         else \<exists>e. ParseWithClaims A now tok (keyfunc secret) = Inl e" for now
    using assms(1) unfolding jwt_law_def by blast
  show "now < NewNumericDate A (now1 + ttl) \<Longrightarrow> verifyToken A now tok secret = Inr \<lparr>tc_UserID = userID\<rparr>"
    using p[of now] by (simp add: verifyToken_def)
  show "\<not> now < NewNumericDate A (now1 + ttl) \<Longrightarrow> \<exists>e. verifyToken A now tok secret = Inl e"
    using p[of now] by (auto simp: verifyToken_def)
qed

end
