(* ===== verification/User_Service.thy ===== *)
theory User_Service
  imports User_Repo Auth_Service
begin

text \<open>
  \<open>internal/service/user.go\<close>: registration and login over the \<open>UserRepo\<close> interface. The locale
  \<open>user_contract\<close> states what a repository promises of the accounts it holds; it is interpreted on
  the PostgreSQL repository.
\<close>

section \<open>Recognising a duplicate\<close>

text \<open>\<open>containsAny\<close>: for each candidate, every position of the text is tried in turn.\<close>

definition contains_at :: "string \<Rightarrow> string \<Rightarrow> nat \<Rightarrow> bool" where
  "contains_at s sub i \<longleftrightarrow> take (length sub) (drop i s) = sub"

fun containsAny :: "string \<Rightarrow> string list \<Rightarrow> bool" where
  "containsAny s [] = False"
| "containsAny s (sub # subs) =
     ((length s \<ge> length sub \<and> list_ex (contains_at s sub) [0 ..< length s - length sub + 1])
      \<or> containsAny s subs)"

definition isDuplicateKeyError :: "goerror \<Rightarrow> bool" where
  "isDuplicateKeyError err =
     containsAny (error_text err) [''duplicate key'', ''unique constraint'', ''23505'']"

lemma contains_sublist:
  "length s \<ge> length sub \<and> list_ex (contains_at s sub) [0 ..< length s - length sub + 1] \<longleftrightarrow> sublist sub s"
proof
  assume "length s \<ge> length sub \<and> list_ex (contains_at s sub) [0 ..< length s - length sub + 1]"
  then obtain i where "contains_at s sub i" unfolding list_ex_iff by blast
  then have "take (length sub) (drop i s) = sub" by (simp add: contains_at_def)
  then have "s = take i s @ sub @ drop (length sub) (drop i s)" by (metis append_take_drop_id)
  then show "sublist sub s" by (metis sublist_appendI)
next
  assume "sublist sub s"
  then obtain a b where s: "s = a @ sub @ b" by (auto simp: sublist_def)
  then have "contains_at s sub (length a)" by (simp add: contains_at_def)
  moreover have "length a \<in> set [0 ..< length s - length sub + 1]" "length s \<ge> length sub" using s by auto
  ultimately show "length s \<ge> length sub \<and> list_ex (contains_at s sub) [0 ..< length s - length sub + 1]"
    unfolding list_ex_iff by blast
qed

lemma containsAny_iff: "containsAny s subs \<longleftrightarrow> (\<exists>sub \<in> set subs. sublist sub s)"
  by (induction s subs rule: containsAny.induct) (simp, simp only: containsAny.simps contains_sublist, simp)

section \<open>The service\<close>

record 's UserRepo =
  us_CreateUser :: "string \<Rightarrow> string \<Rightarrow> ('s, UserRecord) eff"
  us_GetUserByEmail :: "string \<Rightarrow> ('s, UserRecord) eff"

definition Register ::
  "auth_lib \<Rightarrow> string result \<Rightarrow> 's UserRepo \<Rightarrow> string \<Rightarrow> string \<Rightarrow> ('s, UserRecord) eff" where
  "Register A salt_read repo email password s =
     (case HashPassword A salt_read password of
        Inl e \<Rightarrow> (Inl (wrap ''hash password: '' e), s)
      | Inr hash \<Rightarrow>
          (case us_CreateUser repo email hash s of
             (Inl e, s1) \<Rightarrow>
               if isDuplicateKeyError e then (Inl (Sentinel ErrConflict), s1)
               else (Inl (wrap ''create user: '' e), s1)
           | (Inr user, s1) \<Rightarrow> (Inr user, s1)))"

definition Login :: "auth_lib \<Rightarrow> 's UserRepo \<Rightarrow> string \<Rightarrow> string \<Rightarrow> ('s, UserRecord) eff" where
  "Login A repo email password s =
     (case us_GetUserByEmail repo email s of
        (Inl e, s1) \<Rightarrow>
          if is_sentinel_value e PgxErrNoRows then (Inl (Sentinel ErrUnauthorized), s1)
          else (Inl (wrap ''get user: '' e), s1)
      | (Inr user, s1) \<Rightarrow>
          if ur_PasswordHash user = [] \<or> \<not> VerifyPassword A (ur_PasswordHash user) password
          then (Inl (Sentinel ErrUnauthorized), s1) else (Inr user, s1))"

section \<open>The contract of the repository\<close>

locale user_contract =
  fixes repo :: "'s UserRepo"
    and inv :: "'s \<Rightarrow> bool"
    and account :: "'s \<Rightarrow> string \<Rightarrow> UserRecord option"
  assumes get_reads: "inv s \<Longrightarrow> us_GetUserByEmail repo email s = (r, s') \<Longrightarrow> inv s' \<and> account s' = account s"
    and get_result: "inv s \<Longrightarrow> us_GetUserByEmail repo email s = (Inr u, s') \<Longrightarrow> account s email = Some u"
    and create_keeps: "inv s \<Longrightarrow> us_CreateUser repo email h s = (r, s') \<Longrightarrow>
      inv s' \<and> (\<forall>e u. account s e = Some u \<longrightarrow> account s' e = Some u)"
    and create_result: "inv s \<Longrightarrow> us_CreateUser repo email h s = (Inr u, s') \<Longrightarrow>
      account s email = None \<and> account s' email = Some u \<and> ur_PasswordHash u = h"
begin

lemma login_checks_password:
  assumes "inv s" and "Login A repo email password s = (Inr u, s')"
  shows "account s email = Some u \<and> VerifyPassword A (ur_PasswordHash u) password \<and> account s' = account s"
proof -
  obtain r s1 where g: "us_GetUserByEmail repo email s = (r, s1)" by (cases "us_GetUserByEmail repo email s")
  with assms(2) have "r = Inr u" "s1 = s'" "VerifyPassword A (ur_PasswordHash u) password"
    by (auto simp: Login_def split: sum.splits if_splits)
  with g get_reads[OF assms(1) g] get_result[OF assms(1)] show ?thesis by blast
qed

lemma register_creates:
  assumes "inv s" and "Register A (Inr salt) repo email password s = (Inr u, s')"
  shows "account s email = None \<and> account s' email = Some u \<and> inv s'
       \<and> ur_PasswordHash u = encode_hash salt (derive_key A password salt argon2KeyLen)"
proof -
  let ?h = "encode_hash salt (derive_key A password salt argon2KeyLen)"
  obtain r s1 where c: "us_CreateUser repo email ?h s = (r, s1)" by (cases "us_CreateUser repo email ?h s")
  with assms(2) have "r = Inr u" "s1 = s'"
    by (auto simp: Register_def HashPassword_def split: sum.splits if_splits)
  with c create_keeps[OF assms(1) c] create_result[OF assms(1)] show ?thesis by blast
qed

lemma register_keeps_accounts:
  assumes "inv s" and "Register A salt_read repo email password s = (r, s')"
  shows "inv s' \<and> (\<forall>e u. account s e = Some u \<longrightarrow> account s' e = Some u)"
proof (cases "HashPassword A salt_read password")
  case (Inl e)
  with assms show ?thesis by (auto simp: Register_def)
next
  case (Inr h)
  obtain rc s1 where c: "us_CreateUser repo email h s = (rc, s1)" by (cases "us_CreateUser repo email h s")
  with Inr assms(2) have "s1 = s'" by (auto simp: Register_def split: sum.splits if_splits)
  with create_keeps[OF assms(1) c] show ?thesis by simp
qed

text \<open>After a registration only the registered password opens the account, up to Argon2 collisions.\<close>

lemma login_after_register:
  assumes "inv s" and "argon2_law A" and "Register A (Inr salt) repo email p s = (Inr u, s')"
    and "Login A repo email q s' = (Inr u', s'')"
  shows "u' = u \<and> derive_key A q salt argon2KeyLen = derive_key A p salt argon2KeyLen"
proof -
  let ?h = "derive_key A p salt argon2KeyLen"
  have u: "account s' email = Some u" "inv s'" "ur_PasswordHash u = encode_hash salt ?h"
    using register_creates[OF assms(1,3)] by simp_all
  from login_checks_password[OF u(2) assms(4)] u(1) have u': "u' = u" "VerifyPassword A (encode_hash salt ?h) q"
    using u(3) by auto
  have "length ?h = 32" by (simp add: length_derive_key[OF assms(2)] argon2KeyLen_def)
  with VerifyPassword_iff[OF assms(2) Split_encode_hash decode_encode_std decode_encode_std] u' show ?thesis
    by (simp add: argon2KeyLen_def)
qed

end

section \<open>The PostgreSQL repository keeps the contract\<close>

definition postgres_UserRepo :: "pg_lib \<Rightarrow> int \<Rightarrow> string \<Rightarrow> pg UserRepo" where
  "postgres_UserRepo L now gen =
     \<lparr>us_CreateUser = CreateUser L now gen, us_GetUserByEmail = GetUserByEmail L\<rparr>"

definition pg_account :: "pg_lib \<Rightarrow> pg \<Rightarrow> string \<Rightarrow> UserRecord option" where
  "pg_account L s email = map_option user_record (user_of_email L (tbl s) email)"

text \<open>The identifiers the server generates are canonical.\<close>

definition users_ok :: "pg_lib \<Rightarrow> string \<Rightarrow> pg \<Rightarrow> bool" where
  "users_ok L gen s \<longleftrightarrow> tables_ok L (tbl s) \<and> parse_uuid L gen = Some gen"

lemma postgres_create:
  assumes "users_ok L gen s" and "us_CreateUser (postgres_UserRepo L now gen) email h s = (r, s')"
  shows "users_ok L gen s' \<and> (\<forall>e u. pg_account L s e = Some u \<longrightarrow> pg_account L s' e = Some u)
      \<and> (\<forall>u. r = Inr u \<longrightarrow> pg_account L s email = None \<and> pg_account L s' email = Some u \<and> ur_PasswordHash u = h)"
  using assms(2)[unfolded postgres_UserRepo_def, simplified]
proof (cases rule: CreateUser_cases)
  case (unchanged e)
    with assms(1) show ?thesis by (simp add: users_ok_def pg_account_def)
next
  case (created u)
  then have u: "u_email u = email" "u_id u = gen" "ur_PasswordHash (user_record u) = h"
    by (simp_all add: user_record_def derefStr_def)
  have none: "user_of_email L (tbl s) (u_email u) = None" using created(3) u by simp
  have "users_ok L gen s'" using created assms(1) u none by (simp add: users_ok_def tables_ok_add_user)
  moreover have "pg_account L s' e = Some z" if "pg_account L s e = Some z" for e z
    using that user_of_email_keeps[OF none, of e] created(4) by (auto simp: pg_account_def)
  moreover have "pg_account L s email = None" "pg_account L s' email = Some (user_record u)"
    using created(3,4) u user_of_email_add_user[OF none, of email] by (simp_all add: pg_account_def)
  ultimately show ?thesis using created(5) u by auto
qed

interpretation pguser: user_contract "postgres_UserRepo L now gen" "users_ok L gen" "pg_account L" for L now gen
proof unfold_locales
  fix s email r s'
  assume a: "users_ok L gen s" "us_GetUserByEmail (postgres_UserRepo L now gen) email s = (r, s')"
  then have "tbl s' = tbl s" by (auto simp: postgres_UserRepo_def dest: GetUserByEmail_tbl)
  with a(1) show "users_ok L gen s' \<and> pg_account L s' = pg_account L s"
    by (simp add: users_ok_def pg_account_def fun_eq_iff)
next
  fix s email u s'
  assume "users_ok L gen s" "us_GetUserByEmail (postgres_UserRepo L now gen) email s = (Inr u, s')"
  then show "pg_account L s email = Some u"
    using GetUserByEmail_ok[of L email s u s'] by (auto simp: postgres_UserRepo_def users_ok_def pg_account_def)
next
  fix s email h r s'
  assume ok: "users_ok L gen s" and c: "us_CreateUser (postgres_UserRepo L now gen) email h s = (r, s')"
  show "users_ok L gen s' \<and> (\<forall>e u. pg_account L s e = Some u \<longrightarrow> pg_account L s' e = Some u)"
    using postgres_create[OF ok c] by blast
next
  fix s email h u s'
  assume ok: "users_ok L gen s" and c: "us_CreateUser (postgres_UserRepo L now gen) email h s = (Inr u, s')"
  show "pg_account L s email = None \<and> pg_account L s' email = Some u \<and> ur_PasswordHash u = h"
    using postgres_create[OF ok c] by blast
qed

lemma Register_keeps_invariant [invariant_intros]:
  assumes "vote_invariant L (tbl s)" and "parse_uuid L gen = Some gen"
    and "Register A salt_read (postgres_UserRepo L now gen) email password s = (r, s')"
  shows "vote_invariant L (tbl s')" and "votes (tbl s') = votes (tbl s)"
    and "feature_requests (tbl s') = feature_requests (tbl s)"
proof -
  have "vote_invariant L (tbl s') \<and> votes (tbl s') = votes (tbl s) \<and> feature_requests (tbl s') = feature_requests (tbl s)"
  proof (cases "HashPassword A salt_read password")
    case (Inl e)
    with assms show ?thesis by (auto simp: Register_def)
  next
    case (Inr h)
    obtain rc s1 where c: "CreateUser L now gen email h s = (rc, s1)" by (cases "CreateUser L now gen email h s")
    then have "s1 = s'"
      using assms(3) Inr by (auto simp: Register_def postgres_UserRepo_def split: sum.splits if_splits)
    from c show ?thesis
    proof (cases rule: CreateUser_cases)
      case (unchanged e)
      with assms(1) \<open>s1 = s'\<close> show ?thesis by simp
    next
      case (created u)
      with assms(1,2) \<open>s1 = s'\<close> vote_invariant_add_user[of L "tbl s" u] show ?thesis by simp
    qed
  qed
  then show "vote_invariant L (tbl s')" "votes (tbl s') = votes (tbl s)"
    "feature_requests (tbl s') = feature_requests (tbl s)" by blast+
qed

lemma Login_tables:
  assumes "Login A (postgres_UserRepo L now gen) email password s = (r, s')"
  shows "tbl s' = tbl s"
proof -
  obtain g s1 where g: "GetUserByEmail L email s = (g, s1)" by (cases "GetUserByEmail L email s")
  with assms have "s' = s1" by (auto simp: Login_def postgres_UserRepo_def split: sum.splits if_splits)
  with GetUserByEmail_tbl[OF g] show ?thesis by simp
qed

end
