(* ===== verification/User_Properties.thy ===== *)
theory User_Properties
  imports User_Service Demo
begin

text \<open>
  The correctness of accounts and credentials: password checking, registration, login and tokens.
  The witnesses use a toy Argon2 that keeps the password and a toy JWT whose tokens spell out
  the user and the expiry.
\<close>

section \<open>Instances for the witnesses\<close>

definition demo_token :: "jwtClaims \<Rightarrow> string \<Rightarrow> string" where
  "demo_token c secret = format_int (jc_ExpiresAt c) @ ''.'' @ secret @ ''.'' @ jc_UserID c"

definition demo_parse :: "gotime \<Rightarrow> string \<Rightarrow> (jwt_method \<Rightarrow> string result) \<Rightarrow> jwtToken result" where
  "demo_parse now tok kf =
     (case kf (SigningMethodHMAC ''HS256'') of
        Inl e \<Rightarrow> Inl e
      | Inr key \<Rightarrow>
          (case SplitN (CHR ''.'') 2 tok of
             [e, rest] \<Rightarrow>
               (case parse_int 64 e of
                  None \<Rightarrow> Inl (Opaque ''token is malformed'')
                | Some ex \<Rightarrow>
                    if take (length key + 1) rest = key @ ''.'' \<and> now < ex
                    then Inr \<lparr>jt_Method = SigningMethodHMAC ''HS256'',
                               jt_Claims = Some \<lparr>jc_UserID = drop (length key + 1) rest, jc_ExpiresAt = ex, jc_IssuedAt = 0\<rparr>,
                               jt_Valid = True\<rparr>
                    else Inl (Opaque ''token is invalid'')) | _ \<Rightarrow> Inl (Opaque ''token is malformed'')))"

definition demo_auth :: auth_lib where
  "demo_auth = \<lparr>IDKey = (\<lambda>p s t m k n. take n (p @ replicate n (CHR ''0''))),
     NewNumericDate = (\<lambda>t. t),
     SignedString = (\<lambda>c secret. if jc_IssuedAt c = 0 \<and> int64_range (jc_ExpiresAt c)
        then Inr (demo_token c secret) else Inl (Opaque ''cannot sign'')),
     ParseWithClaims = demo_parse\<rparr>"

lemma demo_argon2_law: "argon2_law demo_auth"
  by (auto simp: argon2_law_def demo_auth_def min_def)

lemma demo_split: "SplitN (CHR ''.'') 2 (demo_token c secret) = [format_int (jc_ExpiresAt c), secret @ ''.'' @ jc_UserID c]"
proof -
  have "CHR ''.'' \<notin> set (format_int i)" for i
  proof
    assume "CHR ''.'' \<in> set (format_int i)"
    then have "is_digit (CHR ''.'') \<or> CHR ''.'' = CHR ''-''" by (rule format_int_chars)
    then show False by (simp add: is_digit_def)
  qed
  then have "cut_at (CHR ''.'') (demo_token c secret) = Some (format_int (jc_ExpiresAt c), secret @ ''.'' @ jc_UserID c)"
    unfolding demo_token_def append_Cons append_Nil by (rule cut_at_append)
  then show ?thesis by (simp add: numeral_2_eq_2)
qed

lemma demo_jwt_law: "jwt_law demo_auth"
proof -
  have "if now < jc_ExpiresAt c
      then demo_parse now (demo_token c secret) kf =
             Inr \<lparr>jt_Method = SigningMethodHMAC ''HS256'', jt_Claims = Some c, jt_Valid = True\<rparr>
      else \<exists>e. demo_parse now (demo_token c secret) kf = Inl e"
    if "jc_IssuedAt c = 0" "int64_range (jc_ExpiresAt c)" "kf (SigningMethodHMAC ''HS256'') = Inr secret"
    for now c secret kf
    using that
    by (cases c) (simp add: demo_parse_def demo_split parse_int_format signed_range_64)
  moreover have "\<exists>k. kf (jt_Method t) = Inr k" if "demo_parse now tok kf = Inr t" for now tok kf t
    using that by (auto simp: demo_parse_def split: sum.splits list.splits option.splits if_splits)
  ultimately show ?thesis
    unfolding jwt_law_def demo_auth_def auth_lib.simps by (auto split: if_split_asm)
qed

section \<open>Passwords\<close>

lemma verify_own_hash:
  assumes "argon2_law A"
  shows "VerifyPassword A (encode_hash salt (derive_key A p salt argon2KeyLen)) q
     \<longleftrightarrow> derive_key A q salt argon2KeyLen = derive_key A p salt argon2KeyLen"
  using VerifyPassword_iff[where salt = salt and hash = "derive_key A p salt argon2KeyLen" and password = q,
      OF assms Split_encode_hash decode_encode_std decode_encode_std] length_derive_key[OF assms]
  by (simp add: argon2KeyLen_def)

text \<open>
  The comparison loop, which looks at every byte and never leaves early, decides equality of
  two texts of one length.
\<close>

theorem constant_time_comparison_exact:
  assumes "length hash = length expectedHash"
  shows "diff_loop 0 hash expectedHash = 0 \<longleftrightarrow> hash = expectedHash"
  using diff_loop_zero[OF assms, of 0] by simp

theorem constant_time_comparison_exact_witness:
  "diff_loop 0 ''secret'' ''secres'' \<noteq> 0 \<and> diff_loop 0 ''secret'' ''secret'' = 0"
  using constant_time_comparison_exact[of "''secret''" "''secres''"]
    constant_time_comparison_exact[of "''secret''" "''secret''"] by simp

text \<open>
  A stored hash accepts a password exactly when Argon2 derives the same key from it and the
  stored salt as from the password that was hashed; in particular it accepts that password.
\<close>

theorem password_check_exact:
  assumes "argon2_law A" and "HashPassword A (Inr salt) p = Inr encoded"
  shows "(VerifyPassword A encoded q \<longleftrightarrow> derive_key A q salt 32 = derive_key A p salt 32)
       \<and> VerifyPassword A encoded p \<and> encoded \<noteq> []"
  using assms verify_own_hash[OF assms(1)]
  by (auto simp: HashPassword_def argon2KeyLen_def encode_hash_def)

theorem password_check_exact_witness:
  "\<exists>encoded. HashPassword demo_auth (Inr ''0123456789abcdef'') ''hunter2'' = Inr encoded
     \<and> VerifyPassword demo_auth encoded ''hunter2'' \<and> \<not> VerifyPassword demo_auth encoded ''hunter3''"
proof -
  obtain encoded where e: "HashPassword demo_auth (Inr ''0123456789abcdef'') ''hunter2'' = Inr encoded"
    by (simp add: HashPassword_def)
  have "derive_key demo_auth ''hunter3'' ''0123456789abcdef'' 32 \<noteq> derive_key demo_auth ''hunter2'' ''0123456789abcdef'' 32"
    by (simp add: derive_key_def demo_auth_def)
  with password_check_exact[OF demo_argon2_law e] e show ?thesis by blast
qed

section \<open>Registration and login\<close>

lemma duplicate_email_recognised: "isDuplicateKeyError (wrap ''create user: '' duplicate_email)"
proof -
  have "error_text (wrap ''create user: '' duplicate_email) =
      ''create user: ERROR: '' @ ''duplicate key'' @ '' value violates unique constraint \"users_email_key\" (SQLSTATE 23505)''"
    by (simp add: duplicate_email_def)
  then have "sublist ''duplicate key'' (error_text (wrap ''create user: '' duplicate_email))"
    by (metis sublist_appendI)
  then show ?thesis by (simp add: isDuplicateKeyError_def containsAny_iff)
qed

lemma register_new:
  assumes "faults s = []" and "gen \<notin> u_id ` set (users (tbl s))"
    and "HashPassword A (Inr salt) password = Inr hash" and "user_of_email L (tbl s) email = None"
  shows "Register A (Inr salt) (postgres_UserRepo L now gen) email password s =
     (Inr \<lparr>ur_ID = gen, ur_Email = email, ur_PasswordHash = hash\<rparr>,
      s\<lparr>tbl := add_user \<lparr>u_id = gen, u_email = email, u_password_hash = Some hash, u_created_at = now\<rparr> (tbl s)\<rparr>)"
  using assms CreateUser_no_faults[OF assms(1,2), of L now email hash]
  by (simp add: Register_def postgres_UserRepo_def Let_def user_record_def derefStr_def)

lemma login_no_faults:
  assumes "faults s = []" and "tables_ok L (tbl s)"
  shows "Login A (postgres_UserRepo L now gen) email password s =
     (case user_of_email L (tbl s) email of
        None \<Rightarrow> (Inl (wrap ''get user: '' (wrap ''get user by email: '' (Sentinel PgxErrNoRows))), s)
      | Some u \<Rightarrow> if ur_PasswordHash (user_record u) \<noteq> [] \<and> VerifyPassword A (ur_PasswordHash (user_record u)) password
                  then (Inr (user_record u), s) else (Inl (Sentinel ErrUnauthorized), s))"
  using GetUserByEmail_no_faults[OF assms, of email]
  by (auto simp: Login_def postgres_UserRepo_def split: option.split)

text \<open>
  C14: Without faults, registering an e-mail address that is taken (up to letter case) reports the
  conflict and changes nothing; any other address gets exactly one new account, with the
  generated id, the address as given and a hash of the password.
\<close>

theorem register_exact:
  assumes "faults s = []" and "gen \<notin> u_id ` set (users (tbl s))"
    and "HashPassword A (Inr salt) password = Inr hash"
  shows "Register A (Inr salt) (postgres_UserRepo L now gen) email password s =
     (if citext_fold L email \<in> (\<lambda>u. citext_fold L (u_email u)) ` set (users (tbl s))
      then (Inl (Sentinel ErrConflict), s)
      else (Inr \<lparr>ur_ID = gen, ur_Email = email, ur_PasswordHash = hash\<rparr>,
            s\<lparr>tbl := (tbl s)\<lparr>users := users (tbl s) @
              [\<lparr>u_id = gen, u_email = email, u_password_hash = Some hash, u_created_at = now\<rparr>]\<rparr>\<rparr>))"
proof (cases "user_of_email L (tbl s) email")
  case None
  then have "citext_fold L email \<notin> (\<lambda>u. citext_fold L (u_email u)) ` set (users (tbl s))"
    by (simp add: user_of_email_None)
  with register_new[OF assms None] show ?thesis by (simp add: add_user_def)
next
  case (Some u)
  then have "citext_fold L email \<in> (\<lambda>u. citext_fold L (u_email u)) ` set (users (tbl s))"
    by (metis option.distinct(1) user_of_email_None)
  with Some assms CreateUser_no_faults[OF assms(1,2), of L now email hash] show ?thesis
    by (simp add: Register_def postgres_UserRepo_def duplicate_email_recognised)
qed

theorem register_exact_witness:
  "fst (Register demo_auth (Inr ''0123456789abcdef'') (postgres_UserRepo demo_lib 9 ''carol'') ''ALICE@example.com'' ''pw'' demo_pg)
     = Inl (Sentinel ErrConflict)"
proof -
  obtain h where h: "HashPassword demo_auth (Inr ''0123456789abcdef'') ''pw'' = Inr h"
    by (simp add: HashPassword_def)
  have "map ascii_lower ''ALICE@example.com'' = map ascii_lower ''alice@example.com''" by code_simp
  then have "citext_fold demo_lib ''ALICE@example.com'' \<in> (\<lambda>u. citext_fold demo_lib (u_email u)) ` set (users demo_tables)"
    by (simp add: demo_lib_def demo_tables_def)
  with register_exact[of demo_pg "''carol''", OF _ _ h] show ?thesis
    by (simp add: demo_rows)
qed

text \<open>
  Whatever fails, a registration keeps the schema's constraints, the exact counters, the
  self-vote rule and every account that existed, unchanged; it reports success only for an address
  that was free and now has the account it returns.
\<close>

theorem register_preserves_accounts:
  assumes "vote_invariant L (tbl s)" and "parse_uuid L gen = Some gen"
    and "Register A salt_read (postgres_UserRepo L now gen) email password s = (r, s')"
  shows "vote_invariant L (tbl s')
     \<and> (\<forall>e u. pg_account L s e = Some u \<longrightarrow> pg_account L s' e = Some u)
     \<and> (\<forall>u. r = Inr u \<longrightarrow> pg_account L s email = None \<and> pg_account L s' email = Some u)
     \<and> votes (tbl s') = votes (tbl s) \<and> feature_requests (tbl s') = feature_requests (tbl s)"
proof -
  have ok: "users_ok L gen s" using assms(1,2) by (simp add: users_ok_def vote_invariant_def)
  have new: "pg_account L s email = None \<and> pg_account L s' email = Some u" if "r = Inr u" for u
  proof (cases salt_read)
    case (Inl e)
    with that assms(3) show ?thesis by (simp add: Register_def HashPassword_def)
  next
    case (Inr salt)
    with that assms(3) pguser.register_creates[OF ok, of A salt now email password u s'] show ?thesis by simp
  qed
  with pguser.register_keeps_accounts[OF ok assms(3)] Register_keeps_invariant[OF assms] show ?thesis by blast
qed

theorem register_preserves_accounts_witness:
  "vote_invariant demo_lib (tbl (snd (Register demo_auth (Inr ''0123456789abcdef'') (postgres_UserRepo demo_lib 9 ''carol'')
     ''carol@example.com'' ''pw'' (demo_pg\<lparr>faults := [FailAfter (Opaque ''reset'')]\<rparr>))))"
proof -
  let ?s = "demo_pg\<lparr>faults := [FailAfter (Opaque ''reset'')]\<rparr>"
  obtain r s' where r: "Register demo_auth (Inr ''0123456789abcdef'') (postgres_UserRepo demo_lib 9 ''carol'')
     ''carol@example.com'' ''pw'' ?s = (r, s')" by fastforce
  from register_preserves_accounts[OF _ _ r] show ?thesis by (simp add: r demo_vote_invariant)
qed

text \<open>
  C15: After a successful registration, whatever faults occur, a login to that address succeeds only
  with a password from which Argon2 derives the registered key, and returns the registered account.
\<close>

theorem login_needs_registered_password:
  assumes "tables_ok L (tbl s)" and "parse_uuid L gen = Some gen" and "argon2_law A"
    and "Register A (Inr salt) (postgres_UserRepo L now gen) email p s = (Inr u, s')"
    and "Login A (postgres_UserRepo L now gen) email q s' = (Inr u', s'')"
  shows "u' = u \<and> derive_key A q salt 32 = derive_key A p salt 32"
  using pguser.login_after_register[OF _ assms(3,4,5)] assms(1,2) by (simp add: users_ok_def argon2KeyLen_def)

theorem login_needs_registered_password_witness:
  "\<exists>u u' s' s''. Register demo_auth (Inr ''0123456789abcdef'') (postgres_UserRepo demo_lib 9 ''carol'') ''carol@example.com'' ''pw'' demo_pg = (Inr u, s')
     \<and> Login demo_auth (postgres_UserRepo demo_lib 9 ''carol'') ''carol@example.com'' ''pw'' s' = (Inr u', s'') \<and> u' = u"
proof -
  let ?salt = "''0123456789abcdef''"
  let ?h = "encode_hash ?salt (derive_key demo_auth ''pw'' ?salt argon2KeyLen)"
  let ?row = "\<lparr>u_id = ''carol'', u_email = ''carol@example.com'', u_password_hash = Some ?h, u_created_at = 9\<rparr>"
  let ?s' = "demo_pg\<lparr>tbl := add_user ?row demo_tables\<rparr>"
  have none: "user_of_email demo_lib demo_tables ''carol@example.com'' = None"
    by (simp add: user_of_email_def demo_tables_def demo_lib_def ascii_lower_def)
  have fresh: "''carol'' \<notin> u_id ` set (users demo_tables)" by (simp add: demo_rows)
  have reg: "Register demo_auth (Inr ?salt) (postgres_UserRepo demo_lib 9 ''carol'') ''carol@example.com'' ''pw'' demo_pg
      = (Inr (user_record ?row), ?s')"
    using register_new[of demo_pg "''carol''" demo_auth ?salt "''pw''" ?h demo_lib "''carol@example.com''" 9] none fresh
    by (simp add: HashPassword_def user_record_def derefStr_def)
  have ok: "tables_ok demo_lib (add_user ?row demo_tables)"
    using tables_ok_add_user[OF demo_tables_ok, of ?row] none fresh by simp
  have "user_of_email demo_lib (add_user ?row demo_tables) ''carol@example.com'' = Some ?row"
    using user_of_email_add_user[of demo_lib demo_tables ?row "''carol@example.com''"] none by simp
  moreover have "VerifyPassword demo_auth ?h ''pw''" by (simp add: verify_own_hash[OF demo_argon2_law])
  moreover have "?h \<noteq> []" by (simp add: encode_hash_def)
  ultimately have login: "Login demo_auth (postgres_UserRepo demo_lib 9 ''carol'') ''carol@example.com'' ''pw'' ?s' = (Inr (user_record ?row), ?s')"
    using login_no_faults[of ?s' demo_lib demo_auth 9 "''carol''" "''carol@example.com''" "''pw''"] ok
    by (simp add: user_record_def derefStr_def demo_pg_def)
  have "tables_ok demo_lib (tbl demo_pg)" "parse_uuid demo_lib ''carol'' = Some ''carol''"
    by (simp_all add: demo_tables_ok)
  from login_needs_registered_password[OF this demo_argon2_law reg login] reg login show ?thesis by blast
qed

text \<open>
  C35: Without faults, login returns the account exactly when the address has one with a password hash
  that accepts the password; a wrong password is reported as unauthorized. The address without an
  account is not: the code compares the wrapped error with \<open>==\<close>, so the caller gets an internal
  error.
\<close>

theorem login_exact:
  assumes "faults s = []" and "tables_ok L (tbl s)"
  shows "Login A (postgres_UserRepo L now gen) email password s =
     (case pg_account L s email of
        None \<Rightarrow> (Inl (wrap ''get user: '' (wrap ''get user by email: '' (Sentinel PgxErrNoRows))), s)
      | Some u \<Rightarrow> if ur_PasswordHash u \<noteq> [] \<and> VerifyPassword A (ur_PasswordHash u) password
                  then (Inr u, s) else (Inl (Sentinel ErrUnauthorized), s))"
  using login_no_faults[OF assms] by (auto simp: pg_account_def split: option.split)

theorem login_exact_witness:
  "fst (Login demo_auth (postgres_UserRepo demo_lib 9 ''x'') ''nobody@example.com'' ''pw'' demo_pg)
     = Inl (wrap ''get user: '' (wrap ''get user by email: '' (Sentinel PgxErrNoRows)))
   \<and> fst (Login demo_auth (postgres_UserRepo demo_lib 9 ''x'') ''alice@example.com'' ''pw'' demo_pg)
     = Inl (Sentinel ErrUnauthorized)"
proof -
  have "pg_account demo_lib demo_pg ''nobody@example.com'' = None"
    "\<exists>u. pg_account demo_lib demo_pg ''alice@example.com'' = Some u \<and> ur_PasswordHash u = []"
    by (simp_all add: pg_account_def user_of_email_def demo_tables_def demo_lib_def ascii_lower_def
        user_record_def derefStr_def demo_pg_def)
  with login_exact[of demo_pg demo_lib demo_auth 9 "''x''"] show ?thesis
    by (auto simp: demo_tables_ok)
qed

section \<open>Tokens\<close>

text \<open>
  C16: A token the service issues verifies under the same secret to the user it was issued for,
  until its expiry and not from then on, when it is refused as unauthorized.
\<close>

theorem token_roundtrip:
  assumes "jwt_law A" and "issueToken A now1 now2 userID secret ttl = Inr tok"
  shows "if now < NewNumericDate A (now1 + ttl)
         then verifyToken A now tok secret = Inr \<lparr>tc_UserID = userID\<rparr>
         else \<exists>e. verifyToken A now tok secret = Inl e \<and> errors_Is e ErrUnauthorized"
  using issued_verifies[OF assms, of now] verifyToken_error[of A now tok secret] by auto

theorem token_roundtrip_witness:
  "\<exists>tok. issueToken demo_auth 100 0 ''bob'' ''k'' 50 = Inr tok
     \<and> verifyToken demo_auth 149 tok ''k'' = Inr \<lparr>tc_UserID = ''bob''\<rparr>
     \<and> (\<exists>e. verifyToken demo_auth 150 tok ''k'' = Inl e)"
proof -
  obtain tok where t: "issueToken demo_auth 100 0 ''bob'' ''k'' 50 = Inr tok"
    by (simp add: issueToken_def demo_auth_def int64_range_def)
  have d: "NewNumericDate demo_auth t = t" for t by (simp add: demo_auth_def)
  from token_roundtrip[OF demo_jwt_law t, of 149] token_roundtrip[OF demo_jwt_law t, of 150] t
  show ?thesis by (auto simp: d)
qed

text \<open>
  C17: A token is accepted only when its own header names an HMAC method, so neither an unsigned nor
  a public-key token passes, and every refusal is recognisable as unauthorized.
\<close>

theorem only_hmac_tokens_accepted:
  assumes "jwt_law A"
  shows "case verifyToken A now tok secret of
      Inl e \<Rightarrow> errors_Is e ErrUnauthorized
    | Inr claims \<Rightarrow> (\<exists>t alg c. ParseWithClaims A now tok (keyfunc secret) = Inr t
          \<and> jt_Method t = SigningMethodHMAC alg \<and> jt_Valid t \<and> jt_Claims t = Some c \<and> tc_UserID claims = jc_UserID c)"
proof (cases "verifyToken A now tok secret")
  case (Inl e)
  then show ?thesis by (simp add: verifyToken_error)
next
  case (Inr claims)
  then obtain t c where t: "ParseWithClaims A now tok (keyfunc secret) = Inr t" "jt_Claims t = Some c" "jt_Valid t"
    "claims = \<lparr>tc_UserID = jc_UserID c\<rparr>"
    by (auto simp: verifyToken_def split: sum.splits option.splits if_splits)
  then obtain k where "keyfunc secret (jt_Method t) = Inr k" using assms unfolding jwt_law_def by blast
  then obtain alg where "jt_Method t = SigningMethodHMAC alg" by (cases "jt_Method t") (auto simp: keyfunc_def)
  with t Inr show ?thesis by simp
qed

theorem only_hmac_tokens_accepted_witness:
  "\<exists>e. verifyToken demo_auth 9 ''garbage'' ''k'' = Inl e \<and> errors_Is e ErrUnauthorized"
proof -
  have "\<exists>e. verifyToken demo_auth 9 ''garbage'' ''k'' = Inl e"
    by (simp add: verifyToken_def demo_auth_def demo_parse_def keyfunc_def numeral_2_eq_2)
  with only_hmac_tokens_accepted[OF demo_jwt_law, of 9 "''garbage''" "''k''"] show ?thesis by auto
qed

end
