(* ===== verification/Logger.thy ===== *)
theory Logger
  imports Go_Prelude
begin

text \<open>
  \<open>internal/observability/logging.go\<close>: the logger the process is started with. \<open>log/slog\<close> orders its
  levels by a number; a handler writes the records from its own level on. The JSON text of a record
  is left out: a line is its level, message and attributes.
\<close>

datatype level = LevelDebug | LevelInfo | LevelWarn | LevelError

fun severity :: "level \<Rightarrow> int" where
  "severity LevelDebug = - 4"
| "severity LevelInfo = 0"
| "severity LevelWarn = 4"
| "severity LevelError = 8"

lemma severity_inj: "severity a = severity b \<Longrightarrow> a = b"
  by (cases a; cases b) simp_all

instantiation level :: linorder
begin

definition less_eq_level :: "level \<Rightarrow> level \<Rightarrow> bool" where
  "a \<le> b \<longleftrightarrow> severity a \<le> severity b"

definition less_level :: "level \<Rightarrow> level \<Rightarrow> bool" where
  "a < b \<longleftrightarrow> severity a < severity b"

instance
  by standard (auto simp: less_eq_level_def less_level_def dest: severity_inj)

end

record line =
  ln_level :: level
  ln_msg :: string
  ln_attrs :: "(string \<times> string) list"

record logger =
  lg_level :: level

definition NewLogger :: logger where
  "NewLogger = \<lparr>lg_level = LevelInfo\<rparr>"

definition log_write :: "logger \<Rightarrow> level \<Rightarrow> string \<Rightarrow> (string \<times> string) list \<Rightarrow> line list \<Rightarrow> line list" where
  "log_write lg lv msg attrs ls =
     (if lg_level lg \<le> lv then ls @ [\<lparr>ln_level = lv, ln_msg = msg, ln_attrs = attrs\<rparr>] else ls)"

text \<open>Everything the program logs passes: it uses no level below Info.\<close>

lemma log_write_passes:
  "log_write NewLogger lv msg attrs ls =
     (if lv = LevelDebug then ls else ls @ [\<lparr>ln_level = lv, ln_msg = msg, ln_attrs = attrs\<rparr>])"
  by (cases lv) (simp_all add: log_write_def NewLogger_def less_eq_level_def)

end
