(* ===== verification/Http.thy ===== *)
theory Http
  imports Domain Logger
begin

text \<open>
  What the handlers use of \<open>net/http\<close> and \<open>encoding/json\<close>. A response writer keeps a header map,
  the status line once it is sent (with the headers as they were at that moment) and the body. A
  handler takes a request, a writer and the state behind it, and returns or panics. JSON is handled
  as trees; the texts of JSON documents (lexing, escaping, Unicode folding of key names, the layout
  of times) are the parameter record \<open>json_lib\<close>.
\<close>

section \<open>JSON\<close>

datatype json =
    JNull
  | JBool bool
  | JNum int
  | JStr string
  | JArr "json list"
  | JObj "(string \<times> json) list"

record json_lib =
  js_parse :: "string \<Rightarrow> json option"
  js_print :: "json \<Rightarrow> string"
  js_fold :: "string \<Rightarrow> string"
  js_time :: "gotime \<Rightarrow> string"

text \<open>
  Decoding into a struct of string fields: a key selects the field of that name, up to folding; a
  string sets it (the last one wins), null leaves it, any other value is an error that is reported
  after the whole object was read. Unknown keys are skipped, and a null document is accepted.
\<close>

fun decode_members :: "json_lib \<Rightarrow> string list \<Rightarrow> (string \<times> json) list \<Rightarrow> (string \<Rightarrow> string) \<Rightarrow> bool \<Rightarrow> (string \<Rightarrow> string) option" where
  "decode_members J names [] env ok = (if ok then Some env else None)"
| "decode_members J names ((k, v) # kvs) env ok =
     (case find (\<lambda>f. f = k \<or> js_fold J f = js_fold J k) names of
        None \<Rightarrow> decode_members J names kvs env ok
      | Some f \<Rightarrow>
          (case v of
             JStr s \<Rightarrow> decode_members J names kvs (env(f := s)) ok
           | JNull \<Rightarrow> decode_members J names kvs env ok
           | _ \<Rightarrow> decode_members J names kvs env False))"

definition Decode :: "json_lib \<Rightarrow> string list \<Rightarrow> string \<Rightarrow> (string \<Rightarrow> string) option" where
  "Decode J names body =
     (case js_parse J body of
        None \<Rightarrow> None
      | Some (JObj kvs) \<Rightarrow> decode_members J names kvs (\<lambda>_. []) True
      | Some JNull \<Rightarrow> Some (\<lambda>_. [])
      | Some _ \<Rightarrow> None)"

section \<open>Requests and responses\<close>

record request =
  hr_Method :: string
  hr_Path :: string
  hr_Header :: "string \<Rightarrow> string"
  hr_Query :: "string \<Rightarrow> string"
  hr_URLParam :: "string \<Rightarrow> string"
  hr_RemoteAddr :: string
  hr_Body :: string
  hr_UserID :: "string option"

type_synonym header = "string \<Rightarrow> string option"

record response =
  w_header :: header
  w_sent :: "(int \<times> header) option"
  w_calls :: "int list"
  w_body :: string
  w_log :: "line list"

definition fresh_response :: response where
  "fresh_response = \<lparr>w_header = Map.empty, w_sent = None, w_calls = [], w_body = [], w_log = []\<rparr>"

definition Header_Set :: "string \<Rightarrow> string \<Rightarrow> response \<Rightarrow> response" where
  "Header_Set k v w = w\<lparr>w_header := (w_header w)(k \<mapsto> v)\<rparr>"

text \<open>
  Only the first status line counts; writing a body without one sends 200. \<open>w_calls\<close> is a record of
  the explicit \<open>WriteHeader\<close> calls, for the middleware that wraps the writer.
\<close>

definition send_status :: "int \<Rightarrow> response \<Rightarrow> response" where
  "send_status code w = (case w_sent w of None \<Rightarrow> w\<lparr>w_sent := Some (code, w_header w)\<rparr> | Some _ \<Rightarrow> w)"

definition WriteHeader :: "int \<Rightarrow> response \<Rightarrow> response" where
  "WriteHeader code w = send_status code (w\<lparr>w_calls := w_calls w @ [code]\<rparr>)"

definition Write :: "string \<Rightarrow> response \<Rightarrow> response" where
  "Write text w = (let w1 = send_status 200 w in w1\<lparr>w_body := w_body w1 @ text\<rparr>)"

text \<open>\<open>http.Error\<close>.\<close>

definition http_Error :: "string \<Rightarrow> int \<Rightarrow> response \<Rightarrow> response" where
  "http_Error text code w =
     Write (text @ [char_of (10::nat)])
       (WriteHeader code
         (Header_Set ''X-Content-Type-Options'' ''nosniff''
           (Header_Set ''Content-Type'' ''text/plain; charset=utf-8''
             (w\<lparr>w_header := (w_header w)(''Content-Length'' := None)\<rparr>))))"

text \<open>
  \<open>log.Error\<close>: a handler has the logger beside the writer, and \<open>w_log\<close> lists the error lines written
  while the request is handled.
\<close>

definition log_Error :: "string \<Rightarrow> (string \<times> string) list \<Rightarrow> response \<Rightarrow> response" where
  "log_Error msg attrs w = w\<lparr>w_log := log_write NewLogger LevelError msg attrs (w_log w)\<rparr>"

abbreviation log_error :: "string \<Rightarrow> goerror \<Rightarrow> response \<Rightarrow> response" where
  "log_error msg e \<equiv> log_Error msg [(''error'', error_text e)]"

lemma log_Error_frame [simp]:
  "w_header (log_Error msg attrs w) = w_header w" "w_sent (log_Error msg attrs w) = w_sent w"
  "w_calls (log_Error msg attrs w) = w_calls w" "w_body (log_Error msg attrs w) = w_body w"
  "w_log (log_Error msg attrs w) = w_log w @ [\<lparr>ln_level = LevelError, ln_msg = msg, ln_attrs = attrs\<rparr>]"
  by (simp_all add: log_Error_def log_write_passes)

datatype control = Returned | Panicked

type_synonym 's handler = "request \<Rightarrow> response \<times> 's \<Rightarrow> control \<times> response \<times> 's"

text \<open>The status the client sees: a handler that sends nothing is answered with 200.\<close>

definition status :: "response \<Rightarrow> int" where
  "status w = (case w_sent w of None \<Rightarrow> 200 | Some (c, h) \<Rightarrow> c)"

definition sent_header :: "response \<Rightarrow> header" where
  "sent_header w = (case w_sent w of None \<Rightarrow> w_header w | Some (c, h) \<Rightarrow> h)"

section \<open>writeJSON and writeError\<close>

definition writeJSON :: "json_lib \<Rightarrow> int \<Rightarrow> json \<Rightarrow> response \<Rightarrow> response" where
  "writeJSON J code v w =
     Write (js_print J v @ [char_of (10::nat)]) (WriteHeader code (Header_Set ''Content-Type'' ''application/json'' w))"

definition writeError :: "json_lib \<Rightarrow> int \<Rightarrow> string \<Rightarrow> string \<Rightarrow> response \<Rightarrow> response" where
  "writeError J code err message w =
     writeJSON J code (JObj [(''error'', JStr err), (''message'', JStr message)]) w"

lemma response_unsent [simp]:
  assumes "w_sent w = None"
  shows "w_sent (Header_Set k v w) = None"
    and "status (writeJSON J c x w) = c"
    and "status (writeError J c err msg w) = c"
    and "status (http_Error text c w) = c"
    and "status (WriteHeader c w) = c"
  using assms
  by (simp_all add: Header_Set_def writeError_def writeJSON_def http_Error_def Write_def WriteHeader_def send_status_def
      status_def Let_def)

lemma log_frame [simp]:
  "w_log (Header_Set k v w) = w_log w" "w_log (WriteHeader c w) = w_log w" "w_log (writeJSON J c x w) = w_log w"
  "w_log (writeError J c err msg w) = w_log w" "w_log (http_Error text c w) = w_log w"
  by (simp_all add: Header_Set_def writeError_def writeJSON_def http_Error_def Write_def WriteHeader_def send_status_def
      Let_def split: option.split)

lemma http_Error_unsent: "w_sent w = None \<Longrightarrow> \<exists>h. w_sent (http_Error text c w) = Some (c, h)"
  by (simp add: Header_Set_def http_Error_def Write_def WriteHeader_def send_status_def Let_def)

lemma http_Error_sent:
  assumes "w_sent w = Some (c, h)"
  shows "w_sent (http_Error text st w) = Some (c, h)" and "w_calls (http_Error text st w) = w_calls w @ [st]"
  using assms by (simp_all add: http_Error_def Write_def WriteHeader_def send_status_def Header_Set_def Let_def)

lemma fresh_response_simps [simp]:
  "w_sent fresh_response = None" "w_calls fresh_response = []" "w_body fresh_response = []" "w_header fresh_response = Map.empty"
  "w_log fresh_response = []"
  by (simp_all add: fresh_response_def)

lemma writeJSON_body:
  "w_sent w = None \<Longrightarrow> w_body (writeJSON J c x w) = w_body w @ js_print J x @ [char_of (10::nat)]"
  by (simp add: writeJSON_def Write_def WriteHeader_def send_status_def Header_Set_def Let_def)

lemma writeJSON_header:
  "w_sent w = None \<Longrightarrow> sent_header (writeJSON J c x w) = (w_header w)(''Content-Type'' \<mapsto> ''application/json'')"
  by (simp add: writeJSON_def Write_def WriteHeader_def send_status_def Header_Set_def Let_def sent_header_def)

end
