(* ===== verification/Handlers.thy ===== *)
theory Handlers
  imports Http Vote_Service Request_Service User_Service
begin

text \<open>
  \<open>internal/handler\<close>: the HTTP handlers for accounts, feature requests and votes, each over the
  service and repository records it is given. An answer of 500 is logged before it is sent. \<open>env\<close>
  bundles the libraries and the clock.
\<close>

record env =
  e_json :: json_lib
  e_auth :: auth_lib
  e_svc :: AuthService
  e_now :: gotime
  e_salt :: "string result"
  e_sha256 :: "string \<Rightarrow> string"

section \<open>JSON of the domain types\<close>

definition json_FeatureRequest :: "json_lib \<Rightarrow> FeatureRequest \<Rightarrow> json" where
  "json_FeatureRequest J fr =
     JObj [(''id'', JStr (fr_ID fr)), (''author_id'', JStr (fr_AuthorID fr)), (''title'', JStr (fr_Title fr)),
           (''description'', JStr (fr_Description fr)), (''vote_count'', JNum (fr_VoteCount fr)),
           (''created_at'', JStr (js_time J (fr_CreatedAt fr))), (''updated_at'', JStr (js_time J (fr_UpdatedAt fr))),
           (''viewer_has_voted'', JBool (fr_ViewerHasVoted fr))]"

text \<open>
  \<open>Items\<close> is a Go slice. The repository starts from a nil slice and appends, so a page without rows
  has a nil slice, which is encoded as null.
\<close>

definition json_items :: "json_lib \<Rightarrow> FeatureRequest list \<Rightarrow> json" where
  "json_items J items = (if items = [] then JNull else JArr (map (json_FeatureRequest J) items))"

definition json_RequestPage :: "json_lib \<Rightarrow> RequestPage \<Rightarrow> json" where
  "json_RequestPage J page =
     JObj [(''items'', json_items J (Items page)),
           (''next_cursor'', case NextCursor page of None \<Rightarrow> JNull | Some c \<Rightarrow> JStr c)]"

definition json_VoteResult :: "VoteResult \<Rightarrow> json" where
  "json_VoteResult v =
     JObj [(''request_id'', JStr (RequestID v)), (''vote_count'', JNum (VoteCount v)),
           (''viewer_has_voted'', JBool (UserVoted v))]"

definition json_authResponse :: "string \<Rightarrow> string \<Rightarrow> json" where
  "json_authResponse access refresh = JObj [(''access_token'', JStr access), (''refresh_token'', JStr refresh)]"

section \<open>The caller\<close>

text \<open>\<open>middleware.GetUserID\<close>: the context value, and whether it is a non-empty string.\<close>

definition GetUserID :: "request \<Rightarrow> string \<times> bool" where
  "GetUserID r = (case hr_UserID r of None \<Rightarrow> ([], False) | Some i \<Rightarrow> (i, i \<noteq> []))"

section \<open>Accounts\<close>

text \<open>The fields of the structs the bodies are decoded into.\<close>

definition registerRequest :: "string list" where
  "registerRequest = [''email'', ''password'']"

definition loginRequest :: "string list" where
  "loginRequest = [''email'', ''password'']"

definition refreshRequest :: "string list" where
  "refreshRequest = [''refresh_token'']"

definition submitRequest :: "string list" where
  "submitRequest = [''title'', ''description'']"

lemmas body_fields [simp] = registerRequest_def loginRequest_def refreshRequest_def submitRequest_def

definition AuthHandler_Register :: "env \<Rightarrow> 's UserRepo \<Rightarrow> 's handler" where
  "AuthHandler_Register E repo r ws =
     (let (w, s) = ws; J = e_json E in
      case Decode J registerRequest (hr_Body r) of
        None \<Rightarrow> (Returned, writeError J 400 ''invalid_request'' ''invalid JSON body'' w, s)
      | Some req \<Rightarrow>
          if req ''email'' = [] \<or> req ''password'' = []
          then (Returned, writeError J 400 ''validation_failed'' ''email and password are required'' w, s)
          else (case Register (e_auth E) (e_salt E) repo (req ''email'') (req ''password'') s of
             (Inl e, s1) \<Rightarrow>
               if errors_Is e ErrConflict
               then (Returned, writeError J 409 ''email_taken'' ''email already registered'' w, s1)
               else (Returned, writeError J 500 ''internal_error'' ''registration failed'' (log_error ''register user'' e w), s1)
           | (Inr user, s1) \<Rightarrow>
               (case IssueAccessToken (e_auth E) (e_svc E) (e_now E) (ur_ID user) of
                  Inl e \<Rightarrow> (Returned, writeError J 500 ''internal_error'' ''token issuance failed'' (log_error ''issue access token'' e w), s1)
                | Inr access \<Rightarrow>
                    (case IssueRefreshToken (e_auth E) (e_svc E) (e_now E) (ur_ID user) of
                       Inl e \<Rightarrow> (Returned, writeError J 500 ''internal_error'' ''token issuance failed'' (log_error ''issue refresh token'' e w), s1)
                     | Inr refresh \<Rightarrow> (Returned, writeJSON J 201 (json_authResponse access refresh) w, s1)))))"

text \<open>\<open>Login\<close> drops the errors of the two issuing calls; the token is the empty string then.\<close>

definition token_or_empty :: "string result \<Rightarrow> string" where
  "token_or_empty t = (case t of Inl e \<Rightarrow> [] | Inr x \<Rightarrow> x)"

definition AuthHandler_Login :: "env \<Rightarrow> 's UserRepo \<Rightarrow> 's handler" where
  "AuthHandler_Login E repo r ws =
     (let (w, s) = ws; J = e_json E in
      case Decode J loginRequest (hr_Body r) of
        None \<Rightarrow> (Returned, writeError J 400 ''invalid_request'' ''invalid JSON body'' w, s)
      | Some req \<Rightarrow>
          (case Login (e_auth E) repo (req ''email'') (req ''password'') s of
             (Inl e, s1) \<Rightarrow>
               if errors_Is e ErrUnauthorized
               then (Returned, writeError J 401 ''invalid_credentials'' ''email or password incorrect'' w, s1)
               else (Returned, writeError J 500 ''internal_error'' ''login failed'' (log_error ''login user'' e w), s1)
           | (Inr user, s1) \<Rightarrow>
               (Returned, writeJSON J 200 (json_authResponse
                  (token_or_empty (IssueAccessToken (e_auth E) (e_svc E) (e_now E) (ur_ID user)))
                  (token_or_empty (IssueRefreshToken (e_auth E) (e_svc E) (e_now E) (ur_ID user)))) w, s1)))"

definition AuthHandler_Refresh :: "env \<Rightarrow> 's handler" where
  "AuthHandler_Refresh E r ws =
     (let (w, s) = ws; J = e_json E in
      case Decode J refreshRequest (hr_Body r) of
        None \<Rightarrow> (Returned, writeError J 400 ''invalid_request'' ''invalid JSON body'' w, s)
      | Some req \<Rightarrow>
          (case VerifyRefreshToken (e_auth E) (e_svc E) (e_now E) (req ''refresh_token'') of
             Inl e \<Rightarrow> (Returned, writeError J 401 ''invalid_token'' ''refresh token invalid or expired'' w, s)
           | Inr claims \<Rightarrow>
               (case IssueAccessToken (e_auth E) (e_svc E) (e_now E) (tc_UserID claims) of
                  Inl e \<Rightarrow> (Returned, writeError J 500 ''internal_error'' ''token issuance failed'' (log_error ''issue access token on refresh'' e w), s)
                | Inr access \<Rightarrow> (Returned, writeJSON J 200 (JObj [(''access_token'', JStr access)]) w, s))))"

section \<open>Feature requests\<close>

definition RequestsHandler_Submit :: "env \<Rightarrow> 's RequestRepo \<Rightarrow> 's handler" where
  "RequestsHandler_Submit E repo r ws =
     (let (w, s) = ws; J = e_json E; (userID, ok) = GetUserID r in
      if \<not> ok then (Returned, writeError J 401 ''unauthorized'' ''authentication required'' w, s)
      else (case Decode J submitRequest (hr_Body r) of
              None \<Rightarrow> (Returned, writeError J 400 ''invalid_request'' ''invalid JSON body'' w, s)
            | Some req \<Rightarrow>
                (case Submit repo userID (req ''title'') (req ''description'') s of
                   (Inl e, s1) \<Rightarrow>
                     if errors_Is e ErrValidation
                     then (Returned, writeError J 400 ''validation_failed'' (error_text e) w, s1)
                     else (Returned, writeError J 500 ''internal_error'' ''submission failed'' (log_error ''submit feature request'' e w), s1)
                 | (Inr fr, s1) \<Rightarrow> (Returned, writeJSON J 201 (json_FeatureRequest J fr) w, s1))))"

text \<open>\<open>computeETag\<close>: the first sixteen hex digits of the SHA-256 sum of the page's JSON.\<close>

definition computeETag :: "env \<Rightarrow> RequestPage \<Rightarrow> string" where
  "computeETag E page = take 16 (e_sha256 E (js_print (e_json E) (json_RequestPage (e_json E) page)))"

definition quoted :: "string \<Rightarrow> string" where
  "quoted s = CHR 0x22 # s @ [CHR 0x22]"

definition list_params :: "request \<Rightarrow> ListParams" where
  "list_params r =
     (let (userID, _) = GetUserID r; sort0 = hr_Query r ''sort''; l = hr_Query r ''limit''; c = hr_Query r ''cursor'' in
      \<lparr>Sort = (if sort0 = [] then ''new'' else sort0),
       Cursor = (if c \<noteq> [] then Some c else None),
       Limit = (if l \<noteq> [] then (case atoi l of Some n \<Rightarrow> if n > 0 \<and> n \<le> 100 then n else 20 | None \<Rightarrow> 20) else 20),
       ViewerID = userID\<rparr>)"

definition RequestsHandler_List :: "env \<Rightarrow> 's RankingRepo \<Rightarrow> 's handler" where
  "RequestsHandler_List E repo r ws =
     (let (w, s) = ws; J = e_json E in
      case RankingService_List repo (list_params r) s of
        (Inl e, s1) \<Rightarrow> (Returned, writeError J 500 ''internal_error'' ''listing failed'' (log_error ''list requests'' e w), s1)
      | (Inr page, s1) \<Rightarrow>
          let etag = computeETag E page;
              w1 = Header_Set ''Cache-Control'' ''private, max-age=0, must-revalidate''
                     (Header_Set ''ETag'' (quoted etag) w);
              match = hr_Header r ''If-None-Match''
          in if match \<noteq> [] \<and> match = quoted etag then (Returned, WriteHeader 304 w1, s1)
             else (Returned, writeJSON J 200 (json_RequestPage J page) w1, s1))"

definition RequestsHandler_GetByID :: "env \<Rightarrow> 's RequestRepo \<Rightarrow> 's handler" where
  "RequestsHandler_GetByID E repo r ws =
     (let (w, s) = ws; J = e_json E; (userID, _) = GetUserID r in
      case GetByID repo (hr_URLParam r ''id'') userID s of
        (Inl e, s1) \<Rightarrow>
          if errors_Is e ErrNotFound
          then (Returned, writeError J 404 ''not_found'' ''feature request not found'' w, s1)
          else (Returned, writeError J 500 ''internal_error'' ''retrieval failed'' (log_error ''get feature request'' e w), s1)
      | (Inr fr, s1) \<Rightarrow> (Returned, writeJSON J 200 (json_FeatureRequest J fr) w, s1))"

section \<open>Votes\<close>

definition VotesHandler_Upvote :: "env \<Rightarrow> 's VoteRepo \<Rightarrow> 's handler" where
  "VotesHandler_Upvote E repo r ws =
     (let (w, s) = ws; J = e_json E; (userID, ok) = GetUserID r in
      if \<not> ok then (Returned, writeError J 401 ''unauthorized'' ''authentication required'' w, s)
      else (case Upvote repo userID (hr_URLParam r ''id'') s of
              (Inl e, s1) \<Rightarrow>
                if errors_Is e ErrSelfVote
                then (Returned, writeError J 403 ''forbidden_self_vote'' ''you cannot vote on your own request'' w, s1)
                else if errors_Is e ErrNotFound
                then (Returned, writeError J 404 ''not_found'' ''feature request not found'' w, s1)
                else (Returned, writeError J 500 ''internal_error'' ''vote failed'' (log_error ''upvote'' e w), s1)
            | (Inr res, s1) \<Rightarrow> (Returned, writeJSON J 200 (json_VoteResult res) w, s1)))"

definition VotesHandler_RemoveVote :: "env \<Rightarrow> 's VoteRepo \<Rightarrow> 's handler" where
  "VotesHandler_RemoveVote E repo r ws =
     (let (w, s) = ws; J = e_json E; (userID, ok) = GetUserID r in
      if \<not> ok then (Returned, writeError J 401 ''unauthorized'' ''authentication required'' w, s)
      else (case RemoveVote repo userID (hr_URLParam r ''id'') s of
              (Inl e, s1) \<Rightarrow>
                if errors_Is e ErrNotFound
                then (Returned, writeError J 404 ''not_found'' ''feature request not found'' w, s1)
                else (Returned, writeError J 500 ''internal_error'' ''vote removal failed'' (log_error ''remove vote'' e w), s1)
            | (Inr res, s1) \<Rightarrow> (Returned, writeJSON J 200 (json_VoteResult res) w, s1)))"

lemmas handler_defs =
  AuthHandler_Register_def AuthHandler_Login_def AuthHandler_Refresh_def RequestsHandler_Submit_def
  RequestsHandler_List_def RequestsHandler_GetByID_def VotesHandler_Upvote_def VotesHandler_RemoveVote_def

end
