(* ===== verification/Metrics_Registry.thy ===== *)
theory Metrics_Registry
  imports Go_Prelude
begin

text \<open>
  \<open>internal/observability/metrics.go\<close>: the three metrics and their registration. The Prometheus client
  is a library. Two of its calls panic, and what they accept is a parameter: registering a metric
  (\<open>must_register\<close>, on the registry as a list of what is registered) and selecting a series by label
  values (\<open>accepts\<close>, used by the middleware). The documented behaviour is stated as two laws.
\<close>

datatype metric_kind = CounterVec | HistogramVec | Gauge

record metric_opts =
  mo_kind :: metric_kind
  mo_name :: string
  mo_help :: string
  mo_labels :: "string list"

record metric_set =
  RequestsTotal :: metric_opts
  RequestDuration :: metric_opts
  RequestsInFlight :: metric_opts

definition http_requests_total :: metric_opts where
  "http_requests_total =
     \<lparr>mo_kind = CounterVec, mo_name = ''http_requests_total'',
      mo_help = ''Total HTTP requests partitioned by method, path, and status.'',
      mo_labels = [''method'', ''path'', ''status'']\<rparr>"

definition http_request_duration :: metric_opts where
  "http_request_duration =
     \<lparr>mo_kind = HistogramVec, mo_name = ''http_request_duration_seconds'',
      mo_help = ''HTTP request latency in seconds.'', mo_labels = [''method'', ''path'']\<rparr>"

definition http_requests_in_flight :: metric_opts where
  "http_requests_in_flight =
     \<lparr>mo_kind = Gauge, mo_name = ''http_requests_in_flight'',
      mo_help = ''Current number of in-flight HTTP requests.'', mo_labels = []\<rparr>"

type_synonym registerer = "metric_opts \<Rightarrow> metric_opts list \<Rightarrow> metric_opts list outcome"

definition NewMetrics :: "registerer \<Rightarrow> metric_opts list \<Rightarrow> (metric_set \<times> metric_opts list) outcome" where
  "NewMetrics must_register reg =
     (case must_register http_requests_total reg of
        Panic m \<Rightarrow> Panic m
      | Done reg1 \<Rightarrow>
          (case must_register http_request_duration reg1 of
             Panic m \<Rightarrow> Panic m
           | Done reg2 \<Rightarrow>
               (case must_register http_requests_in_flight reg2 of
                  Panic m \<Rightarrow> Panic m
                | Done reg3 \<Rightarrow>
                    Done (\<lparr>RequestsTotal = http_requests_total, RequestDuration = http_request_duration,
                           RequestsInFlight = http_requests_in_flight\<rparr>, reg3))))"

text \<open>Registering panics exactly on a name that is taken.\<close>

definition register_law :: "registerer \<Rightarrow> bool" where
  "register_law must_register \<longleftrightarrow> (\<forall>mo reg.
     if mo_name mo \<in> mo_name ` set reg then (\<exists>m. must_register mo reg = Panic m)
     else must_register mo reg = Done (reg @ [mo]))"

text \<open>Label values are accepted when there is one for each label and each is a valid text.\<close>

definition labels_law :: "(metric_opts \<Rightarrow> string list \<Rightarrow> bool) \<Rightarrow> (string \<Rightarrow> bool) \<Rightarrow> bool" where
  "labels_law accepts valid \<longleftrightarrow> (\<forall>mo vs. accepts mo vs \<longleftrightarrow> length vs = length (mo_labels mo) \<and> list_all valid vs)"

text \<open>On a registry without these names the metrics register, once; a second time panics.\<close>

lemma NewMetrics_registers:
  assumes "register_law must_register"
    and "mo_name ` set reg \<inter> {''http_requests_total'', ''http_request_duration_seconds'', ''http_requests_in_flight''} = {}"
  obtains m where "NewMetrics must_register reg
      = Done (m, reg @ [http_requests_total, http_request_duration, http_requests_in_flight])"
proof -
  have reg: "must_register mo reg' = Done (reg' @ [mo])" if "mo_name mo \<notin> mo_name ` set reg'" for mo reg'
    using assms(1) that by (auto simp: register_law_def)
  have "''http_requests_total'' \<notin> mo_name ` set reg" "''http_request_duration_seconds'' \<notin> mo_name ` set reg"
    "''http_requests_in_flight'' \<notin> mo_name ` set reg" using assms(2) by auto
  then have "must_register http_requests_total reg = Done (reg @ [http_requests_total])"
    "must_register http_request_duration (reg @ [http_requests_total])
       = Done (reg @ [http_requests_total, http_request_duration])"
    "must_register http_requests_in_flight (reg @ [http_requests_total, http_request_duration])
       = Done (reg @ [http_requests_total, http_request_duration, http_requests_in_flight])"
    by (simp_all add: reg http_requests_total_def http_request_duration_def http_requests_in_flight_def)
  then show ?thesis by (intro that) (simp add: NewMetrics_def)
qed

lemma NewMetrics_twice:
  assumes "register_law must_register" and "NewMetrics must_register reg = Done (m, reg')"
  shows "\<exists>msg. NewMetrics must_register reg' = Panic msg"
proof -
  have grows: "reg2 = reg1 @ [mo]" if "must_register mo reg1 = Done reg2" for mo reg1 reg2
    using assms(1)[unfolded register_law_def, rule_format, of mo reg1] that by (auto split: if_splits)
  from assms(2) have "http_requests_total \<in> set reg'"
    by (auto simp: NewMetrics_def split: outcome.splits dest!: grows)
  then have "\<exists>msg. must_register http_requests_total reg' = Panic msg"
    using assms(1)[unfolded register_law_def, rule_format, of http_requests_total reg'] by (auto split: if_splits)
  then show ?thesis by (auto simp: NewMetrics_def)
qed

end
