(* ===== verification/Middleware.thy ===== *)
theory Middleware
  imports Handlers Redis_Ops Metrics_Registry
begin

text \<open>
  \<open>internal/middleware\<close>: authentication, panic recovery, request logging, metrics, security headers
  and the Redis rate limiter, each as a function from handlers to handlers over the state of the
  whole server: the database, Redis, the metrics registry and the log.
\<close>

record metrics =
  m_in_flight :: int
  m_total :: "string \<times> string \<times> string \<Rightarrow> nat"
  m_duration :: "string \<times> string \<Rightarrow> nat"

record log_entry =
  l_method :: string
  l_path :: string
  l_status :: int

record 'r server =
  sv_pg :: pg
  sv_redis :: 'r
  sv_metrics :: metrics
  sv_log :: "log_entry list"

text \<open>A handler on the database, and a Redis command, on the server's state.\<close>

definition with_pg :: "pg handler \<Rightarrow> ('r server) handler" where
  "with_pg h r ws = (case h r (fst ws, sv_pg (snd ws)) of (c, w, p) \<Rightarrow> (c, w, (snd ws)\<lparr>sv_pg := p\<rparr>))"

definition with_redis :: "('r, 'a) eff \<Rightarrow> ('r server, 'a) eff" where
  "with_redis f s = (case f (sv_redis s) of (x, d) \<Rightarrow> (x, s\<lparr>sv_redis := d\<rparr>))"

section \<open>Authentication\<close>

definition msg_missing_header :: string where
  "msg_missing_header = ''{\"error\":\"unauthorized\",\"message\":\"missing authorization header\"}''"

definition msg_bad_header :: string where
  "msg_bad_header = ''{\"error\":\"unauthorized\",\"message\":\"invalid authorization header format\"}''"

definition msg_bad_token :: string where
  "msg_bad_token = ''{\"error\":\"unauthorized\",\"message\":\"invalid or expired token\"}''"

definition Auth :: "env \<Rightarrow> 's handler \<Rightarrow> 's handler" where
  "Auth E next r ws =
     (let (w, s) = ws; authHeader = hr_Header r ''Authorization'' in
      if authHeader = [] then (Returned, http_Error msg_missing_header 401 w, s)
      else let parts = SplitN (CHR '' '') 2 authHeader in
        if length parts \<noteq> 2 \<or> \<not> EqualFold (parts ! 0) ''bearer''
        then (Returned, http_Error msg_bad_header 401 w, s)
        else (case VerifyAccessToken (e_auth E) (e_svc E) (e_now E) (parts ! 1) of
                Inl e \<Rightarrow> (Returned, http_Error msg_bad_token 401 w, s)
              | Inr claims \<Rightarrow> next (r\<lparr>hr_UserID := Some (tc_UserID claims)\<rparr>) ws))"

text \<open>The credentials a request presents, when the middleware accepts them.\<close>

definition authenticated :: "env \<Rightarrow> request \<Rightarrow> TokenClaims option" where
  "authenticated E r =
     (case SplitN (CHR '' '') 2 (hr_Header r ''Authorization'') of
        [scheme, tok] \<Rightarrow>
          if EqualFold scheme ''bearer''
          then (case VerifyAccessToken (e_auth E) (e_svc E) (e_now E) tok of Inl e \<Rightarrow> None | Inr c \<Rightarrow> Some c)
          else None
      | _ \<Rightarrow> None)"

lemma authenticated_frame [simp]:
  "authenticated E (r\<lparr>hr_URLParam := f\<rparr>) = authenticated E r"
  "authenticated E (r\<lparr>hr_UserID := x\<rparr>) = authenticated E r"
  by (simp_all add: authenticated_def)

lemma Auth_authenticated:
  "authenticated E r = Some c \<Longrightarrow> Auth E next r ws = next (r\<lparr>hr_UserID := Some (tc_UserID c)\<rparr>) ws"
  by (cases ws) (auto simp: authenticated_def Auth_def Let_def numeral_2_eq_2
      split: list.splits if_splits sum.splits option.splits)

lemma Auth_refused:
  assumes "authenticated E r = None"
  obtains msg where "\<And>w s. Auth E next r (w, s) = (Returned, http_Error msg 401 w, s)"
proof -
  have "\<exists>msg. \<forall>w s. Auth E next r (w, s) = (Returned, http_Error msg 401 w, s)"
    using assms
    by (auto simp: authenticated_def Auth_def Let_def numeral_2_eq_2 length_Suc_conv
        split: list.splits if_splits sum.splits option.splits)
  with that show ?thesis by blast
qed

section \<open>Observability\<close>

definition msg_unexpected :: string where
  "msg_unexpected = ''{\"error\":\"internal_error\",\"message\":\"unexpected error\"}''"

text \<open>The recovered value, which is logged beside the path, is not modelled.\<close>

definition Recover :: "'s handler \<Rightarrow> 's handler" where
  "Recover next r ws =
     (case next r ws of
        (Returned, w, s) \<Rightarrow> (Returned, w, s)
      | (Panicked, w, s) \<Rightarrow>
          (Returned, http_Error msg_unexpected 500 (log_Error ''panic recovered'' [(''path'', hr_Path r)] w), s))"

text \<open>
  \<open>statusRecorder\<close> starts at 200 and remembers the argument of every explicit \<open>WriteHeader\<close> that
  goes through it: \<open>w_calls\<close> lists those arguments, and a recorder created when \<open>n\<close> had been made
  sees the rest.
\<close>

definition recorded_status :: "nat \<Rightarrow> response \<Rightarrow> int" where
  "recorded_status n w = (let cs = drop n (w_calls w) in if cs = [] then 200 else last cs)"

definition RequestLogging :: "('r server) handler \<Rightarrow> ('r server) handler" where
  "RequestLogging next r ws =
     (let n = length (w_calls (fst ws)) in
      case next r ws of
        (Panicked, w, s) \<Rightarrow> (Panicked, w, s)
      | (Returned, w, s) \<Rightarrow>
          (Returned, w, s\<lparr>sv_log := sv_log s @
             [\<lparr>l_method = hr_Method r, l_path = hr_Path r, l_status = recorded_status n w\<rparr>]\<rparr>))"

definition add_in_flight :: "int \<Rightarrow> 'r server \<Rightarrow> 'r server" where
  "add_in_flight d s = s\<lparr>sv_metrics := (sv_metrics s)\<lparr>m_in_flight := m_in_flight (sv_metrics s) + d\<rparr>\<rparr>"

definition count_total :: "string \<Rightarrow> string \<Rightarrow> int \<Rightarrow> metrics \<Rightarrow> metrics" where
  "count_total m path st ms =
     ms\<lparr>m_total := (m_total ms)((m, path, format_int st) := m_total ms (m, path, format_int st) + 1)\<rparr>"

definition observe_duration :: "string \<Rightarrow> string \<Rightarrow> metrics \<Rightarrow> metrics" where
  "observe_duration m path ms =
     ms\<lparr>m_duration := (m_duration ms)((m, path) := m_duration ms (m, path) + 1)\<rparr>"

definition count_request :: "string \<Rightarrow> string \<Rightarrow> int \<Rightarrow> metrics \<Rightarrow> metrics" where
  "count_request m path st ms = observe_duration m path (count_total m path st ms)"

text \<open>
  The gauge is decremented by a deferred call, so also when the handler panics. The labels are those
  of the request as it came in, and selecting a series panics when the client library does not
  accept them (\<open>accepts\<close>); the response has been sent by then.
\<close>

definition Metrics :: "(metric_opts \<Rightarrow> string list \<Rightarrow> bool) \<Rightarrow> ('r server) handler \<Rightarrow> ('r server) handler" where
  "Metrics accepts next r ws =
     (let n = length (w_calls (fst ws)) in
      case next r (fst ws, add_in_flight 1 (snd ws)) of
        (Panicked, w, s) \<Rightarrow> (Panicked, w, add_in_flight (- 1) s)
      | (Returned, w, s) \<Rightarrow>
          let path = hr_Path r; st = recorded_status n w in
          if \<not> accepts http_requests_total [hr_Method r, path, format_int st]
          then (Panicked, w, add_in_flight (- 1) s)
          else let s1 = s\<lparr>sv_metrics := count_total (hr_Method r) path st (sv_metrics s)\<rparr> in
            if \<not> accepts http_request_duration [hr_Method r, path]
            then (Panicked, w, add_in_flight (- 1) s1)
            else (Returned, w, add_in_flight (- 1) (s1\<lparr>sv_metrics := observe_duration (hr_Method r) path (sv_metrics s1)\<rparr>)))"

section \<open>Security headers\<close>

definition set_security_headers :: "response \<Rightarrow> response" where
  "set_security_headers w =
     Header_Set ''Content-Security-Policy'' (''default-src '' @ CHR 0x27 # ''none'' @ [CHR 0x27])
       (Header_Set ''Referrer-Policy'' ''strict-origin-when-cross-origin''
         (Header_Set ''X-XSS-Protection'' ''1; mode=block''
           (Header_Set ''X-Frame-Options'' ''DENY''
             (Header_Set ''X-Content-Type-Options'' ''nosniff'' w))))"

lemma set_security_headers_frame [simp]:
  "w_sent (set_security_headers w) = w_sent w" "w_calls (set_security_headers w) = w_calls w"
  "w_body (set_security_headers w) = w_body w" "w_log (set_security_headers w) = w_log w"
  by (simp_all add: set_security_headers_def Header_Set_def)

definition SecurityHeaders :: "'s handler \<Rightarrow> 's handler" where
  "SecurityHeaders next r ws = next r (set_security_headers (fst ws), snd ws)"

section \<open>Rate limiting\<close>

text \<open>
  \<open>int(window.Seconds())\<close> is the whole seconds of the window (for windows of less than \<open>2 ^ 22\<close>
  seconds the sum in \<open>float64\<close> cannot round up to the next one). Go's division truncates, and panics
  when the divisor is zero.
\<close>

definition window_seconds :: "duration \<Rightarrow> int" where
  "window_seconds window = window sdiv Second"

definition ratelimit_key :: "string \<Rightarrow> gotime \<Rightarrow> int \<Rightarrow> string" where
  "ratelimit_key userID now windowSecs =
     ''ratelimit:'' @ userID @ '':'' @ format_int ((now div Second) sdiv windowSecs)"

definition limited_user :: "request \<Rightarrow> string" where
  "limited_user r = (let (userID, ok) = GetUserID r in if \<not> ok then hr_RemoteAddr r else userID)"

definition msg_rate_limited :: string where
  "msg_rate_limited = ''{\"error\":\"rate_limited\",\"message\":\"too many requests\"}''"

definition RateLimit :: "'r redis \<Rightarrow> int \<Rightarrow> duration \<Rightarrow> gotime \<Rightarrow> ('r server) handler \<Rightarrow> ('r server) handler" where
  "RateLimit R limit window now next r ws =
     (let (w, s) = ws; userID = limited_user r; windowSecs = window_seconds window in
      if windowSecs = 0 then (Panicked, w, s)
      else let key = ratelimit_key userID now windowSecs in
        (case with_redis (rd_Incr R key) s of
           (Inl e, s1) \<Rightarrow> next r (w, s1)
         | (Inr cnt, s1) \<Rightarrow>
             let s2 = (if cnt = 1 then snd (with_redis (rd_Expire R key window) s1) else s1) in
             if cnt > limit
             then (Returned, http_Error msg_rate_limited 429 (Header_Set ''Retry-After'' (format_int windowSecs) w), s2)
             else next r (w, s2)))"

text \<open>
  What the limiter can do: panic on a window shorter than a second, run the next handler, or refuse;
  before that it has touched nothing but Redis.
\<close>

definition redis_only :: "'r server \<Rightarrow> 'r server \<Rightarrow> bool" where
  "redis_only s s' \<longleftrightarrow> (\<exists>d. s' = s\<lparr>sv_redis := d\<rparr>)"

lemma redis_onlyD:
  "redis_only s s' \<Longrightarrow> sv_pg s' = sv_pg s \<and> sv_metrics s' = sv_metrics s \<and> sv_log s' = sv_log s"
  by (auto simp: redis_only_def)

lemma redis_only_with_redis: "with_redis f s = (x, s') \<Longrightarrow> redis_only s s'"
  by (auto simp: with_redis_def redis_only_def split: prod.splits)

lemma redis_only_trans: "redis_only s s1 \<Longrightarrow> redis_only s1 s2 \<Longrightarrow> redis_only s s2"
  by (auto simp: redis_only_def)

lemma RateLimit_rule:
  assumes "window_seconds window = 0 \<Longrightarrow> Q (Panicked, w, s)"
    and "\<And>s'. redis_only s s' \<Longrightarrow> Q (h r (w, s'))"
    and "\<And>n s'. redis_only s s' \<Longrightarrow> Q (Returned, http_Error msg_rate_limited 429 (Header_Set ''Retry-After'' n w), s')"
  shows "Q (RateLimit R limit window now h r (w, s))"
proof -
  let ?k = "ratelimit_key (limited_user r) now (window_seconds window)"
  obtain x s1 where i: "with_redis (rd_Incr R ?k) s = (x, s1)" by (cases "with_redis (rd_Incr R ?k) s")
  obtain y s2 where e: "with_redis (rd_Expire R ?k window) s1 = (y, s2)"
    by (cases "with_redis (rd_Expire R ?k window) s1")
  have q: "redis_only s s1" "redis_only s s2"
    using redis_only_with_redis[OF i] redis_only_with_redis[OF e] redis_only_trans by blast+
  show ?thesis
    using assms q by (cases x) (simp_all add: RateLimit_def Let_def i e)
qed

end
