(* ===== verification/Router.thy ===== *)
theory Router
  imports Middleware Trending Reconcile
begin

text \<open>
  \<open>internal/platform/health.go\<close> and the composition in \<open>cmd/server/main.go\<close>: which handler serves
  which method and path, and the middleware around it. chi is a library: how it answers an unknown
  path or method, and the Prometheus endpoint, are parameters; its matching of the literal and
  \<open>{id}\<close> segments the routes consist of is written out.
\<close>

section \<open>Health\<close>

text \<open>The copy of \<open>writeJSON\<close> in this package.\<close>

definition platform_writeJSON :: "json_lib \<Rightarrow> int \<Rightarrow> json \<Rightarrow> response \<Rightarrow> response" where
  "platform_writeJSON J code v w =
     Write (js_print J v @ [char_of (10::nat)]) (WriteHeader code (Header_Set ''Content-Type'' ''application/json'' w))"

lemma platform_writeJSON_eq [simp]: "platform_writeJSON = writeJSON"
  by (simp add: fun_eq_iff platform_writeJSON_def writeJSON_def)

definition Healthz :: "json_lib \<Rightarrow> 's handler" where
  "Healthz J r ws = (Returned, platform_writeJSON J 200 (JObj [(''status'', JStr ''ok'')]) (fst ws), snd ws)"

definition Health :: "json_lib \<Rightarrow> 's handler" where
  "Health J = Healthz J"

definition pool_Ping :: "(pg, unit) eff" where
  "pool_Ping = run_stmt (\<lambda>t. Inr ((), t))"

definition check_text :: "unit result \<Rightarrow> string" where
  "check_text x = (case x of Inl e \<Rightarrow> ''unhealthy: '' @ error_text e | Inr _ \<Rightarrow> ''ok'')"

definition Readyz :: "json_lib \<Rightarrow> 'r redis \<Rightarrow> ('r server) handler" where
  "Readyz J R r ws =
     (let (w, s) = ws;
          (p, pg') = pool_Ping (sv_pg s);
          s1 = s\<lparr>sv_pg := pg'\<rparr>;
          status1 = (case p of Inl _ \<Rightarrow> 503 | Inr _ \<Rightarrow> 200);
          (d, s2) = with_redis (rd_Ping R) s1;
          status2 = (case d of Inl _ \<Rightarrow> 503 | Inr _ \<Rightarrow> status1)
      in (Returned,
          platform_writeJSON J status2
            (JObj [(''status'', JObj [(''postgres'', JStr (check_text p)), (''redis'', JStr (check_text d))])]) w,
          s2))"

section \<open>Routes\<close>

datatype endpoint =
    EpHealthz | EpHealth | EpReadyz | EpMetrics
  | EpRegister | EpLogin | EpRefresh
  | EpSubmit | EpList | EpGetByID | EpUpvote | EpRemoveVote

datatype segment = Lit string | Param

definition routes :: "(string option \<times> segment list \<times> endpoint) list" where
  "routes =
     [(Some ''GET'', [Lit ''healthz''], EpHealthz),
      (Some ''GET'', [Lit ''health''], EpHealth),
      (Some ''GET'', [Lit ''readyz''], EpReadyz),
      (None, [Lit ''metrics''], EpMetrics),
      (Some ''POST'', [Lit ''auth'', Lit ''register''], EpRegister),
      (Some ''POST'', [Lit ''auth'', Lit ''login''], EpLogin),
      (Some ''POST'', [Lit ''auth'', Lit ''refresh''], EpRefresh),
      (Some ''POST'', [Lit ''requests''], EpSubmit),
      (Some ''GET'', [Lit ''requests''], EpList),
      (Some ''GET'', [Lit ''requests'', Param], EpGetByID),
      (Some ''PUT'', [Lit ''requests'', Param, Lit ''vote''], EpUpvote),
      (Some ''DELETE'', [Lit ''requests'', Param, Lit ''vote''], EpRemoveVote)]"

text \<open>A literal segment matches itself, \<open>{id}\<close> any non-empty segment, whose text is returned.\<close>

fun match_segments :: "segment list \<Rightarrow> string list \<Rightarrow> string option" where
  "match_segments [] [] = Some []"
| "match_segments (Lit l # ps) (x # xs) = (if x = l then match_segments ps xs else None)"
| "match_segments (Param # ps) (x # xs) =
     (if x = [] then None else map_option (\<lambda>_. x) (match_segments ps xs))"
| "match_segments _ _ = None"

definition match_path :: "segment list \<Rightarrow> string \<Rightarrow> string option" where
  "match_path ps path =
     (case Split (CHR ''/'') path of [] # xs \<Rightarrow> match_segments ps xs | _ \<Rightarrow> None)"

datatype routed = Matched endpoint string | MethodNotAllowed | NotFound

definition route :: "string \<Rightarrow> string \<Rightarrow> routed" where
  "route verb path =
     (let here = filter (\<lambda>(v, ps, ep). match_path ps path \<noteq> None) routes in
      if here = [] then NotFound
      else case find (\<lambda>(v, ps, ep). v = None \<or> v = Some verb) here of
             None \<Rightarrow> MethodNotAllowed
           | Some (v, ps, ep) \<Rightarrow> Matched ep (case match_path ps path of None \<Rightarrow> [] | Some i \<Rightarrow> i))"

section \<open>The server\<close>

text \<open>
  Everything a running server is given: libraries, secrets and clocks (\<open>ap_env\<close>), PostgreSQL's text
  functions, the statement time and the identifier a server-side default would supply next, Redis,
  and the parameters for chi, promhttp and the Prometheus client.
\<close>

record 'r app =
  ap_env :: env
  ap_lib :: pg_lib
  ap_pg_now :: int
  ap_gen :: string
  ap_redis :: "'r redis"
  ap_not_found :: "response \<Rightarrow> response"
  ap_not_allowed :: "response \<Rightarrow> response"
  ap_promhttp :: "metrics \<Rightarrow> request \<Rightarrow> response \<Rightarrow> response"
  ap_accepts :: "metric_opts \<Rightarrow> string list \<Rightarrow> bool"

definition protected :: "'r app \<Rightarrow> pg handler \<Rightarrow> ('r server) handler" where
  "protected A h = Auth (ap_env A) (RateLimit (ap_redis A) 100 Minute (e_now (ap_env A)) (with_pg h))"

fun endpoint_handler :: "'r app \<Rightarrow> endpoint \<Rightarrow> ('r server) handler" where
  "endpoint_handler A EpHealthz = Healthz (e_json (ap_env A))"
| "endpoint_handler A EpHealth = Health (e_json (ap_env A))"
| "endpoint_handler A EpReadyz = Readyz (e_json (ap_env A)) (ap_redis A)"
| "endpoint_handler A EpMetrics =
     (\<lambda>r ws. (Returned, ap_promhttp A (sv_metrics (snd ws)) r (fst ws), snd ws))"
| "endpoint_handler A EpRegister =
     with_pg (AuthHandler_Register (ap_env A) (postgres_UserRepo (ap_lib A) (ap_pg_now A) (ap_gen A)))"
| "endpoint_handler A EpLogin =
     with_pg (AuthHandler_Login (ap_env A) (postgres_UserRepo (ap_lib A) (ap_pg_now A) (ap_gen A)))"
| "endpoint_handler A EpRefresh = AuthHandler_Refresh (ap_env A)"
| "endpoint_handler A EpSubmit =
     protected A (RequestsHandler_Submit (ap_env A) (postgres_RequestRepo (ap_lib A) (ap_pg_now A) (ap_gen A)))"
| "endpoint_handler A EpList =
     protected A (RequestsHandler_List (ap_env A) (postgres_RankingRepo (ap_lib A)))"
| "endpoint_handler A EpGetByID =
     protected A (RequestsHandler_GetByID (ap_env A) (postgres_RequestRepo (ap_lib A) (ap_pg_now A) (ap_gen A)))"
| "endpoint_handler A EpUpvote =
     protected A (VotesHandler_Upvote (ap_env A) (postgres_VoteRepo (ap_lib A) (ap_pg_now A)))"
| "endpoint_handler A EpRemoveVote =
     protected A (VotesHandler_RemoveVote (ap_env A) (postgres_VoteRepo (ap_lib A) (ap_pg_now A)))"

definition is_protected :: "endpoint \<Rightarrow> bool" where
  "is_protected ep \<longleftrightarrow> ep \<in> {EpSubmit, EpList, EpGetByID, EpUpvote, EpRemoveVote}"

definition dispatch :: "'r app \<Rightarrow> ('r server) handler" where
  "dispatch A r ws =
     (case route (hr_Method r) (hr_Path r) of
        NotFound \<Rightarrow> (Returned, ap_not_found A (fst ws), snd ws)
      | MethodNotAllowed \<Rightarrow> (Returned, ap_not_allowed A (fst ws), snd ws)
      | Matched ep i \<Rightarrow> endpoint_handler A ep (r\<lparr>hr_URLParam := (\<lambda>_. i)\<rparr>) ws)"

text \<open>The global middleware, outermost first; chi's request id and OpenTelemetry pass the request through.\<close>

definition server_handler :: "'r app \<Rightarrow> ('r server) handler" where
  "server_handler A = Recover (SecurityHeaders (RequestLogging (Metrics (ap_accepts A) (dispatch A))))"

text \<open>A request enters without a user in its context.\<close>

definition serve :: "'r app \<Rightarrow> request \<Rightarrow> 'r server \<Rightarrow> response \<times> 'r server" where
  "serve A r s =
     (case server_handler A (r\<lparr>hr_UserID := None\<rparr>) (fresh_response, s) of (c, w, s') \<Rightarrow> (w, s'))"

section \<open>The stack around an endpoint\<close>

definition after_request :: "request \<Rightarrow> response \<Rightarrow> 'r server \<Rightarrow> 'r server" where
  "after_request r w s =
     (add_in_flight (- 1) (s\<lparr>sv_metrics := count_request (hr_Method r) (hr_Path r) (recorded_status 0 w) (sv_metrics s)\<rparr>))
       \<lparr>sv_log := sv_log s @ [\<lparr>l_method = hr_Method r, l_path = hr_Path r, l_status = recorded_status 0 w\<rparr>]\<rparr>"

text \<open>The request as the endpoint gets it from the router.\<close>

definition entry :: "request \<Rightarrow> string \<Rightarrow> request" where
  "entry r i = r\<lparr>hr_UserID := None, hr_URLParam := (\<lambda>_. i)\<rparr>"

lemma entry_simps [simp]:
  "hr_UserID (entry r i) = None" "hr_URLParam (entry r i) x = i" "authenticated E (entry r i) = authenticated E r"
  by (simp_all add: entry_def)

text \<open>
  The metrics accept a request whose method and path are label values the client library takes. Any
  other request is answered by the endpoint as well, but then the metrics middleware panics, and
  the recovering one adds its own error to the response.
\<close>

definition labelled :: "'r app \<Rightarrow> request \<Rightarrow> bool" where
  "labelled A r \<longleftrightarrow> ap_accepts A http_request_duration [hr_Method r, hr_Path r]
     \<and> (\<forall>st. ap_accepts A http_requests_total [hr_Method r, hr_Path r, format_int st])"

lemma labelled_law:
  assumes "labels_law (ap_accepts A) valid" and "\<forall>n. valid (format_int n)"
  shows "labelled A r \<longleftrightarrow> valid (hr_Method r) \<and> valid (hr_Path r)"
  using assms by (auto simp: labelled_def labels_law_def http_requests_total_def http_request_duration_def)

lemma serve_eq:
  assumes "route (hr_Method r) (hr_Path r) = Matched ep i"
    and "endpoint_handler A ep (entry r i) (set_security_headers fresh_response, add_in_flight 1 s) = (Returned, w, s1)"
  shows "serve A r s =
     (let counted = ap_accepts A http_requests_total [hr_Method r, hr_Path r, format_int (recorded_status 0 w)];
          s2 = (if counted then s1\<lparr>sv_metrics := count_total (hr_Method r) (hr_Path r) (recorded_status 0 w) (sv_metrics s1)\<rparr> else s1)
      in if counted \<and> ap_accepts A http_request_duration [hr_Method r, hr_Path r] then (w, after_request r w s1)
         else (http_Error msg_unexpected 500 (log_Error ''panic recovered'' [(''path'', hr_Path r)] w), add_in_flight (- 1) s2))"
  using assms
  by (simp add: serve_def server_handler_def Recover_def SecurityHeaders_def RequestLogging_def Metrics_def
      dispatch_def Let_def entry_def after_request_def add_in_flight_def count_request_def)

lemma serve_matched:
  assumes "route (hr_Method r) (hr_Path r) = Matched ep i" and "labelled A r"
    and "endpoint_handler A ep (entry r i) (set_security_headers fresh_response, add_in_flight 1 s) = (Returned, w, s1)"
  shows "serve A r s = (w, after_request r w s1)"
  using assms by (simp add: serve_eq[OF assms(1,3)] labelled_def)

text \<open>Whatever the metrics do, the status is the endpoint's, and the stores are as it left them.\<close>

lemma serve_status:
  assumes "route (hr_Method r) (hr_Path r) = Matched ep i"
    and "endpoint_handler A ep (entry r i) (set_security_headers fresh_response, add_in_flight 1 s) = (Returned, w, s1)"
    and "w_sent w = Some (c, h)" and "serve A r s = (w', s')"
  shows "w_sent w' = Some (c, h) \<and> sv_pg s' = sv_pg s1 \<and> sv_redis s' = sv_redis s1"
  using assms
  by (auto simp: serve_eq[OF assms(1,2)] after_request_def add_in_flight_def http_Error_sent Let_def split: if_splits)

lemma after_request_frame [simp]:
  "sv_pg (after_request r w s) = sv_pg s" "sv_redis (after_request r w s) = sv_redis s"
  by (simp_all add: after_request_def add_in_flight_def)

text \<open>The database after a request is what the endpoint made of it.\<close>

lemma serve_pg:
  assumes "route (hr_Method r) (hr_Path r) = Matched ep i"
  shows "sv_pg (snd (serve A r s)) =
     sv_pg (snd (snd (endpoint_handler A ep (entry r i) (set_security_headers fresh_response, add_in_flight 1 s))))"
  using assms
  by (auto simp: serve_def server_handler_def Recover_def SecurityHeaders_def RequestLogging_def Metrics_def
      dispatch_def Let_def entry_def add_in_flight_def split: prod.splits control.splits)

section \<open>What the wrapping preserves\<close>

text \<open>
  A predicate on the database that a handler keeps is kept by everything around it. The predicates
  are about the tables, which Redis, the metrics and the log do not touch.
\<close>

definition keeps :: "(tables \<Rightarrow> bool) \<Rightarrow> ('r server) handler \<Rightarrow> request \<Rightarrow> bool" where
  "keeps P h r \<longleftrightarrow> (\<forall>w s. P (tbl (sv_pg s)) \<longrightarrow> P (tbl (sv_pg (snd (snd (h r (w, s)))))))"

lemma keepsI:
  assumes "\<And>w s c w' s'. P (tbl (sv_pg s)) \<Longrightarrow> h r (w, s) = (c, w', s') \<Longrightarrow> P (tbl (sv_pg s'))"
  shows "keeps P h r"
  unfolding keeps_def using assms by (metis prod.collapse)

lemma keepsD: "keeps P h r \<Longrightarrow> P (tbl (sv_pg s)) \<Longrightarrow> h r (w, s) = (c, w', s') \<Longrightarrow> P (tbl (sv_pg s'))"
  unfolding keeps_def by (metis snd_conv)

lemma with_redis_pg [simp, state_frame]: "sv_pg (snd (with_redis f s)) = sv_pg s"
  by (simp add: with_redis_def split: prod.split)

lemma with_redis_pg': "with_redis f s = (x, s') \<Longrightarrow> sv_pg s' = sv_pg s"
  by (metis snd_conv with_redis_pg)

lemma sv_pg_add_in_flight [simp]: "sv_pg (add_in_flight d s) = sv_pg s"
  by (simp add: add_in_flight_def)

lemma keeps_with_pg:
  assumes "\<And>w p c w' p'. P (tbl p) \<Longrightarrow> h r (w, p) = (c, w', p') \<Longrightarrow> P (tbl p')"
  shows "keeps P (with_pg h) r"
proof (rule keepsI)
  fix w w' c and s s' :: "'r server"
  assume p: "P (tbl (sv_pg s))" and r: "with_pg h r (w, s) = (c, w', s')"
  obtain c1 w1 p1 where h: "h r (w, sv_pg s) = (c1, w1, p1)" by (rule prod_cases3)
  with assms[OF p h] r show "P (tbl (sv_pg s'))" by (auto simp: with_pg_def)
qed

lemma keeps_RateLimit:
  fixes h :: "('r server) handler"
  assumes "keeps P h r"
  shows "keeps P (RateLimit R limit window now h) r"
proof (rule keepsI)
  fix w w' c and s s' :: "'r server"
  assume p: "P (tbl (sv_pg s))"
  have "\<forall>c w' s'. RateLimit R limit window now h r (w, s) = (c, w', s') \<longrightarrow> P (tbl (sv_pg s'))"
  proof (rule RateLimit_rule[where Q = "\<lambda>x. \<forall>c w' s'. x = (c, w', s') \<longrightarrow> P (tbl (sv_pg s'))"])
    fix s' assume "redis_only s s'"
    with p have "P (tbl (sv_pg s'))" by (simp add: redis_onlyD)
    then show "\<forall>c w' s''. h r (w, s') = (c, w', s'') \<longrightarrow> P (tbl (sv_pg s''))"
      using keepsD[OF assms] by blast
  qed (use p in \<open>auto dest!: redis_onlyD\<close>)
  then show "RateLimit R limit window now h r (w, s) = (c, w', s') \<Longrightarrow> P (tbl (sv_pg s'))" by blast
qed

lemma keeps_Auth:
  assumes "\<And>c. authenticated E r = Some c \<Longrightarrow> keeps P h (r\<lparr>hr_UserID := Some (tc_UserID c)\<rparr>)"
  shows "keeps P (Auth E h) r"
proof (cases "authenticated E r")
  case None
  then obtain msg where "\<And>w s. Auth E h r (w, s) = (Returned, http_Error msg 401 w, s)" by (rule Auth_refused) blast
  then show ?thesis by (simp add: keeps_def)
next
  case (Some c)
  with assms show ?thesis by (simp add: keeps_def Auth_authenticated)
qed

lemma keeps_Metrics:
  assumes "keeps P h r"
  shows "keeps P (Metrics accepts h) r"
proof (rule keepsI)
  fix w w' c s s'
  assume p: "P (tbl (sv_pg s))" and r: "Metrics accepts h r (w, s) = (c, w', s')"
  obtain c1 w1 s1 where h: "h r (w, add_in_flight 1 s) = (c1, w1, s1)" by (rule prod_cases3)
  have "P (tbl (sv_pg s1))" using keepsD[OF assms _ h] p by simp
  with r h show "P (tbl (sv_pg s'))" by (cases c1) (auto simp: Metrics_def Let_def split: if_splits)
qed

lemma keeps_RequestLogging:
  assumes "keeps P h r"
  shows "keeps P (RequestLogging h) r"
proof (rule keepsI)
  fix w w' c s s'
  assume p: "P (tbl (sv_pg s))" and r: "RequestLogging h r (w, s) = (c, w', s')"
  obtain c1 w1 s1 where h: "h r (w, s) = (c1, w1, s1)" by (rule prod_cases3)
  have "P (tbl (sv_pg s1))" using keepsD[OF assms p h] .
  with r h show "P (tbl (sv_pg s'))" by (cases c1) (auto simp: RequestLogging_def Let_def)
qed

lemma keeps_SecurityHeaders: "keeps P h r \<Longrightarrow> keeps P (SecurityHeaders h) r"
  by (simp add: keeps_def SecurityHeaders_def)

lemma keeps_Recover:
  assumes "keeps P h r"
  shows "keeps P (Recover h) r"
proof (rule keepsI)
  fix w w' c s s'
  assume p: "P (tbl (sv_pg s))" and r: "Recover h r (w, s) = (c, w', s')"
  obtain c1 w1 s1 where h: "h r (w, s) = (c1, w1, s1)" by (rule prod_cases3)
  have "P (tbl (sv_pg s1))" using keepsD[OF assms p h] .
  with r h show "P (tbl (sv_pg s'))" by (cases c1) (auto simp: Recover_def)
qed

lemmas keeps_middleware = keeps_Recover keeps_SecurityHeaders keeps_RequestLogging keeps_Metrics

end
