(* ===== verification/Endpoints.thy ===== *)
theory Endpoints
  imports Router Request_Properties Ranking_Properties
begin

text \<open>
  What the endpoints do to the tables: every one of them keeps the invariant of the vote tables,
  whatever fails on the way, and so does a request through the whole middleware stack.
\<close>

section \<open>Every endpoint keeps the invariant\<close>

text \<open>
  An application is well formed when identifiers generated by the server are canonical; a request
  is honest when the user id its accepted token carries is canonical, as those the service puts
  into tokens are.
\<close>

definition app_ok :: "pg_lib \<Rightarrow> 'r app \<Rightarrow> bool" where
  "app_ok L A \<longleftrightarrow> ap_lib A = L \<and> parse_uuid L (ap_gen A) = Some (ap_gen A)"

definition honest :: "'r app \<Rightarrow> request \<Rightarrow> bool" where
  "honest A r \<longleftrightarrow> (\<forall>c. authenticated (ap_env A) r = Some c \<longrightarrow>
     parse_uuid (ap_lib A) (tc_UserID c) = Some (tc_UserID c))"

lemma GetUserID_set [simp]: "GetUserID (r\<lparr>hr_UserID := Some u\<rparr>) = (u, u \<noteq> [])"
  by (simp add: GetUserID_def)

lemma Register_handler_keeps:
  assumes "parse_uuid L gen = Some gen" and "vote_invariant L (tbl p)"
    and "AuthHandler_Register E (postgres_UserRepo L now gen) r (w, p) = (c, w', p')"
  shows "vote_invariant L (tbl p')"
  using assms(2,3) Register_keeps_invariant(1)[OF _ assms(1)]
  by (auto simp: AuthHandler_Register_def Let_def split: option.splits if_splits sum.splits prod.splits)

lemma Login_handler_tables:
  assumes "AuthHandler_Login E (postgres_UserRepo L now gen) r (w, p) = (c, w', p')"
  shows "tbl p' = tbl p"
  using assms
  by (auto simp: AuthHandler_Login_def Let_def split: option.splits if_splits sum.splits prod.splits
      dest: Login_tables)

lemma Submit_handler_keeps:
  assumes "parse_uuid L gen = Some gen" and "vote_invariant L (tbl p)"
    and "RequestsHandler_Submit E (postgres_RequestRepo L now gen) r (w, p) = (c, w', p')"
  shows "vote_invariant L (tbl p')"
  using assms(2,3) Submit_keeps_invariant[OF _ assms(1)]
  by (auto simp: RequestsHandler_Submit_def Let_def split: option.splits if_splits sum.splits prod.splits)

lemma List_tables:
  assumes "RankingService_List (postgres_RankingRepo L) params p = (x, p')"
  shows "tbl p' = tbl p"
proof -
  have "tbl (snd (ranking_lister (postgres_RankingRepo L) mode q p)) = tbl p" for mode q
    by (simp add: postgres_ranking_lister ListRequestsByNew_tbl ListRequestsByTop_tbl)
  then show ?thesis
    using assms by (auto simp: RankingService_List_page list_page_def split: sum.splits prod.splits) (metis snd_conv)+
qed

lemma List_handler_tables:
  assumes "RequestsHandler_List E (postgres_RankingRepo L) r (w, p) = (c, w', p')"
  shows "tbl p' = tbl p"
  using assms
  by (auto simp: RequestsHandler_List_def Let_def split: if_splits sum.splits prod.splits dest: List_tables)

lemma GetByID_handler_tables:
  assumes "RequestsHandler_GetByID E (postgres_RequestRepo L now gen) r (w, p) = (c, w', p')"
  shows "tbl p' = tbl p"
proof -
  obtain x s where g: "GetFeatureRequest L (hr_URLParam r ''id'') (fst (GetUserID r)) p = (x, s)"
    by (cases "GetFeatureRequest L (hr_URLParam r ''id'') (fst (GetUserID r)) p")
  have "tbl s = tbl p" using GetFeatureRequest_tbl[of L "hr_URLParam r ''id''" "fst (GetUserID r)" p] g by simp
  then show ?thesis
    using assms g
    by (auto simp: RequestsHandler_GetByID_def GetByID_def postgres_RequestRepo_def Let_def
        split: if_splits sum.splits prod.splits)
qed

lemma Upvote_handler_keeps:
  assumes "fst (GetUserID r) = u" and "parse_uuid L u = Some u" and "vote_invariant L (tbl p)"
    and "VotesHandler_Upvote E (postgres_VoteRepo L now) r (w, p) = (c, w', p')"
  shows "vote_invariant L (tbl p')"
  using assms(1,3,4) Upvote_keeps_invariant[OF _ assms(2)]
  by (auto simp: VotesHandler_Upvote_def Let_def split: if_splits sum.splits prod.splits)

lemma RemoveVote_handler_keeps:
  assumes "vote_invariant L (tbl p)"
    and "VotesHandler_RemoveVote E (postgres_VoteRepo L now) r (w, p) = (c, w', p')"
  shows "vote_invariant L (tbl p')"
  using assms RemoveVote_keeps_invariant
  by (auto simp: VotesHandler_RemoveVote_def Let_def split: if_splits sum.splits prod.splits)

lemma keeps_protected:
  assumes "\<And>u w p c w' p'. authenticated (ap_env A) r = Some u \<Longrightarrow> P (tbl p) \<Longrightarrow>
      h (r\<lparr>hr_UserID := Some (tc_UserID u)\<rparr>) (w, p) = (c, w', p') \<Longrightarrow> P (tbl p')"
  shows "keeps P (protected A h) r"
  unfolding protected_def
  by (rule keeps_Auth, rule keeps_RateLimit, rule keeps_with_pg) (rule assms)

lemma Readyz_tables: "Readyz J R r (w, s) = (c, w', s') \<Longrightarrow> tbl (sv_pg s') = tbl (sv_pg s)"
proof -
  have ping: "pool_Ping p = (x, q) \<Longrightarrow> tbl q = tbl p" for p q x
    using run_stmt_reads[of "\<lambda>t. Inr ((), t)" p] by (simp add: pool_Ping_def reads_only_def)
  show "Readyz J R r (w, s) = (c, w', s') \<Longrightarrow> tbl (sv_pg s') = tbl (sv_pg s)"
    by (auto simp: Readyz_def Let_def split: prod.splits dest!: ping with_redis_pg')
qed

lemma endpoint_keeps_invariant:
  assumes "app_ok L A" and "honest A r"
  shows "keeps (vote_invariant L) (endpoint_handler A ep) r"
proof (cases ep)
  case EpReadyz
  then show ?thesis by (auto intro!: keepsI dest: Readyz_tables)
next
  case EpRefresh
  then show ?thesis
    by (auto intro!: keepsI simp: AuthHandler_Refresh_def Let_def split: option.splits sum.splits)
next
  case EpUpvote
  have "parse_uuid L (tc_UserID u) = Some (tc_UserID u)" if "authenticated (ap_env A) r = Some u" for u
    using assms that by (simp add: app_ok_def honest_def)
  with EpUpvote assms(1) show ?thesis
    by (auto simp: app_ok_def intro!: keeps_protected elim!: Upvote_handler_keeps[rotated 3])
qed (use assms(1) in \<open>auto simp: app_ok_def Healthz_def Health_def intro!: keepsI keeps_with_pg keeps_protected
      elim: Register_handler_keeps[rotated 2] Submit_handler_keeps[rotated 2] RemoveVote_handler_keeps[rotated]
      dest: Login_handler_tables List_handler_tables GetByID_handler_tables\<close>)

lemma serve_keeps:
  assumes "\<And>ep i. keeps P (endpoint_handler A ep) (r\<lparr>hr_UserID := None, hr_URLParam := (\<lambda>_. i)\<rparr>)"
    and "P (tbl (sv_pg s))"
  shows "P (tbl (sv_pg (snd (serve A r s))))"
proof -
  have "keeps P (dispatch A) (r\<lparr>hr_UserID := None\<rparr>)"
    using assms(1) by (auto simp: keeps_def dispatch_def split: routed.split)
  then have "keeps P (server_handler A) (r\<lparr>hr_UserID := None\<rparr>)"
    unfolding server_handler_def by (intro keeps_middleware)
  from keepsD[OF this assms(2), of fresh_response] show ?thesis
    by (auto simp: serve_def split: prod.splits)
qed

lemma serve_keeps_invariant:
  assumes "app_ok L A" and "honest A r" and "vote_invariant L (tbl (sv_pg s))"
  shows "vote_invariant L (tbl (sv_pg (snd (serve A r s))))"
proof (rule serve_keeps)
  fix ep i
  show "keeps (vote_invariant L) (endpoint_handler A ep) (r\<lparr>hr_UserID := None, hr_URLParam := \<lambda>_. i\<rparr>)"
    by (rule endpoint_keeps_invariant[OF assms(1)]) (use assms(2) in \<open>simp add: honest_def\<close>)
qed (rule assms(3))

end
