(* ===== verification/Sessions.thy ===== *)
theory Sessions
  imports Endpoints
begin

text \<open>
  Who holds tokens. The three account handlers sign tokens for a user only: the one just created,
  the one whose password was checked, or the one a valid refresh token names. The functions below
  read that user off the handlers' own computations, and the lemmas show that the answers carry
  tokens of that user and of nobody else.
\<close>

section \<open>The user an account endpoint signs for\<close>

definition register_subject :: "env \<Rightarrow> 's UserRepo \<Rightarrow> request \<Rightarrow> 's \<Rightarrow> string option" where
  "register_subject E repo r s =
     (case Decode (e_json E) [''email'', ''password''] (hr_Body r) of
        None \<Rightarrow> None
      | Some req \<Rightarrow>
          if req ''email'' = [] \<or> req ''password'' = [] then None
          else (case fst (Register (e_auth E) (e_salt E) repo (req ''email'') (req ''password'') s) of
                  Inl e \<Rightarrow> None | Inr user \<Rightarrow> Some (ur_ID user)))"

definition login_subject :: "env \<Rightarrow> 's UserRepo \<Rightarrow> request \<Rightarrow> 's \<Rightarrow> string option" where
  "login_subject E repo r s =
     (case Decode (e_json E) [''email'', ''password''] (hr_Body r) of
        None \<Rightarrow> None
      | Some req \<Rightarrow>
          (case fst (Login (e_auth E) repo (req ''email'') (req ''password'') s) of
             Inl e \<Rightarrow> None | Inr user \<Rightarrow> Some (ur_ID user)))"

definition refresh_subject :: "env \<Rightarrow> request \<Rightarrow> string option" where
  "refresh_subject E r =
     (case Decode (e_json E) [''refresh_token''] (hr_Body r) of
        None \<Rightarrow> None
      | Some req \<Rightarrow>
          (case VerifyRefreshToken (e_auth E) (e_svc E) (e_now E) (req ''refresh_token'') of
             Inl e \<Rightarrow> None | Inr claims \<Rightarrow> Some (tc_UserID claims)))"

text \<open>An error answer, with or without an error line before it.\<close>

definition refused_with :: "env \<Rightarrow> int \<Rightarrow> response \<Rightarrow> response \<Rightarrow> bool" where
  "refused_with E st w w' \<longleftrightarrow>
     (\<exists>code msg ls. w' = writeError (e_json E) st code msg (w\<lparr>w_log := ls\<rparr>))"

lemma refused_withI [intro, simp]:
  "refused_with E st w (writeError (e_json E) st code msg w)"
  "refused_with E st w (writeError (e_json E) st code msg (log_Error m attrs w))"
proof -
  have "w = w\<lparr>w_log := w_log w\<rparr>" by simp
  then show "refused_with E st w (writeError (e_json E) st code msg w)"
    unfolding refused_with_def by metis
  have "log_Error m attrs w = w\<lparr>w_log := w_log (log_Error m attrs w)\<rparr>" by (simp add: log_Error_def)
  then show "refused_with E st w (writeError (e_json E) st code msg (log_Error m attrs w))"
    unfolding refused_with_def by metis
qed

lemma Register_handler_answer:
  assumes "AuthHandler_Register E repo r (w, s) = (c, w', s')"
  shows "(\<exists>u a b. register_subject E repo r s = Some u \<and> IssueAccessToken (e_auth E) (e_svc E) (e_now E) u = Inr a
        \<and> IssueRefreshToken (e_auth E) (e_svc E) (e_now E) u = Inr b
        \<and> w' = writeJSON (e_json E) 201 (json_authResponse a b) w)
     \<or> (\<exists>st \<in> {400, 409, 500}. refused_with E st w w')"
  using assms
  by (auto simp: AuthHandler_Register_def register_subject_def Let_def
      split: option.splits if_splits sum.splits prod.splits)

lemma Login_handler_answer:
  assumes "AuthHandler_Login E repo r (w, s) = (c, w', s')"
  shows "(\<exists>u. login_subject E repo r s = Some u
        \<and> w' = writeJSON (e_json E) 200 (json_authResponse
            (token_or_empty (IssueAccessToken (e_auth E) (e_svc E) (e_now E) u))
            (token_or_empty (IssueRefreshToken (e_auth E) (e_svc E) (e_now E) u))) w)
     \<or> (\<exists>st \<in> {400, 401, 500}. refused_with E st w w')"
  using assms
  by (auto simp: AuthHandler_Login_def login_subject_def Let_def
      split: option.splits if_splits sum.splits prod.splits)

lemma Refresh_handler_answer:
  assumes "AuthHandler_Refresh E r (w, s) = (c, w', s')"
  shows "s' = s \<and>
     ((\<exists>u a. refresh_subject E r = Some u \<and> IssueAccessToken (e_auth E) (e_svc E) (e_now E) u = Inr a
        \<and> w' = writeJSON (e_json E) 200 (JObj [(''access_token'', JStr a)]) w)
     \<or> (\<exists>st \<in> {400, 401, 500}. refused_with E st w w'))"
  using assms
  by (auto simp: AuthHandler_Refresh_def refresh_subject_def Let_def
      split: option.splits sum.splits)

section \<open>Accounts\<close>

definition accounts :: "tables \<Rightarrow> string set" where
  "accounts t = u_id ` set (users t)"

lemma accounts_users: "users t' = users t \<Longrightarrow> accounts t' = accounts t"
  by (simp add: accounts_def)

lemma Register_accounts:
  assumes "Register A salt_read (postgres_UserRepo L now gen) email password s = (r, s')"
  shows "accounts (tbl s) \<subseteq> accounts (tbl s')" and "r = Inr u \<Longrightarrow> ur_ID u \<in> accounts (tbl s')"
proof -
  have "accounts (tbl s) \<subseteq> accounts (tbl s') \<and> (\<forall>u. r = Inr u \<longrightarrow> ur_ID u \<in> accounts (tbl s'))"
  proof (cases "HashPassword A salt_read password")
    case (Inl e)
    with assms show ?thesis by (auto simp: Register_def)
  next
    case (Inr h)
    obtain rc s1 where c: "CreateUser L now gen email h s = (rc, s1)" by (cases "CreateUser L now gen email h s")
    have r: "s1 = s'" "\<And>u. r = Inr u \<Longrightarrow> rc = Inr u"
      using assms Inr c by (auto simp: Register_def postgres_UserRepo_def split: sum.splits if_splits)
    from c show ?thesis
    proof (cases rule: CreateUser_cases)
      case (unchanged e)
      with r show ?thesis by auto
    next
      case (created u)
      with r show ?thesis by (auto simp: accounts_def user_record_def)
    qed
  qed
  then show "accounts (tbl s) \<subseteq> accounts (tbl s')" "r = Inr u \<Longrightarrow> ur_ID u \<in> accounts (tbl s')" by blast+
qed

lemma Login_account:
  assumes "Login A (postgres_UserRepo L now gen) email password s = (Inr u, s')" and "tables_ok L (tbl s)"
  shows "ur_ID u \<in> accounts (tbl s)"
proof -
  obtain g s1 where g: "GetUserByEmail L email s = (g, s1)" by (cases "GetUserByEmail L email s")
  with assms(1) have "g = Inr u" by (auto simp: Login_def postgres_UserRepo_def split: sum.splits if_splits)
  with GetUserByEmail_ok[of L email s u s1] g assms(2) obtain row where
    "user_of_email L (tbl s) email = Some row" "u = user_record row" by auto
  then show ?thesis using user_of_email_Some[of L "tbl s" email row] by (auto simp: accounts_def user_record_def)
qed

text \<open>Everything but a registration leaves the accounts as they are.\<close>

lemma add_vote_users [simp]: "users (add_vote now u r t) = users t"
  and drop_vote_users [simp]: "users (drop_vote now u r t) = users t"
  by (simp_all add: add_vote_def drop_vote_def)

lemma InsertVote_users:
  assumes "InsertVote L now u i s = (r, s')"
  shows "users (tbl s') = users (tbl s)"
  using InsertVote_atomic[OF assms] by (auto elim: insert_vote_tx_cases)

lemma DeleteVote_users:
  assumes "DeleteVote L now u i s = (r, s')"
  shows "users (tbl s') = users (tbl s)"
  using DeleteVote_atomic[OF assms] by (auto elim: delete_vote_tx_cases)

lemma Upvote_users:
  assumes "Upvote (postgres_VoteRepo L now) u i s = (r, s')"
  shows "users (tbl s') = users (tbl s)"
proof -
  obtain ra s1 where a: "GetRequestAuthorID L i s = (ra, s1)" by (cases "GetRequestAuthorID L i s")
  obtain rb s2 where b: "InsertVote L now u i s1 = (rb, s2)" by (cases "InsertVote L now u i s1")
  obtain rc s3 where c: "GetVoteCount L i s2 = (rc, s3)" by (cases "GetVoteCount L i s2")
  have "s' \<in> {s1, s2, s3}"
    using assms by (auto simp: Upvote_def postgres_VoteRepo_def a b c split: sum.splits if_splits)
  moreover have "tbl s1 = tbl s" "tbl s3 = tbl s2"
    using GetRequestAuthorID_tbl[of L i s] GetVoteCount_tbl[of L i s2] a c by simp_all
  ultimately show ?thesis using InsertVote_users[OF b] by auto
qed

lemma RemoveVote_users:
  assumes "RemoveVote (postgres_VoteRepo L now) u i s = (r, s')"
  shows "users (tbl s') = users (tbl s)"
proof -
  obtain ra s1 where a: "GetRequestAuthorID L i s = (ra, s1)" by (cases "GetRequestAuthorID L i s")
  obtain rb s2 where b: "DeleteVote L now u i s1 = (rb, s2)" by (cases "DeleteVote L now u i s1")
  obtain rc s3 where c: "GetVoteCount L i s2 = (rc, s3)" by (cases "GetVoteCount L i s2")
  have "s' \<in> {s1, s2, s3}"
    using assms by (auto simp: RemoveVote_def postgres_VoteRepo_def a b c split: sum.splits)
  moreover have "tbl s1 = tbl s" "tbl s3 = tbl s2"
    using GetRequestAuthorID_tbl[of L i s] GetVoteCount_tbl[of L i s2] a c by simp_all
  ultimately show ?thesis using DeleteVote_users[OF b] by auto
qed

lemma Submit_users:
  assumes "Submit (postgres_RequestRepo L now gen) u t d s = (res, s')"
  shows "users (tbl s') = users (tbl s)"
  using Submit_tables[OF assms] by (auto simp: add_request_def)

lemma handlers_keep_users:
  "VotesHandler_Upvote E (postgres_VoteRepo L now) r (w, p) = (c, w', p') \<Longrightarrow> users (tbl p') = users (tbl p)"
  "VotesHandler_RemoveVote E (postgres_VoteRepo L now) r (w, p) = (c, w', p') \<Longrightarrow> users (tbl p') = users (tbl p)"
  "RequestsHandler_Submit E (postgres_RequestRepo L now gen) r (w, p) = (c, w', p') \<Longrightarrow> users (tbl p') = users (tbl p)"
  by (auto simp: VotesHandler_Upvote_def VotesHandler_RemoveVote_def RequestsHandler_Submit_def Let_def
      split: option.splits if_splits sum.splits prod.splits dest: Upvote_users RemoveVote_users Submit_users)

lemma Register_handler_accounts:
  assumes "AuthHandler_Register E (postgres_UserRepo L now gen) r (w, p) = (c, w', p')"
  shows "accounts (tbl p) \<subseteq> accounts (tbl p')"
    and "register_subject E (postgres_UserRepo L now gen) r p = Some u \<Longrightarrow> u \<in> accounts (tbl p')"
  using assms Register_accounts
  by (fastforce simp: AuthHandler_Register_def register_subject_def Let_def
      split: option.splits if_splits sum.splits prod.splits)+

lemma keeps_accounts: "keeps (\<lambda>t. G \<subseteq> accounts t) (endpoint_handler A ep) r"
proof (cases ep)
  case EpRegister
  then show ?thesis by (auto intro!: keeps_with_pg dest: Register_handler_accounts(1))
next
  case EpReadyz
  then show ?thesis by (auto intro!: keepsI dest!: Readyz_tables)
next
  case EpRefresh
  then show ?thesis by (auto intro!: keepsI dest: Refresh_handler_answer)
qed (auto simp: Healthz_def Health_def accounts_def intro!: keepsI keeps_with_pg keeps_protected
      dest!: Login_handler_tables List_handler_tables GetByID_handler_tables handlers_keep_users)

section \<open>Tokens in circulation\<close>

text \<open>
  \<open>signed_for\<close>: the user a request makes the server sign tokens for. A request is unforged, for the
  set \<open>G\<close> of users tokens have been signed for, when every token of it that the service accepts is
  a token of one of them: nobody but the service knows its secrets.
\<close>

definition signed_for :: "'r app \<Rightarrow> request \<Rightarrow> pg \<Rightarrow> string option" where
  "signed_for A r p =
     (case route (hr_Method r) (hr_Path r) of
        Matched EpRegister i \<Rightarrow> register_subject (ap_env A) (postgres_UserRepo (ap_lib A) (ap_pg_now A) (ap_gen A)) r p
      | Matched EpLogin i \<Rightarrow> login_subject (ap_env A) (postgres_UserRepo (ap_lib A) (ap_pg_now A) (ap_gen A)) r p
      | Matched EpRefresh i \<Rightarrow> refresh_subject (ap_env A) r
      | _ \<Rightarrow> None)"

definition unforged :: "'r app \<Rightarrow> request \<Rightarrow> string set \<Rightarrow> bool" where
  "unforged A r G \<longleftrightarrow>
     (\<forall>c. authenticated (ap_env A) r = Some c \<longrightarrow> tc_UserID c \<in> G)
   \<and> (\<forall>i u. route (hr_Method r) (hr_Path r) = Matched EpRefresh i \<longrightarrow> refresh_subject (ap_env A) r = Some u \<longrightarrow> u \<in> G)"

lemma subject_entry [simp]:
  "register_subject E repo (entry r i) s = register_subject E repo r s"
  "login_subject E repo (entry r i) s = login_subject E repo r s"
  "refresh_subject E (entry r i) = refresh_subject E r"
  by (simp_all add: register_subject_def login_subject_def refresh_subject_def entry_def)

lemma serve_keeps_accounts: "accounts (tbl (sv_pg s)) \<subseteq> accounts (tbl (sv_pg (snd (serve A r s))))"
  by (rule serve_keeps[where P = "\<lambda>t. accounts (tbl (sv_pg s)) \<subseteq> accounts t"]) (simp_all add: keeps_accounts)

lemma signed_for_account:
  assumes "tables_ok (ap_lib A) (tbl (sv_pg s))" and "unforged A r G" and "G \<subseteq> accounts (tbl (sv_pg s))"
    and "signed_for A r (sv_pg s) = Some u"
  shows "u \<in> accounts (tbl (sv_pg (snd (serve A r s))))"
proof -
  let ?repo = "postgres_UserRepo (ap_lib A) (ap_pg_now A) (ap_gen A)"
  from assms(4) obtain ep i where m: "route (hr_Method r) (hr_Path r) = Matched ep i"
    by (auto simp: signed_for_def split: routed.splits)
  have kept: "x \<in> accounts (tbl (sv_pg (snd (serve A r s))))" if "x \<in> accounts (tbl (sv_pg s))" for x
    using that serve_keeps_accounts by blast
  consider (reg) "ep = EpRegister" "register_subject (ap_env A) ?repo r (sv_pg s) = Some u"
    | (login) "login_subject (ap_env A) ?repo r (sv_pg s) = Some u"
    | (refresh) "ep = EpRefresh" "refresh_subject (ap_env A) r = Some u"
    using assms(4) m by (auto simp: signed_for_def split: endpoint.splits)
  then show ?thesis
  proof cases
    case reg
    obtain c w p where h: "AuthHandler_Register (ap_env A) ?repo (entry r i) (set_security_headers fresh_response, sv_pg s) = (c, w, p)"
      by (rule prod_cases3)
    have "sv_pg (snd (serve A r s)) = p" using serve_pg[OF m, of A s] reg(1) h by (simp add: with_pg_def)
    with Register_handler_accounts(2)[OF h] reg(2) show ?thesis by simp
  next
    case login
    then obtain e q a where l: "fst (Login (e_auth (ap_env A)) ?repo e q (sv_pg s)) = Inr a" "ur_ID a = u"
      by (auto simp: login_subject_def split: option.splits sum.splits)
    then have "Login (e_auth (ap_env A)) ?repo e q (sv_pg s) = (Inr a, snd (Login (e_auth (ap_env A)) ?repo e q (sv_pg s)))"
      by (simp add: prod_eq_iff)
    with Login_account[OF _ assms(1)] l(2) kept show ?thesis by metis
  next
    case refresh
    with assms(2,3) m kept show ?thesis by (auto simp: unforged_def)
  qed
qed

end
