(* ===== verification/System.thy ===== *)
theory System
  imports Sessions
begin

text \<open>
  The running system as a step relation: requests served one after the other by the whole
  middleware and handler stack, ticks of the two background jobs, and an environment that
  may schedule any faults of PostgreSQL and put Redis into any state. A state carries the users
  tokens have been signed for; a request may use any token of theirs, but no forged one.
\<close>

section \<open>Steps\<close>

definition on_world :: "('r world \<Rightarrow> 'r world) \<Rightarrow> 'r server \<Rightarrow> 'r server" where
  "on_world f s = (case f (sv_pg s, sv_redis s) of (p, d) \<Rightarrow> s\<lparr>sv_pg := p, sv_redis := d\<rparr>)"

text \<open>A state is the server with the set of users tokens have been signed for so far.\<close>

inductive step :: "pg_lib \<Rightarrow> 'r server \<times> string set \<Rightarrow> 'r server \<times> string set \<Rightarrow> bool" for L where
  request: "app_ok L A \<Longrightarrow> unforged A r G \<Longrightarrow>
     step L (s, G) (snd (serve A r s), G \<union> set_option (signed_for A r (sv_pg s)))"
| reconcile_tick: "step L (s, G) (on_world (\<lambda>w. snd (reconcile (reconcileStoreAdapter R L now) w)) s, G)"
| trending_tick: "step L (s, G) (on_world (\<lambda>w. snd (recompute F clock (trendingStoreAdapter R) w)) s, G)"
| faults_scheduled: "step L (s, G) (s\<lparr>sv_pg := (sv_pg s)\<lparr>faults := fs\<rparr>\<rparr>, G)"
| redis_changes: "step L (s, G) (s\<lparr>sv_redis := d\<rparr>, G)"

definition empty_tables :: tables where
  "empty_tables = \<lparr>users = [], feature_requests = [], votes = []\<rparr>"

inductive reachable :: "pg_lib \<Rightarrow> 'r server \<times> string set \<Rightarrow> bool" for L where
  start: "tbl (sv_pg s) = empty_tables \<Longrightarrow> reachable L (s, {})"
| step: "reachable L x \<Longrightarrow> step L x y \<Longrightarrow> reachable L y"

inductive_cases step_cases: "step L (s, G) y"

lemma empty_tables_invariant: "vote_invariant L empty_tables"
  by (simp add: empty_tables_def vote_invariant_def tables_ok_def counts_exact_def no_self_votes_def)

lemma recompute_tables: "tbl (fst (snd (recompute F clock (trendingStoreAdapter R) w))) = tbl (fst w)"
proof -
  obtain x w1 where g: "on_pg GetAllRequests w = (x, w1)" by (cases "on_pg GetAllRequests w")
  then have "tbl (fst w1) = tbl (fst w)" by (auto elim!: on_pg_cases dest: GetAllRequests_cases(1))
  then show ?thesis
    using g by (auto simp: recompute_def trendingStoreAdapter_def[of R] split: sum.split)
       (metis recompute_loop_pg trendingStoreAdapter_def)
qed

lemma reconcile_tick_invariant:
  assumes "vote_invariant L (tbl (fst w))"
  shows "vote_invariant L (tbl (fst (snd (reconcile (reconcileStoreAdapter R L now) w))))"
proof -
  obtain x w' where e: "reconcile (reconcileStoreAdapter R L now) w = (x, w')"
    by (cases "reconcile (reconcileStoreAdapter R L now) w")
  have "tables_ok L (tbl (fst w))" using assms by (simp add: vote_invariant_def)
  note pass = reconcile_pass(2,3,4)[OF this e]
  with assms untouched_no_self_votes[OF pass(2)] show ?thesis by (simp add: e vote_invariant_def)
qed

text \<open>
  The invariant of the system: that of the vote tables, and that every user a token names has an
  account. It makes every unforged request honest.
\<close>

definition system_ok :: "pg_lib \<Rightarrow> 'r server \<times> string set \<Rightarrow> bool" where
  "system_ok L x \<longleftrightarrow> vote_invariant L (tbl (sv_pg (fst x))) \<and> snd x \<subseteq> accounts (tbl (sv_pg (fst x)))"

lemma unforged_honest:
  assumes "app_ok L A" and "unforged A r G" and "system_ok L (s, G)"
  shows "honest A r"
  using assms unfolding honest_def unforged_def system_ok_def app_ok_def vote_invariant_def tables_ok_def accounts_def
  by fastforce

lemma request_keeps_system:
  assumes "app_ok L A" and "unforged A r G" and "system_ok L (s, G)"
  shows "system_ok L (snd (serve A r s), G \<union> set_option (signed_for A r (sv_pg s)))"
proof -
  have L: "ap_lib A = L" using assms(1) by (simp add: app_ok_def)
  have inv: "vote_invariant L (tbl (sv_pg s))" and G: "G \<subseteq> accounts (tbl (sv_pg s))"
    using assms(3) by (simp_all add: system_ok_def)
  then have "tables_ok (ap_lib A) (tbl (sv_pg s))" by (simp add: vote_invariant_def L)
  from signed_for_account[OF this assms(2) G]
  have "set_option (signed_for A r (sv_pg s)) \<subseteq> accounts (tbl (sv_pg (snd (serve A r s))))" by auto
  moreover have "G \<subseteq> accounts (tbl (sv_pg (snd (serve A r s))))" using G serve_keeps_accounts by blast
  moreover have "vote_invariant L (tbl (sv_pg (snd (serve A r s))))"
    by (rule serve_keeps_invariant[OF assms(1) unforged_honest[OF assms] inv])
  ultimately show ?thesis by (simp add: system_ok_def)
qed

lemma reconcile_tick_users:
  assumes "tables_ok L (tbl (fst w))"
  shows "users (tbl (fst (snd (reconcile (reconcileStoreAdapter R L now) w)))) = users (tbl (fst w))"
proof -
  obtain x w' where e: "reconcile (reconcileStoreAdapter R L now) w = (x, w')"
    by (cases "reconcile (reconcileStoreAdapter R L now) w")
  with reconcile_pass(3)[OF assms e] show ?thesis by (simp add: untouched_def)
qed

lemma on_world_pg: "sv_pg (on_world f s) = fst (f (sv_pg s, sv_redis s))"
  by (simp add: on_world_def split: prod.split)

text \<open>Nobody loses an account, and no token is taken back.\<close>

lemma step_tokens_grow: "step L (s, G) (s', G') \<Longrightarrow> G \<subseteq> G'"
  by (auto elim: step_cases)

lemma step_keeps_system:
  assumes "step L x y" and "system_ok L x"
  shows "system_ok L y"
  using assms
proof (induction rule: step.induct)
  case (request A r G s)
  then show ?case by (rule request_keeps_system)
next
  case (reconcile_tick s G R now)
  then have "vote_invariant L (tbl (sv_pg s))" "tables_ok L (tbl (sv_pg s))"
    by (simp_all add: system_ok_def vote_invariant_def)
  with reconcile_tick reconcile_tick_invariant[of L "(sv_pg s, sv_redis s)" R now]
    reconcile_tick_users[of L "(sv_pg s, sv_redis s)" R now]
  show ?case by (simp add: system_ok_def on_world_pg accounts_def)
next
  case (trending_tick s G F clock R)
  with recompute_tables[of F clock R "(sv_pg s, sv_redis s)"] show ?case
    by (simp add: system_ok_def on_world_pg)
qed (simp_all add: system_ok_def)

lemma reachable_system: "reachable L x \<Longrightarrow> system_ok L x"
proof (induction rule: reachable.induct)
  case (start s)
  then show ?case by (simp add: system_ok_def empty_tables_invariant)
qed (rule step_keeps_system)

end
