(* ===== verification/Responses.thy ===== *)
theory Responses
  imports Router
begin

text \<open>
  What every handler of the server does to the response: it answers exactly once, with one status
  line, and leaves the security headers in place. The lemmas lift this through the middleware.
\<close>

definition security :: "(string \<times> string) list" where
  "security =
     [(''X-Content-Type-Options'', ''nosniff''), (''X-Frame-Options'', ''DENY''),
      (''X-XSS-Protection'', ''1; mode=block''), (''Referrer-Policy'', ''strict-origin-when-cross-origin''),
      (''Content-Security-Policy'', ''default-src '' @ CHR 0x27 # ''none'' @ [CHR 0x27])]"

definition has_security :: "header \<Rightarrow> bool" where
  "has_security h \<longleftrightarrow> (\<forall>(k, v) \<in> set security. h k = Some v)"

text \<open>\<open>answered n w\<close>: one status was written after the first \<open>n\<close> calls, and it is the one sent.\<close>

definition answered :: "response \<Rightarrow> response \<Rightarrow> bool" where
  "answered w w' \<longleftrightarrow> (\<exists>c h. w_calls w' = w_calls w @ [c] \<and> w_sent w' = Some (c, h)
     \<and> (has_security (w_header w) \<longrightarrow> has_security h))"

lemma has_security_update:
  "has_security h \<Longrightarrow> k \<notin> fst ` set security \<or> (k, v) \<in> set security \<Longrightarrow> has_security (h(k \<mapsto> v))"
  by (auto simp: has_security_def security_def)

lemma has_security_delete: "has_security h \<Longrightarrow> k \<notin> fst ` set security \<Longrightarrow> has_security (h(k := None))"
  by (auto simp: has_security_def rev_image_eqI)

lemma set_security_headers_has [simp]: "has_security (w_header (set_security_headers w))"
  by (simp add: has_security_def security_def set_security_headers_def Header_Set_def)

lemma answered_WriteHeader: "w_sent w = None \<Longrightarrow> answered w (WriteHeader c w)"
  by (simp add: answered_def WriteHeader_def send_status_def)

lemma answered_Write: "answered w w' \<Longrightarrow> answered w (Write text w')"
  by (auto simp: answered_def Write_def send_status_def Let_def)

lemma answered_Header_Set:
  assumes "answered (Header_Set k v w) w'" and "k \<notin> fst ` set security \<or> (k, v) \<in> set security"
  shows "answered w w'"
  using assms has_security_update[of "w_header w" k v] by (auto simp: answered_def Header_Set_def)

lemma answered_writeJSON: "w_sent w = None \<Longrightarrow> answered w (writeJSON J c x w)"
  unfolding writeJSON_def
  by (rule answered_Header_Set, rule answered_Write, rule answered_WriteHeader) (simp_all add: security_def)

lemma answered_writeError: "w_sent w = None \<Longrightarrow> answered w (writeError J c err msg w)"
  by (simp add: writeError_def answered_writeJSON)

lemma answered_http_Error:
  assumes "w_sent w = None"
  shows "answered w (http_Error msg c w)"
proof -
  let ?w0 = "w\<lparr>w_header := (w_header w)(''Content-Length'' := None)\<rparr>"
  have "answered ?w0 (http_Error msg c w)"
    unfolding http_Error_def
    by (rule answered_Header_Set, rule answered_Header_Set, rule answered_Write, rule answered_WriteHeader)
       (simp_all add: assms security_def)
  then show ?thesis
    using has_security_delete[of "w_header w" "''Content-Length''"] by (auto simp: answered_def security_def)
qed

lemma answered_list_headers:
  assumes "answered (Header_Set ''Cache-Control'' x (Header_Set ''ETag'' y w)) w'"
  shows "answered w w'"
  by (rule answered_Header_Set, rule answered_Header_Set, rule assms) (simp_all add: security_def)

lemma answered_list:
  assumes "w_sent w = None"
  shows "answered w (WriteHeader 304 (Header_Set ''Cache-Control'' x (Header_Set ''ETag'' y w)))"
    and "answered w (writeJSON J c j (Header_Set ''Cache-Control'' x (Header_Set ''ETag'' y w)))"
proof -
  show "answered w (WriteHeader 304 (Header_Set ''Cache-Control'' x (Header_Set ''ETag'' y w)))"
    by (rule answered_list_headers, rule answered_WriteHeader) (simp add: assms)
  show "answered w (writeJSON J c j (Header_Set ''Cache-Control'' x (Header_Set ''ETag'' y w)))"
    by (rule answered_list_headers, rule answered_writeJSON) (simp add: assms)
qed

lemma answered_retry:
  assumes "answered (Header_Set ''Retry-After'' x w) w'"
  shows "answered w w'"
  by (rule answered_Header_Set, rule assms) (simp add: security_def)

lemma answered_log_Error: "answered (log_Error msg attrs w) w' \<Longrightarrow> answered w w'"
  by (simp add: answered_def)

lemma answered_logged: "w_sent w = None \<Longrightarrow> answered w (writeError J c err msg (log_Error m attrs w))"
  by (rule answered_log_Error, rule answered_writeError) simp

lemmas answered_intros =
  answered_logged
  answered_WriteHeader answered_writeJSON answered_writeError answered_http_Error

section \<open>Handlers\<close>

definition answers :: "'s handler \<Rightarrow> request \<Rightarrow> bool" where
  "answers h r \<longleftrightarrow> (\<forall>w s. w_sent w = None \<longrightarrow> (\<exists>w' s'. h r (w, s) = (Returned, w', s') \<and> answered w w'))"

lemma answersI:
  "(\<And>w s. w_sent w = None \<Longrightarrow> \<exists>w' s'. h r (w, s) = (Returned, w', s') \<and> answered w w') \<Longrightarrow> answers h r"
  by (simp add: answers_def)

lemma answersE:
  assumes "answers h r" and "w_sent w = None"
  obtains w' s' where "h r (w, s) = (Returned, w', s')" "answered w w'"
  using assms unfolding answers_def by blast

lemma account_handlers_answer:
  "answers (AuthHandler_Register E repo) r" "answers (AuthHandler_Login E repo) r" "answers (AuthHandler_Refresh E) r"
  by (auto intro!: answersI answered_intros simp: AuthHandler_Register_def AuthHandler_Login_def
      AuthHandler_Refresh_def Let_def split: option.split sum.split prod.split)

lemma request_handlers_answer:
  "answers (RequestsHandler_Submit E repo) r" "answers (RequestsHandler_List E repo') r"
  "answers (RequestsHandler_GetByID E repo) r"
  by (auto intro!: answersI answered_intros answered_list simp: RequestsHandler_Submit_def
      RequestsHandler_List_def RequestsHandler_GetByID_def Let_def split: option.split sum.split prod.split)

lemma vote_handlers_answer:
  "answers (VotesHandler_Upvote E repo) r" "answers (VotesHandler_RemoveVote E repo) r"
  by (auto intro!: answersI answered_intros simp: VotesHandler_Upvote_def VotesHandler_RemoveVote_def Let_def
      split: sum.split prod.split)

lemma health_handlers_answer: "answers (Healthz J) r" "answers (Readyz J R) r"
  by (auto intro!: answersI answered_intros simp: Healthz_def Readyz_def Let_def split: prod.split)

lemmas handlers_answer = account_handlers_answer request_handlers_answer vote_handlers_answer health_handlers_answer

section \<open>Middleware\<close>

lemma answers_with_pg:
  assumes "answers h r"
  shows "answers (with_pg h) r"
proof (rule answersI)
  fix w :: response and s :: "'r server" assume "w_sent w = None"
  from assms this obtain w' p where "h r (w, sv_pg s) = (Returned, w', p)" "answered w w'" by (rule answersE)
  then show "\<exists>w' s'. with_pg h r (w, s) = (Returned, w', s') \<and> answered w w'" by (simp add: with_pg_def)
qed

lemma answers_RateLimit:
  fixes h :: "('r server) handler"
  assumes "answers h r" and "window_seconds window \<noteq> 0"
  shows "answers (RateLimit R limit window now h) r"
proof (rule answersI)
  fix w :: response and s :: "'r server" assume w: "w_sent w = None"
  show "\<exists>w' s'. RateLimit R limit window now h r (w, s) = (Returned, w', s') \<and> answered w w'"
  proof (rule RateLimit_rule[where Q = "\<lambda>x. \<exists>w' s'. x = (Returned, w', s') \<and> answered w w'"])
    show "\<exists>w' s''. h r (w, s') = (Returned, w', s'') \<and> answered w w'" for s'
      using assms(1) w unfolding answers_def by blast
    show "\<exists>w' s''. (Returned, http_Error msg_rate_limited 429 (Header_Set ''Retry-After'' n w), s')
        = (Returned, w', s'') \<and> answered w w'" for n s'
      using w by (auto intro!: answered_retry[OF answered_http_Error])
  qed (use assms(2) in simp)
qed

lemma answers_Auth:
  assumes "\<And>c. authenticated E r = Some c \<Longrightarrow> answers h (r\<lparr>hr_UserID := Some (tc_UserID c)\<rparr>)"
  shows "answers (Auth E h) r"
proof (cases "authenticated E r")
  case None
  then obtain msg where "\<And>w s. Auth E h r (w, s) = (Returned, http_Error msg 401 w, s)" by (rule Auth_refused) blast
  then show ?thesis by (auto intro!: answersI answered_http_Error)
next
  case (Some c)
  with assms show ?thesis by (simp add: answers_def Auth_authenticated)
qed

lemma answers_protected:
  assumes "\<And>r'. answers h r'"
  shows "answers (protected A h) r"
  unfolding protected_def
  by (intro answers_Auth answers_RateLimit answers_with_pg assms)
     (simp add: window_seconds_def Minute_def Second_def)

lemma endpoint_answers: "ep \<noteq> EpMetrics \<Longrightarrow> answers (endpoint_handler A ep) r"
  by (cases ep) (simp_all add: Health_def handlers_answer answers_with_pg answers_protected)

text \<open>
  What holds of the answers of a handler to every fresh enough writer holds of the answers of the
  protected route around it, when it holds of the two refusals of the middleware.
\<close>

definition yields :: "(response \<Rightarrow> bool) \<Rightarrow> (response \<Rightarrow> bool) \<Rightarrow> 's handler \<Rightarrow> request \<Rightarrow> bool" where
  "yields P Q h r \<longleftrightarrow> (\<forall>w s. P w \<longrightarrow> Q (fst (snd (h r (w, s)))))"

lemma yieldsI: "(\<And>w s. P w \<Longrightarrow> Q (fst (snd (h r (w, s))))) \<Longrightarrow> yields P Q h r"
  by (simp add: yields_def)

lemma yieldsD: "yields P Q h r \<Longrightarrow> P w \<Longrightarrow> Q (fst (snd (h r (w, s))))"
  by (simp add: yields_def)

lemma yields_with_pg: "yields P Q h r \<Longrightarrow> yields P Q (with_pg h) r"
  by (auto simp: yields_def with_pg_def split: prod.split) (metis fst_conv snd_conv)

lemma yields_protected:
  assumes "\<And>r'. yields P Q h r'" and "\<And>msg w. P w \<Longrightarrow> Q (http_Error msg 401 w)"
    and "\<And>n w. P w \<Longrightarrow> Q (http_Error msg_rate_limited 429 (Header_Set ''Retry-After'' n w))"
  shows "yields P Q (protected A h) r"
proof (rule yieldsI)
  fix w and s :: "'a server"
  assume w: "P w"
  let ?rest = "RateLimit (ap_redis A) 100 Minute (e_now (ap_env A)) (with_pg h)"
  have "Q (fst (snd (?rest r' (w, s))))" for r'
  proof (rule RateLimit_rule[where Q = "\<lambda>x. Q (fst (snd x))"])
    show "Q (fst (snd (with_pg h r' (w, s'))))" for s'
      using yields_with_pg[OF assms(1)] w by (rule yieldsD)
    show "Q (fst (snd (Returned, http_Error msg_rate_limited 429 (Header_Set ''Retry-After'' n w), s')))" for n s'
      using assms(3) w by simp
  qed (simp add: window_seconds_def Minute_def Second_def)
  then show "Q (fst (snd (protected A h r (w, s))))"
  proof (cases "authenticated (ap_env A) r")
    case None
    then obtain msg where "\<And>w s. Auth (ap_env A) ?rest r (w, s) = (Returned, http_Error msg 401 w, s)"
      by (rule Auth_refused) blast
    then show ?thesis using assms(2) w by (simp add: protected_def)
  qed (simp add: protected_def Auth_authenticated)
qed

text \<open>
  Through the whole stack: one status, the security headers, one log line with that status, and an
  unchanged gauge of requests in flight.
\<close>

definition in_flight :: "'r server \<Rightarrow> int" where
  "in_flight s = m_in_flight (sv_metrics s)"

definition quiet :: "'r server \<Rightarrow> 'r server \<Rightarrow> bool" where
  "quiet s s' \<longleftrightarrow> sv_log s' = sv_log s \<and> sv_metrics s' = sv_metrics s"

lemma quiet_refl [simp]: "quiet s s"
  by (simp add: quiet_def)

definition is_quiet :: "('r server) handler \<Rightarrow> request \<Rightarrow> bool" where
  "is_quiet h r \<longleftrightarrow> (\<forall>w s. quiet s (snd (snd (h r (w, s)))))"

lemma quiet_with_pg: "is_quiet (with_pg h) r"
  by (simp add: is_quiet_def with_pg_def quiet_def split: prod.split)

lemma quiet_RateLimit:
  assumes "is_quiet h r"
  shows "is_quiet (RateLimit R limit window now h) r"
  unfolding is_quiet_def
proof (intro allI)
  fix w s
  show "quiet s (snd (snd (RateLimit R limit window now h r (w, s))))"
    by (rule RateLimit_rule[where Q = "\<lambda>x. quiet s (snd (snd x))"])
       (use assms in \<open>auto simp: is_quiet_def quiet_def dest!: redis_onlyD\<close>)
qed

lemma quiet_Auth:
  assumes "\<And>c. authenticated E r = Some c \<Longrightarrow> is_quiet h (r\<lparr>hr_UserID := Some (tc_UserID c)\<rparr>)"
  shows "is_quiet (Auth E h) r"
proof (cases "authenticated E r")
  case None
  then obtain msg where "\<And>w s. Auth E h r (w, s) = (Returned, http_Error msg 401 w, s)" by (rule Auth_refused) blast
  then show ?thesis by (simp add: is_quiet_def)
next
  case (Some c)
  with assms show ?thesis by (simp add: is_quiet_def Auth_authenticated)
qed

lemma quiet_protected: "is_quiet (protected A h) r"
  unfolding protected_def by (intro quiet_Auth quiet_RateLimit quiet_with_pg)

lemma endpoint_quiet: "is_quiet (endpoint_handler A ep) r"
proof (cases ep)
  case EpReadyz
  show ?thesis
    unfolding EpReadyz is_quiet_def
    by (auto simp: Readyz_def Let_def with_redis_def quiet_def split: prod.split)
next
  case EpRefresh
  then show ?thesis
    by (auto simp: is_quiet_def AuthHandler_Refresh_def Let_def split: option.split sum.split)
qed (auto simp: quiet_protected quiet_with_pg, auto simp: is_quiet_def Healthz_def Health_def)

end
