(* ===== verification/Server_Properties.thy ===== *)
theory Server_Properties
  imports System Responses User_Properties
begin

text \<open>
  The correctness of the server as a whole: what holds in every reachable state, who may change
  what, and how every response looks. The witnesses run a small concrete application.
\<close>

section \<open>An application for the witnesses\<close>

text \<open>A body of two words is read as an object that gives them to the fields the handlers ask for.\<close>

definition demo_json :: json_lib where
  "demo_json =
     \<lparr>js_parse = (\<lambda>b. case SplitN (CHR '' '') 2 b of
         [x, y] \<Rightarrow> Some (JObj [(''email'', JStr x), (''password'', JStr y), (''title'', JStr x), (''description'', JStr y)])
       | _ \<Rightarrow> None),
      js_print = (\<lambda>j. case j of JObj ((k, JStr s) # kvs) \<Rightarrow> s | JObj ((k, JNull) # kvs) \<Rightarrow> ''null'' | _ \<Rightarrow> ''json''),
      js_fold = (\<lambda>s. s), js_time = format_int\<rparr>"

definition demo_env :: env where
  "demo_env =
     \<lparr>e_json = demo_json, e_auth = demo_auth,
      e_svc = \<lparr>as_accessSecret = ''a'', as_refreshSecret = ''b'', as_accessTTL = 10, as_refreshTTL = 100\<rparr>,
      e_now = 0, e_salt = Inr ''0123456789abcdef'', e_sha256 = (\<lambda>s. s)\<rparr>"

definition demo_app :: "demo_store app" where
  "demo_app =
     \<lparr>ap_env = demo_env, ap_lib = demo_lib, ap_pg_now = 9, ap_gen = ''carol'', ap_redis = demo_redis,
      ap_not_found = WriteHeader 404, ap_not_allowed = WriteHeader 405,
      ap_promhttp = (\<lambda>m r w. WriteHeader 200 w), ap_accepts = (\<lambda>_ _. True)\<rparr>"

definition demo_server :: "demo_store server" where
  "demo_server =
     \<lparr>sv_pg = demo_pg, sv_redis = demo_store_empty,
      sv_metrics = \<lparr>m_in_flight = 0, m_total = (\<lambda>_. 0), m_duration = (\<lambda>_. 0)\<rparr>, sv_log = []\<rparr>"

text \<open>A request by the user \<open>u\<close>, with the access token the toy JWT library would issue.\<close>

definition bearer :: "string \<Rightarrow> string" where
  "bearer u = ''Bearer 10.a.'' @ u"

definition demo_request :: "string \<Rightarrow> string \<Rightarrow> string \<Rightarrow> string \<Rightarrow> request" where
  "demo_request verb path auth body =
     \<lparr>hr_Method = verb, hr_Path = path, hr_Header = (\<lambda>h. if h = ''Authorization'' then auth else []),
      hr_Query = (\<lambda>_. []), hr_URLParam = (\<lambda>_. []), hr_RemoteAddr = ''192.0.2.1'', hr_Body = body, hr_UserID = None\<rparr>"

lemma demo_app_ok: "app_ok demo_lib demo_app"
  by (simp add: app_ok_def demo_app_def)

lemma demo_labelled: "labelled demo_app r"
  by (simp add: labelled_def demo_app_def)

lemma demo_honest: "honest demo_app r"
  by (simp add: honest_def demo_app_def)

lemma demo_server_simps [simp]: "sv_pg demo_server = demo_pg" "sv_redis demo_server = demo_store_empty"
  by (simp_all add: demo_server_def)

lemma demo_vote_route: "route ''PUT'' ''/requests/r1/vote'' = Matched EpUpvote ''r1''"
  by code_simp

lemma demo_authenticated:
  "authenticated demo_env (demo_request verb path (bearer ''bob'') body) = Some \<lparr>tc_UserID = ''bob''\<rparr>"
  "authenticated demo_env (demo_request verb path (bearer ''carol'') body) = Some \<lparr>tc_UserID = ''carol''\<rparr>"
  unfolding authenticated_def demo_request_def bearer_def demo_env_def VerifyAccessToken_def verifyToken_def
    demo_auth_def demo_parse_def keyfunc_def
  by code_simp+

lemma demo_no_credentials: "authenticated E (demo_request verb path [] body) = None"
  by (simp add: authenticated_def demo_request_def numeral_2_eq_2)

section \<open>The stack around an endpoint\<close>

lemma endpoint_returns:
  assumes "ep \<noteq> EpMetrics"
  obtains w s1 where "endpoint_handler A ep (entry r i) (set_security_headers fresh_response, add_in_flight 1 s) = (Returned, w, s1)"
    "answered (set_security_headers fresh_response) w" "quiet (add_in_flight 1 s) s1"
proof -
  have "w_sent (set_security_headers fresh_response) = None" by simp
  from endpoint_answers[OF assms] this obtain w s1 where
    e: "endpoint_handler A ep (entry r i) (set_security_headers fresh_response, add_in_flight 1 s) = (Returned, w, s1)"
      "answered (set_security_headers fresh_response) w" by (rule answersE)
  moreover have "quiet (add_in_flight 1 s) s1"
    using endpoint_quiet[of A ep "entry r i"] e(1) unfolding is_quiet_def by (metis snd_conv)
  ultimately show ?thesis by (rule that)
qed

text \<open>
  C1: In every state the server can reach from empty tables, by any sequence of requests that forge
  no token, job ticks, database faults and Redis states, the schema's constraints hold, every
  request's counter is the number of users who hold a vote on it, no user holds a vote on a request
  of their own, and every user a token was ever signed for has an account.
\<close>

theorem reachable_states_are_sound:
  assumes "reachable L (s, G)"
  shows "tables_ok L (tbl (sv_pg s))
     \<and> (\<forall>q \<in> set (feature_requests (tbl (sv_pg s))).
          r_vote_count q = int (card (voters (tbl (sv_pg s)) (r_id q)))
        \<and> r_author_id q \<notin> voters (tbl (sv_pg s)) (r_id q))
     \<and> G \<subseteq> u_id ` set (users (tbl (sv_pg s)))"
proof -
  have inv: "system_ok L (s, G)" using assms by (rule reachable_system)
  then have "tables_ok L (tbl (sv_pg s))" "counts_exact (tbl (sv_pg s))" "no_self_votes (tbl (sv_pg s))"
    by (simp_all add: system_ok_def vote_invariant_def)
  with inv show ?thesis
    by (auto simp: counts_exact_def no_self_votes_def length_votes_on tables_ok_def system_ok_def accounts_def)
qed

definition empty_server :: "demo_store server" where
  "empty_server = demo_server\<lparr>sv_pg := \<lparr>tbl = empty_tables, faults = []\<rparr>\<rparr>"

text \<open>Carol registers and submits a request.\<close>

definition demo_registered :: "demo_store server" where
  "demo_registered = snd (serve demo_app (demo_request ''POST'' ''/auth/register'' [] ''carol@example.com pw'') empty_server)"

definition demo_run :: "demo_store server" where
  "demo_run = snd (serve demo_app (demo_request ''POST'' ''/requests'' (bearer ''carol'') ''Title Text'') demo_registered)"

lemma demo_decode:
  "case Decode demo_json [''email'', ''password''] ''carol@example.com pw'' of
     None \<Rightarrow> False | Some req \<Rightarrow> req ''email'' = ''carol@example.com'' \<and> req ''password'' = ''pw''"
  by code_simp

lemma demo_register_signs:
  "signed_for demo_app (demo_request ''POST'' ''/auth/register'' [] ''carol@example.com pw'') (sv_pg empty_server) = Some ''carol''"
proof -
  let ?h = "encode_hash ''0123456789abcdef'' (derive_key demo_auth ''pw'' ''0123456789abcdef'' argon2KeyLen)"
  have "route ''POST'' ''/auth/register'' = Matched EpRegister []" by code_simp
  moreover obtain req where "Decode demo_json [''email'', ''password''] ''carol@example.com pw'' = Some req"
    "req ''email'' = ''carol@example.com''" "req ''password'' = ''pw''"
    using demo_decode by (auto split: option.splits)
  ultimately show ?thesis
    using register_new[of "sv_pg empty_server" "''carol''" demo_auth "''0123456789abcdef''" "''pw''" ?h demo_lib "''carol@example.com''" 9]
    by (simp add: signed_for_def register_subject_def demo_request_def demo_app_def demo_env_def empty_server_def
        empty_tables_def user_of_email_def HashPassword_def)
qed

theorem reachable_states_are_sound_witness: "tables_ok demo_lib (tbl (sv_pg demo_run))"
proof -
  let ?reg = "demo_request ''POST'' ''/auth/register'' [] ''carol@example.com pw''"
  let ?sub = "demo_request ''POST'' ''/requests'' (bearer ''carol'') ''Title Text''"
  have "reachable demo_lib (empty_server, {})" by (rule start) (simp add: empty_server_def)
  moreover have "unforged demo_app ?reg {}"
  proof -
    have "route ''POST'' ''/auth/register'' = Matched EpRegister []" by code_simp
    then show ?thesis by (simp add: unforged_def demo_no_credentials) (simp add: demo_request_def)
  qed
  from request[OF demo_app_ok this] have "step demo_lib (empty_server, {}) (demo_registered, {''carol''})"
    by (metis demo_register_signs demo_registered_def option.set(2) sup_bot_left)
  ultimately have "reachable demo_lib (demo_registered, {''carol''})" by (rule reachable.step)
  moreover have "unforged demo_app ?sub {''carol''}"
  proof -
    have "route ''POST'' ''/requests'' = Matched EpSubmit []" by code_simp
    moreover have "authenticated demo_env ?sub = Some \<lparr>tc_UserID = ''carol''\<rparr>" by (rule demo_authenticated(2))
    ultimately show ?thesis by (simp add: unforged_def demo_app_def demo_request_def)
  qed
  from request[OF demo_app_ok this, of demo_registered] obtain G where
    "step demo_lib (demo_registered, {''carol''}) (demo_run, G)" unfolding demo_run_def by blast
  ultimately have "reachable demo_lib (demo_run, G)" by (rule reachable.step)
  from reachable_states_are_sound[OF this] show ?thesis by blast
qed

text \<open>
  C7: A request to a protected route without a valid bearer token is answered 401 and changes
  neither the database nor Redis; it does not even use up the caller's rate limit.
\<close>

theorem protected_needs_valid_token:
  assumes "route (hr_Method r) (hr_Path r) = Matched ep i" and "is_protected ep"
    and "authenticated (ap_env A) r = None" and "serve A r s = (w, s')"
  shows "status w = 401 \<and> sv_pg s' = sv_pg s \<and> sv_redis s' = sv_redis s"
proof -
  obtain h where h: "endpoint_handler A ep = protected A h"
    using assms(2) by (auto simp: is_protected_def)
  have "authenticated (ap_env A) (entry r i) = None" using assms(3) by simp
  then obtain msg where
    e: "endpoint_handler A ep (entry r i) (set_security_headers fresh_response, add_in_flight 1 s)
      = (Returned, http_Error msg 401 (set_security_headers fresh_response), add_in_flight 1 s)"
    using h by (metis Auth_refused protected_def)
  obtain hd where "w_sent (http_Error msg 401 (set_security_headers fresh_response)) = Some (401, hd)"
    using http_Error_unsent[of "set_security_headers fresh_response"] by auto
  from serve_status[OF assms(1) e this assms(4)] show ?thesis
    by (auto simp: add_in_flight_def status_def)
qed

theorem protected_needs_valid_token_witness:
  "status (fst (serve demo_app (demo_request ''PUT'' ''/requests/r1/vote'' [] []) demo_server)) = 401"
proof -
  let ?r = "demo_request ''PUT'' ''/requests/r1/vote'' [] []"
  have "route (hr_Method ?r) (hr_Path ?r) = Matched EpUpvote ''r1''"
    by (simp add: demo_request_def demo_vote_route)
  moreover have "is_protected EpUpvote" by (simp add: is_protected_def)
  ultimately show ?thesis
    using protected_needs_valid_token[OF _ _ demo_no_credentials prod.collapse[symmetric]] by blast
qed


text \<open>The same application with a Prometheus client that takes no label values.\<close>

definition unlabelled_app :: "demo_store app" where
  "unlabelled_app = demo_app\<lparr>ap_accepts := (\<lambda>_ _. False)\<rparr>"


end
