(* ===== verification/Response_Types.thy ===== *)
theory Response_Types
  imports Server_Properties
begin

text \<open>
  The types of the answers: for each endpoint the status codes it can send and, for each of them,
  what the body is: a JSON document of a given schema, plain text, or nothing. The schemas are
  those of the encoders in \<open>Handlers\<close>; a typing relation says when a document has one.
\<close>

section \<open>Schemas\<close>

datatype schema =
    TStr
  | TNum
  | TBool
  | TNullable schema
  | TArr schema
  | TObj "(string \<times> schema) list"

inductive has_type :: "json \<Rightarrow> schema \<Rightarrow> bool" where
  str: "has_type (JStr s) TStr"
| num: "has_type (JNum n) TNum"
| bool: "has_type (JBool b) TBool"
| null: "has_type JNull (TNullable t)"
| some: "has_type v t \<Longrightarrow> has_type v (TNullable t)"
| arr: "list_all (\<lambda>v. has_type v t) vs \<Longrightarrow> has_type (JArr vs) (TArr t)"
| obj: "list_all2 (\<lambda>kv kt. fst kv = fst kt \<and> has_type (snd kv) (snd kt)) kvs kts \<Longrightarrow> has_type (JObj kvs) (TObj kts)"

inductive_simps has_type_simps [simp]:
  "has_type v TStr" "has_type v TNum" "has_type v TBool" "has_type v (TArr t)" "has_type (JObj kvs) (TObj kts)"
  "has_type JNull (TNullable t)" "has_type (JStr s) (TNullable t)" "has_type (JArr vs) (TNullable t)"

definition error_schema :: schema where
  "error_schema = TObj [(''error'', TStr), (''message'', TStr)]"

definition tokens_schema :: schema where
  "tokens_schema = TObj [(''access_token'', TStr), (''refresh_token'', TStr)]"

definition access_schema :: schema where
  "access_schema = TObj [(''access_token'', TStr)]"

definition request_schema :: schema where
  "request_schema = TObj
     [(''id'', TStr), (''author_id'', TStr), (''title'', TStr), (''description'', TStr), (''vote_count'', TNum),
      (''created_at'', TStr), (''updated_at'', TStr), (''viewer_has_voted'', TBool)]"

definition page_schema :: schema where
  "page_schema = TObj [(''items'', TNullable (TArr request_schema)), (''next_cursor'', TNullable TStr)]"

definition vote_schema :: schema where
  "vote_schema = TObj [(''request_id'', TStr), (''vote_count'', TNum), (''viewer_has_voted'', TBool)]"

definition alive_schema :: schema where
  "alive_schema = TObj [(''status'', TStr)]"

definition ready_schema :: schema where
  "ready_schema = TObj [(''status'', TObj [(''postgres'', TStr), (''redis'', TStr)])]"

lemmas schema_defs = error_schema_def tokens_schema_def access_schema_def request_schema_def page_schema_def
  vote_schema_def alive_schema_def ready_schema_def

lemma request_typed: "has_type (json_FeatureRequest J fr) request_schema"
  by (simp add: json_FeatureRequest_def schema_defs)

lemma page_typed: "has_type (json_RequestPage J page) page_schema"
proof -
  have "list_all (\<lambda>v. has_type v request_schema) (map (json_FeatureRequest J) fs)" for fs
    by (simp add: list_all_iff request_typed)
  then show ?thesis
    by (auto simp: json_RequestPage_def json_items_def page_schema_def list.pred_map list_all_iff split: option.split)
qed

lemma vote_typed: "has_type (json_VoteResult v) vote_schema"
  by (simp add: json_VoteResult_def schema_defs)

lemma tokens_typed: "has_type (json_authResponse a b) tokens_schema" "has_type (JObj [(''access_token'', JStr a)]) access_schema"
  by (simp_all add: json_authResponse_def schema_defs)

lemma health_typed: "has_type (JObj [(''status'', JStr s)]) alive_schema"
  "has_type (JObj [(''status'', JObj [(''postgres'', JStr p), (''redis'', JStr d)])]) ready_schema"
  by (simp_all add: schema_defs)

section \<open>Bodies\<close>

datatype body_type = Document schema | Plain | No_Body

fun body_ok :: "json_lib \<Rightarrow> response \<Rightarrow> body_type \<Rightarrow> bool" where
  "body_ok J w (Document t) \<longleftrightarrow> sent_header w ''Content-Type'' = Some ''application/json''
     \<and> (\<exists>v. has_type v t \<and> w_body w = js_print J v @ [char_of (10::nat)])"
| "body_ok J w Plain \<longleftrightarrow> sent_header w ''Content-Type'' = Some ''text/plain; charset=utf-8''
     \<and> (\<exists>text. w_body w = text @ [char_of (10::nat)])"
| "body_ok J w No_Body \<longleftrightarrow> sent_header w ''Content-Type'' = None \<and> w_body w = []"

text \<open>A writer nothing was sent through, and an answer of one of the given types.\<close>

definition blank :: "response \<Rightarrow> bool" where
  "blank w \<longleftrightarrow> w_sent w = None \<and> w_body w = [] \<and> w_header w ''Content-Type'' = None"

definition fits :: "json_lib \<Rightarrow> (int \<times> body_type) set \<Rightarrow> response \<Rightarrow> bool" where
  "fits J T w \<longleftrightarrow> (\<exists>t. (status w, t) \<in> T \<and> body_ok J w t)"

lemma blank_Header_Set [simp]: "k \<noteq> ''Content-Type'' \<Longrightarrow> blank w \<Longrightarrow> blank (Header_Set k v w)"
  by (simp add: blank_def Header_Set_def)

lemma blank_log_Error [simp]: "blank (log_Error msg attrs w) \<longleftrightarrow> blank w"
  by (simp add: blank_def)

lemma blank_entry [simp]: "blank (set_security_headers fresh_response)"
  unfolding set_security_headers_def by (intro blank_Header_Set) (simp_all add: blank_def fresh_response_def)

lemma fits_writeJSON:
  assumes "has_type v t" and "(c, Document t) \<in> T" and "blank w"
  shows "fits J T (writeJSON J c v w)"
proof -
  have "body_ok J (writeJSON J c v w) (Document t)"
    using assms(1,3) by (auto simp: blank_def writeJSON_def Write_def WriteHeader_def send_status_def Header_Set_def
        sent_header_def Let_def)
  then show ?thesis
    using assms(2,3) unfolding fits_def by (intro exI[of _ "Document t"]) (simp add: blank_def del: body_ok.simps)
qed

lemma fits_writeError: "(c, Document error_schema) \<in> T \<Longrightarrow> blank w \<Longrightarrow> fits J T (writeError J c err msg w)"
  unfolding writeError_def by (rule fits_writeJSON) (simp_all add: error_schema_def)

lemma fits_http_Error:
  assumes "(c, Plain) \<in> T" and "blank w"
  shows "fits J T (http_Error msg c w)"
proof -
  have "body_ok J (http_Error msg c w) Plain"
    using assms(2) by (simp add: blank_def http_Error_def Write_def WriteHeader_def send_status_def Header_Set_def
        sent_header_def Let_def)
  then show ?thesis using assms unfolding fits_def by (auto simp: blank_def)
qed

lemma fits_WriteHeader:
  assumes "(c, No_Body) \<in> T" and "blank w"
  shows "fits J T (WriteHeader c w)"
proof -
  have "body_ok J (WriteHeader c w) No_Body"
    using assms(2) by (simp add: blank_def WriteHeader_def send_status_def sent_header_def)
  then show ?thesis using assms unfolding fits_def by (auto simp: blank_def)
qed

lemmas fits_intros =
  fits_writeJSON[OF request_typed] fits_writeJSON[OF page_typed] fits_writeJSON[OF vote_typed]
  fits_writeJSON[OF tokens_typed(1)] fits_writeJSON[OF tokens_typed(2)]
  fits_writeJSON[OF health_typed(1)] fits_writeJSON[OF health_typed(2)]
  fits_writeError fits_http_Error fits_WriteHeader

section \<open>Endpoints\<close>

definition error_types :: "int set \<Rightarrow> (int \<times> body_type) set" where
  "error_types cs = (\<lambda>c. (c, Document error_schema)) ` cs"

text \<open>What the middleware of a protected route answers itself.\<close>

definition guard_types :: "(int \<times> body_type) set" where
  "guard_types = {(401, Plain), (429, Plain)}"

fun answer_types :: "endpoint \<Rightarrow> (int \<times> body_type) set" where
  "answer_types EpHealthz = {(200, Document alive_schema)}"
| "answer_types EpHealth = {(200, Document alive_schema)}"
| "answer_types EpReadyz = {(200, Document ready_schema), (503, Document ready_schema)}"
| "answer_types EpMetrics = {}"
| "answer_types EpRegister = {(201, Document tokens_schema)} \<union> error_types {400, 409, 500}"
| "answer_types EpLogin = {(200, Document tokens_schema)} \<union> error_types {400, 401, 500}"
| "answer_types EpRefresh = {(200, Document access_schema)} \<union> error_types {400, 401, 500}"
| "answer_types EpSubmit = {(201, Document request_schema)} \<union> error_types {400, 401, 500} \<union> guard_types"
| "answer_types EpList = {(200, Document page_schema), (304, No_Body)} \<union> error_types {500} \<union> guard_types"
| "answer_types EpGetByID = {(200, Document request_schema)} \<union> error_types {404, 500} \<union> guard_types"
| "answer_types EpUpvote = {(200, Document vote_schema)} \<union> error_types {401, 403, 404, 500} \<union> guard_types"
| "answer_types EpRemoveVote = {(200, Document vote_schema)} \<union> error_types {401, 404, 500} \<union> guard_types"

abbreviation typed :: "json_lib \<Rightarrow> (int \<times> body_type) set \<Rightarrow> 's handler \<Rightarrow> request \<Rightarrow> bool" where
  "typed J T \<equiv> yields blank (fits J T)"

lemma health_handlers_typed:
  "typed J (answer_types EpHealthz) (Healthz J) r" "typed J (answer_types EpHealth) (Health J) r"
  "typed J (answer_types EpReadyz) (Readyz J R) r"
  by (auto intro!: yieldsI fits_intros simp: Healthz_def Health_def Readyz_def Let_def split: prod.split sum.split)

lemma account_handlers_typed:
  "typed (e_json E) (answer_types EpRegister) (AuthHandler_Register E repo) r"
  "typed (e_json E) (answer_types EpLogin) (AuthHandler_Login E repo) r"
  "typed (e_json E) (answer_types EpRefresh) (AuthHandler_Refresh E) r"
  by (auto intro!: yieldsI fits_intros simp: AuthHandler_Register_def AuthHandler_Login_def
      AuthHandler_Refresh_def Let_def error_types_def split: option.split sum.split prod.split)

lemma request_handlers_typed:
  "typed (e_json E) (answer_types EpSubmit) (RequestsHandler_Submit E repo) r"
  "typed (e_json E) (answer_types EpList) (RequestsHandler_List E repo') r"
  "typed (e_json E) (answer_types EpGetByID) (RequestsHandler_GetByID E repo) r"
  by (auto intro!: yieldsI fits_intros simp: RequestsHandler_Submit_def RequestsHandler_List_def
      RequestsHandler_GetByID_def Let_def error_types_def split: option.split sum.split prod.split)

lemma vote_handlers_typed:
  "typed (e_json E) (answer_types EpUpvote) (VotesHandler_Upvote E repo) r"
  "typed (e_json E) (answer_types EpRemoveVote) (VotesHandler_RemoveVote E repo) r"
  by (auto intro!: yieldsI fits_intros simp: VotesHandler_Upvote_def VotesHandler_RemoveVote_def Let_def
      error_types_def split: sum.split prod.split)

lemma typed_protected:
  assumes "\<And>r'. typed J T h r'" and "guard_types \<subseteq> T"
  shows "typed J T (protected A h) r"
  using assms by (intro yields_protected) (auto simp: guard_types_def intro!: fits_http_Error)

lemma guards_allowed:
  "guard_types \<subseteq> answer_types EpSubmit" "guard_types \<subseteq> answer_types EpList" "guard_types \<subseteq> answer_types EpGetByID"
  "guard_types \<subseteq> answer_types EpUpvote" "guard_types \<subseteq> answer_types EpRemoveVote"
  by auto

lemma endpoint_typed:
  assumes "ep \<noteq> EpMetrics"
  shows "typed (e_json (ap_env A)) (answer_types ep) (endpoint_handler A ep) r"
  using assms
  by (cases ep; simp only: endpoint_handler.simps)
     (intro typed_protected yields_with_pg guards_allowed health_handlers_typed account_handlers_typed
        request_handlers_typed vote_handlers_typed | simp)+



end
