(* ===== verification/Error_Logging.thy ===== *)
theory Error_Logging
  imports Response_Types
begin

text \<open>
  Internal errors: a handler that answers 500 tells the client a fixed message, and writes the error
  itself to the log.
\<close>

fun internal_messages :: "endpoint \<Rightarrow> string list" where
  "internal_messages EpRegister = [''registration failed'', ''token issuance failed'']"
| "internal_messages EpLogin = [''login failed'']"
| "internal_messages EpRefresh = [''token issuance failed'']"
| "internal_messages EpSubmit = [''submission failed'']"
| "internal_messages EpList = [''listing failed'']"
| "internal_messages EpGetByID = [''retrieval failed'']"
| "internal_messages EpUpvote = [''vote failed'']"
| "internal_messages EpRemoveVote = [''vote removal failed'']"
| "internal_messages _ = []"

definition unused :: "response \<Rightarrow> bool" where
  "unused w \<longleftrightarrow> w_sent w = None \<and> w_body w = [] \<and> w_log w = []"

definition hides_error :: "json_lib \<Rightarrow> string list \<Rightarrow> response \<Rightarrow> bool" where
  "hides_error J msgs w \<longleftrightarrow>
     (\<exists>msg logged e. msg \<in> set msgs
        \<and> w_body w = js_print J (JObj [(''error'', JStr ''internal_error''), (''message'', JStr msg)]) @ [char_of (10::nat)]
        \<and> w_log w = [\<lparr>ln_level = LevelError, ln_msg = logged, ln_attrs = [(''error'', error_text e)]\<rparr>])"

definition logs_errors :: "json_lib \<Rightarrow> string list \<Rightarrow> response \<Rightarrow> bool" where
  "logs_errors J msgs w \<longleftrightarrow> (if status w = 500 then hides_error J msgs w else w_log w = [])"

lemma unused_Header_Set [simp]: "unused (Header_Set k v w) \<longleftrightarrow> unused w"
  by (simp add: unused_def Header_Set_def)

lemma unused_entry [simp]: "unused (set_security_headers fresh_response)"
  by (simp add: unused_def)

lemma logs_internal:
  assumes "msg \<in> set msgs" and "unused w"
  shows "logs_errors J msgs (writeError J 500 ''internal_error'' msg (log_error logged e w))"
proof -
  let ?w = "writeError J 500 ''internal_error'' msg (log_error logged e w)"
  have "w_sent (log_error logged e w) = None" "w_body (log_error logged e w) = []"
    and l: "w_log ?w = [\<lparr>ln_level = LevelError, ln_msg = logged, ln_attrs = [(''error'', error_text e)]\<rparr>]"
    using assms(2) by (simp_all add: unused_def)
  then have "status ?w = 500"
    and "w_body ?w = js_print J (JObj [(''error'', JStr ''internal_error''), (''message'', JStr msg)]) @ [char_of (10::nat)]"
    by (simp_all add: writeError_def writeJSON_body)
  with l assms(1) show ?thesis unfolding logs_errors_def hides_error_def by auto
qed

lemma logs_nothing:
  assumes "c \<noteq> 500" and "unused w"
  shows "logs_errors J msgs (writeJSON J c x w)" and "logs_errors J msgs (writeError J c code msg w)"
    and "logs_errors J msgs (http_Error msg c w)" and "logs_errors J msgs (WriteHeader c w)"
  using assms by (simp_all add: logs_errors_def unused_def)

lemmas logs_intros = logs_internal logs_nothing

abbreviation logging :: "json_lib \<Rightarrow> string list \<Rightarrow> 's handler \<Rightarrow> request \<Rightarrow> bool" where
  "logging J msgs \<equiv> yields unused (logs_errors J msgs)"

lemma handlers_logging:
  "logging (e_json E) (internal_messages EpRegister) (AuthHandler_Register E urepo) r"
  "logging (e_json E) (internal_messages EpLogin) (AuthHandler_Login E urepo) r"
  "logging (e_json E) (internal_messages EpRefresh) (AuthHandler_Refresh E) r'"
  "logging (e_json E) (internal_messages EpSubmit) (RequestsHandler_Submit E repo) r"
  "logging (e_json E) (internal_messages EpList) (RequestsHandler_List E rrepo) r"
  "logging (e_json E) (internal_messages EpGetByID) (RequestsHandler_GetByID E repo) r"
  "logging (e_json E) (internal_messages EpUpvote) (VotesHandler_Upvote E vrepo) r"
  "logging (e_json E) (internal_messages EpRemoveVote) (VotesHandler_RemoveVote E vrepo) r"
  by (auto intro!: yieldsI simp: logs_intros handler_defs Let_def split: option.split sum.split prod.split)

lemma probes_logging: "logging J ms (Healthz J) r" "logging J ms (Health J) r" "logging J ms (Readyz J R) r"
  by (auto intro!: yieldsI simp: logs_intros Healthz_def Health_def Readyz_def Let_def split: prod.split sum.split)

lemma logging_protected: "(\<And>r'. logging J msgs h r') \<Longrightarrow> logging J msgs (protected A h) r"
  by (intro yields_protected logs_intros) simp_all

lemma endpoint_logging:
  assumes "ep \<noteq> EpMetrics"
  shows "logging (e_json (ap_env A)) (internal_messages ep) (endpoint_handler A ep) r"
  using assms
  by (cases ep; simp only: endpoint_handler.simps)
     (intro logging_protected yields_with_pg handlers_logging probes_logging | simp)+


text \<open>A login while the database is down.\<close>

definition demo_outage :: pg where
  "demo_outage = demo_pg\<lparr>faults := [FailBefore (Opaque ''connection refused'')]\<rparr>"

lemma demo_login_fails:
  "status (fst (serve demo_app (demo_request ''POST'' ''/auth/login'' [] ''bob@example.com pw'') (demo_server\<lparr>sv_pg := demo_outage\<rparr>))) = 500"
proof -
  let ?r = "demo_request ''POST'' ''/auth/login'' [] ''bob@example.com pw''"
  have m: "route (hr_Method ?r) (hr_Path ?r) = Matched EpLogin []" unfolding demo_request_def by code_simp
  have "Decode demo_json [''email'', ''password''] ''bob@example.com pw'' \<noteq> None" by code_simp
  then obtain req where req: "Decode demo_json [''email'', ''password''] ''bob@example.com pw'' = Some req" by blast
  let ?w = "set_security_headers fresh_response" and ?s = "add_in_flight 1 (demo_server\<lparr>sv_pg := demo_outage\<rparr>)"
  let ?h = "with_pg (AuthHandler_Login demo_env (postgres_UserRepo demo_lib 9 ''carol''))"
  have login: "\<exists>e s1. Login demo_auth (postgres_UserRepo demo_lib 9 ''carol'') x y demo_outage = (Inl e, s1) \<and> \<not> errors_Is e ErrUnauthorized" for x y
    by (simp add: Login_def postgres_UserRepo_def GetUserByEmail_def demo_outage_def query_row_def run_stmt_def next_fault_def)
  have "\<exists>w1 s1. ?h (entry ?r []) (?w, ?s) = (Returned, w1, s1) \<and> status w1 = 500"
    using req login[of "req ''email''" "req ''password''"]
    by (auto simp: with_pg_def AuthHandler_Login_def entry_def demo_request_def demo_env_def add_in_flight_def)
  then obtain w1 s1 where e: "?h (entry ?r []) (?w, ?s) = (Returned, w1, s1)" "status w1 = 500" by blast
  then have "endpoint_handler demo_app EpLogin (entry ?r []) (?w, ?s) = (Returned, w1, s1)" by (simp add: demo_app_def)
  from serve_matched[OF m demo_labelled this] e(2) show ?thesis by simp
qed


section \<open>Errors that are taken for a missing request\<close>

text \<open>
  C39: A vote operation whose first statement fails, for whatever reason, is answered with 404, and
  nothing is logged: the vote service takes every error of that lookup for a missing request. The
  same failure while a request is fetched is answered with 500 and logged.
\<close>

theorem lookup_failure_answers:
  assumes "snd (GetUserID r)" and "faults p = FailBefore (Opaque cause) # fs"
  shows "VotesHandler_Upvote E (postgres_VoteRepo L now) r (w, p) =
       (Returned, writeError (e_json E) 404 ''not_found'' ''feature request not found'' w, p\<lparr>faults := fs\<rparr>)
   \<and> VotesHandler_RemoveVote E (postgres_VoteRepo L now) r (w, p) =
       (Returned, writeError (e_json E) 404 ''not_found'' ''feature request not found'' w, p\<lparr>faults := fs\<rparr>)
   \<and> (\<exists>e. RequestsHandler_GetByID E (postgres_RequestRepo L now gen) r (w, p) =
       (Returned, writeError (e_json E) 500 ''internal_error'' ''retrieval failed'' (log_error ''get feature request'' e w), p\<lparr>faults := fs\<rparr>))"
proof -
  obtain u where u: "GetUserID r = (u, True)" using assms(1) by (cases "GetUserID r") simp
  have "GetRequestAuthorID L i p = (Inl (wrap ''get author id: '' (Opaque cause)), p\<lparr>faults := fs\<rparr>)" for i
    using assms(2) by (simp add: GetRequestAuthorID_def query_row_def run_stmt_def next_fault_def)
  then have v: "VotesHandler_Upvote E (postgres_VoteRepo L now) r (w, p) =
       (Returned, writeError (e_json E) 404 ''not_found'' ''feature request not found'' w, p\<lparr>faults := fs\<rparr>)"
    "VotesHandler_RemoveVote E (postgres_VoteRepo L now) r (w, p) =
       (Returned, writeError (e_json E) 404 ''not_found'' ''feature request not found'' w, p\<lparr>faults := fs\<rparr>)"
    by (simp_all add: u VotesHandler_Upvote_def VotesHandler_RemoveVote_def Upvote_def RemoveVote_def postgres_VoteRepo_def
        not_found_error_def Let_def)
  obtain e where "GetFeatureRequest L (hr_URLParam r ''id'') u p = (Inl e, p\<lparr>faults := fs\<rparr>)"
    "\<not> errors_Is e ErrNotFound"
    using assms(2) by (auto simp: GetFeatureRequest_def scanRequestWithVote_def query_row_def run_stmt_def next_fault_def)
  then have "RequestsHandler_GetByID E (postgres_RequestRepo L now gen) r (w, p) =
       (Returned, writeError (e_json E) 500 ''internal_error'' ''retrieval failed''
          (log_error ''get feature request'' (wrap ''get feature request: '' e) w), p\<lparr>faults := fs\<rparr>)"
    by (simp add: u RequestsHandler_GetByID_def GetByID_def postgres_RequestRepo_def Let_def)
  with v show ?thesis by blast
qed

theorem lookup_failure_answers_witness:
  "\<exists>h. VotesHandler_Upvote demo_env (postgres_VoteRepo demo_lib 9) ((demo_request ''PUT'' ''/requests/r1/vote'' [] [])\<lparr>hr_UserID := Some ''bob''\<rparr>)
       (fresh_response, demo_outage) = (Returned, h, demo_pg) \<and> status h = 404 \<and> w_log h = []"
proof -
  let ?r = "(demo_request ''PUT'' ''/requests/r1/vote'' [] [])\<lparr>hr_UserID := Some ''bob''\<rparr>"
  have u: "snd (GetUserID ?r)" by (simp add: GetUserID_def)
  have f: "faults demo_outage = FailBefore (Opaque ''connection refused'') # []" by (simp add: demo_outage_def)
  have "demo_outage\<lparr>faults := []\<rparr> = demo_pg" by (simp add: demo_outage_def demo_pg_def)
  with conjunct1[OF lookup_failure_answers[OF u f, of demo_env demo_lib 9 fresh_response]] show ?thesis by simp
qed

end
