(* ===== verification/Rate_Limit.thy ===== *)
theory Rate_Limit
  imports Middleware Redis_Demo
begin

text \<open>
  What the limiter of \<open>internal/middleware/ratelimit.go\<close> guarantees over a sequence of requests, for a
  Redis whose \<open>INCR\<close> counts. The limit is a fixed window: the requests that share a key are those of
  one user (or address) in one window of the clock.
\<close>

text \<open>
  \<open>ctr\<close> reads the counters: \<open>INCR\<close> returns the new value and changes no other counter, or fails and
  changes none; \<open>EXPIRE\<close> leaves the values as they are (the counter goes away after the window).
\<close>

definition incr_law :: "'r redis \<Rightarrow> ('r \<Rightarrow> string \<Rightarrow> int) \<Rightarrow> bool" where
  "incr_law R ctr \<longleftrightarrow>
     (\<forall>k d x d'. rd_Incr R k d = (x, d') \<longrightarrow>
        (\<exists>e. x = Inl e) \<and> ctr d' = ctr d \<or> x = Inr (ctr d k + 1) \<and> ctr d' = (ctr d)(k := ctr d k + 1))
   \<and> (\<forall>k t d. ctr (snd (rd_Expire R k t d)) = ctr d)"

definition request_key :: "duration \<Rightarrow> gotime \<times> request \<Rightarrow> string" where
  "request_key window p = ratelimit_key (limited_user (snd p)) (fst p) (window_seconds window)"

definition counter :: "('r \<Rightarrow> string \<Rightarrow> int) \<Rightarrow> 'r server \<Rightarrow> string \<Rightarrow> int" where
  "counter ctr s = ctr (sv_redis s)"

text \<open>One request: counted and let through up to the limit, refused with 429 beyond it.\<close>

lemma RateLimit_counted:
  assumes "incr_law R ctr" and "window_seconds window \<noteq> 0"
    and "rd_Incr R (request_key window (now, r)) (sv_redis s) = (Inr n, d)"
  obtains s' where "redis_only s s'" "n = counter ctr s (request_key window (now, r)) + 1"
    "counter ctr s' = (counter ctr s)(request_key window (now, r) := n)"
    "RateLimit R limit window now h r (w, s) =
       (if n \<le> limit then h r (w, s')
        else (Returned, http_Error msg_rate_limited 429
                (Header_Set ''Retry-After'' (format_int (window_seconds window)) w), s'))"
proof -
  let ?k = "request_key window (now, r)"
  let ?s1 = "s\<lparr>sv_redis := d\<rparr>"
  let ?s2 = "if n = 1 then snd (with_redis (rd_Expire R ?k window) ?s1) else ?s1"
  have k: "ratelimit_key (limited_user r) now (window_seconds window) = ?k" by (simp add: request_key_def)
  have i: "with_redis (rd_Incr R ?k) s = (Inr n, ?s1)" using assms(3) by (simp add: with_redis_def)
  have n: "n = ctr (sv_redis s) ?k + 1" "ctr d = (ctr (sv_redis s))(?k := n)"
    using assms(1,3) unfolding incr_law_def by fastforce+
  have e: "ctr (sv_redis ?s2) = ctr d"
    using assms(1) by (simp add: with_redis_def incr_law_def split: prod.splits) (metis snd_conv)
  show ?thesis
  proof (rule that[of ?s2])
    show "redis_only s ?s2" by (auto simp: redis_only_def with_redis_def split: prod.splits)
    show "n = counter ctr s ?k + 1" "counter ctr ?s2 = (counter ctr s)(?k := n)"
      using n e by (simp_all only: counter_def)
    show "RateLimit R limit window now h r (w, s) =
       (if n \<le> limit then h r (w, ?s2)
        else (Returned, http_Error msg_rate_limited 429
                (Header_Set ''Retry-After'' (format_int (window_seconds window)) w), ?s2))"
      using assms(2) i by (simp add: RateLimit_def k)
  qed
qed

text \<open>A Redis that cannot count lets every request through.\<close>

lemma RateLimit_open:
  assumes "window_seconds window \<noteq> 0" and "rd_Incr R (request_key window (now, r)) (sv_redis s) = (Inl e, d)"
  shows "RateLimit R limit window now h r (w, s) = h r (w, s\<lparr>sv_redis := d\<rparr>)"
  using assms by (simp add: RateLimit_def request_key_def with_redis_def)

text \<open>A sequence of requests, each with the time at which the limiter sees it.\<close>

fun limited_responses ::
  "'r redis \<Rightarrow> int \<Rightarrow> duration \<Rightarrow> ('r server) handler \<Rightarrow> (gotime \<times> request) list \<Rightarrow> 'r server \<Rightarrow> response list" where
  "limited_responses R limit window h [] s = []"
| "limited_responses R limit window h ((now, r) # ps) s =
     (case RateLimit R limit window now h r (fresh_response, s) of
        (c, w, s') \<Rightarrow> w # limited_responses R limit window h ps s')"

text \<open>A handler below the limiter: it leaves Redis alone and has no 429 of its own.\<close>

definition below_limiter :: "('r server) handler \<Rightarrow> bool" where
  "below_limiter h \<longleftrightarrow> (\<forall>r s c w s'. h r (fresh_response, s) = (c, w, s') \<longrightarrow>
     sv_redis s' = sv_redis s \<and> status w \<noteq> 429)"

lemma limited_responses_nth:
  assumes "incr_law R ctr" and "\<And>k d. \<exists>n d'. rd_Incr R k d = (Inr n, d')" and "window_seconds window \<noteq> 0"
    and "below_limiter h" and "\<forall>p \<in> set ps. request_key window p = k" and "j < length ps"
  shows "status (limited_responses R limit window h ps s ! j) = 429 \<longleftrightarrow> limit < counter ctr s k + int j + 1"
  using assms(5,6)
proof (induction ps arbitrary: s j)
  case (Cons p ps)
  obtain now r where p: "p = (now, r)" by (cases p)
  obtain n d where i: "rd_Incr R (request_key window (now, r)) (sv_redis s) = (Inr n, d)" using assms(2) by blast
  have k: "request_key window (now, r) = k" using Cons.prems(1) p by simp
  obtain s1 where s1: "redis_only s s1" "n = counter ctr s k + 1" "counter ctr s1 = (counter ctr s)(k := n)"
    and run: "RateLimit R limit window now h r (fresh_response, s) =
       (if n \<le> limit then h r (fresh_response, s1)
        else (Returned, http_Error msg_rate_limited 429
                (Header_Set ''Retry-After'' (format_int (window_seconds window)) fresh_response), s1))"
    using RateLimit_counted[OF assms(1,3) i, of limit h fresh_response] unfolding k by metis
  obtain c w s' where out: "RateLimit R limit window now h r (fresh_response, s) = (c, w, s')" by (rule prod_cases3)
  have cnt: "counter ctr s' = counter ctr s1" and st: "status w = 429 \<longleftrightarrow> limit < n"
    using out run assms(4) by (auto simp: below_limiter_def counter_def split: if_splits)
  show ?case
  proof (cases j)
    case 0
    then show ?thesis using out st s1(2) by (simp add: p)
  next
    case (Suc j')
    with Cons.IH[of j' s'] Cons.prems out cnt s1(2,3) show ?thesis by (simp add: p)
  qed
qed simp


lemma demo_incr_law: "incr_law demo_redis ds_counter"
  by (simp add: incr_law_def demo_redis_def)

definition demo_limited :: "demo_store server" where
  "demo_limited = \<lparr>sv_pg = demo_pg, sv_redis = demo_store_empty,
     sv_metrics = \<lparr>m_in_flight = 0, m_total = (\<lambda>_. 0), m_duration = (\<lambda>_. 0)\<rparr>, sv_log = []\<rparr>"

definition demo_poll :: "gotime \<times> request" where
  "demo_poll = (5000000000, \<lparr>hr_Method = ''GET'', hr_Path = ''/requests'', hr_Header = (\<lambda>_. []), hr_Query = (\<lambda>_. []),
     hr_URLParam = (\<lambda>_. []), hr_RemoteAddr = ''10.0.0.1:5000'', hr_Body = [], hr_UserID = Some ''bob''\<rparr>)"


end
