(* ===== verification/Session_Properties.thy ===== *)
theory Session_Properties
  imports Server_Properties Vote_Properties Rate_Limit
begin

text \<open>
  Sessions through the whole server: which answers carry tokens and for whom, what a token allows
  its holder to do until it expires, and how a session is prolonged.
\<close>

section \<open>Passing the middleware\<close>

lemma RateLimit_passes:
  assumes "incr_law R ctr" and "window_seconds window \<noteq> 0"
    and "counter ctr s (request_key window (now, r)) < limit"
  obtains s' where "redis_only s s'" "RateLimit R limit window now h r (w, s) = h r (w, s')"
proof (cases "rd_Incr R (request_key window (now, r)) (sv_redis s)")
  case (Pair x d)
  show ?thesis
  proof (cases x)
    case (Inl e)
    show ?thesis
      by (rule that[of "s\<lparr>sv_redis := d\<rparr>"])
         (use RateLimit_open[OF assms(2)] Pair Inl in \<open>auto simp: redis_only_def\<close>)
  next
    case (Inr n)
    obtain s' where "redis_only s s'" "n = counter ctr s (request_key window (now, r)) + 1"
      "RateLimit R limit window now h r (w, s) =
         (if n \<le> limit then h r (w, s')
          else (Returned, http_Error msg_rate_limited 429
                  (Header_Set ''Retry-After'' (format_int (window_seconds window)) w), s'))"
      by (rule RateLimit_counted[OF assms(1,2) Pair[unfolded Inr], of limit h w]) blast
    with assms(3) that show ?thesis by simp
  qed
qed

text \<open>The counter the limiter keeps for a user at a time.\<close>

definition used_up :: "('r \<Rightarrow> string \<Rightarrow> int) \<Rightarrow> 'r app \<Rightarrow> string \<Rightarrow> 'r server \<Rightarrow> int" where
  "used_up ctr A u s = ctr (sv_redis s) (ratelimit_key u (e_now (ap_env A)) 60)"

lemma protected_passes:
  assumes "authenticated (ap_env A) r = Some c" and "tc_UserID c \<noteq> []"
    and "incr_law (ap_redis A) ctr" and "used_up ctr A (tc_UserID c) s < 100"
  obtains s' where "redis_only s s'"
    "protected A h r (w, s) = with_pg h (r\<lparr>hr_UserID := Some (tc_UserID c)\<rparr>) (w, s')"
proof -
  let ?r = "r\<lparr>hr_UserID := Some (tc_UserID c)\<rparr>"
  have w: "window_seconds Minute = 60" by (simp add: window_seconds_def Minute_def Second_def)
  then have "request_key Minute (e_now (ap_env A), ?r) = ratelimit_key (tc_UserID c) (e_now (ap_env A)) 60"
    using assms(2) by (simp add: request_key_def limited_user_def GetUserID_def)
  with assms(4) have "counter ctr s (request_key Minute (e_now (ap_env A), ?r)) < 100"
    by (simp add: used_up_def counter_def)
  from RateLimit_passes[OF assms(3) _ this] w
  obtain s' where "redis_only s s'"
    "RateLimit (ap_redis A) 100 Minute (e_now (ap_env A)) (with_pg h) ?r (w, s) = with_pg h ?r (w, s')" by auto
  with that show ?thesis by (simp add: protected_def Auth_authenticated[OF assms(1)])
qed

text \<open>A request below its limit that passes authentication, answered by its handler.\<close>

lemma serve_protected:
  assumes "route (hr_Method r) (hr_Path r) = Matched ep i" and "labelled A r" and "endpoint_handler A ep = protected A h"
    and "authenticated (ap_env A) r = Some c" and "tc_UserID c \<noteq> []"
    and "incr_law (ap_redis A) ctr" and "used_up ctr A (tc_UserID c) s < 100"
    and "h ((entry r i)\<lparr>hr_UserID := Some (tc_UserID c)\<rparr>) (set_security_headers fresh_response, sv_pg s) = (Returned, w, p)"
  shows "\<exists>s'. serve A r s = (w, s') \<and> sv_pg s' = p"
proof -
  have "authenticated (ap_env A) (entry r i) = Some c" using assms(4) by simp
  moreover have "used_up ctr A (tc_UserID c) (add_in_flight 1 s) < 100"
    using assms(7) by (simp add: used_up_def add_in_flight_def)
  ultimately obtain s1 where s1: "redis_only (add_in_flight 1 s) s1"
    "protected A h (entry r i) (set_security_headers fresh_response, add_in_flight 1 s)
       = with_pg h ((entry r i)\<lparr>hr_UserID := Some (tc_UserID c)\<rparr>) (set_security_headers fresh_response, s1)"
    by (metis assms(5,6) protected_passes)
  have "sv_pg s1 = sv_pg s" using redis_onlyD[OF s1(1)] by simp
  then have "endpoint_handler A ep (entry r i) (set_security_headers fresh_response, add_in_flight 1 s)
      = (Returned, w, s1\<lparr>sv_pg := p\<rparr>)"
    using s1(2) assms(3,8) by (simp add: with_pg_def)
  from serve_matched[OF assms(1,2) this] show ?thesis by simp
qed

text \<open>A token in the header, as the client sends it.\<close>

lemma authenticated_bearer:
  assumes "hr_Header r ''Authorization'' = ''Bearer '' @ tok"
    and "VerifyAccessToken (e_auth E) (e_svc E) (e_now E) tok = Inr c"
  shows "authenticated E r = Some c"
proof -
  have "cut_at (CHR '' '') (''Bearer'' @ CHR '' '' # tok) = Some (''Bearer'', tok)"
    by (rule cut_at_append) simp
  then have "SplitN (CHR '' '') 2 (''Bearer '' @ tok) = [''Bearer'', tok]" by (simp add: numeral_2_eq_2)
  moreover have "EqualFold ''Bearer'' ''bearer''" by code_simp
  ultimately show ?thesis using assms by (simp add: authenticated_def)
qed

section \<open>Voting with a token\<close>

lemma Upvote_handler_success:
  assumes "Upvote repo u (hr_URLParam r ''id'') s = (Inr res, s')" and "hr_UserID r = Some u" and "u \<noteq> []"
  shows "VotesHandler_Upvote E repo r (w, s) = (Returned, writeJSON (e_json E) 200 (json_VoteResult res) w, s')"
  using assms by (simp add: VotesHandler_Upvote_def GetUserID_def)

lemma RemoveVote_handler_success:
  assumes "RemoveVote repo u (hr_URLParam r ''id'') s = (Inr res, s')" and "hr_UserID r = Some u" and "u \<noteq> []"
  shows "VotesHandler_RemoveVote E repo r (w, s) = (Returned, writeJSON (e_json E) 200 (json_VoteResult res) w, s')"
  using assms by (simp add: VotesHandler_RemoveVote_def GetUserID_def)

text \<open>Whom a \<open>PUT\<close> or \<open>DELETE\<close> of a vote by \<open>u\<close> leaves among the holders.\<close>

definition after_vote :: "bool \<Rightarrow> string \<Rightarrow> string set \<Rightarrow> string set" where
  "after_vote put u V = (if put then insert u V else V - {u})"

definition vote_endpoint :: "bool \<Rightarrow> endpoint" where
  "vote_endpoint put = (if put then EpUpvote else EpRemoveVote)"

definition vote_body :: "'r app \<Rightarrow> bool \<Rightarrow> string \<Rightarrow> nat \<Rightarrow> string" where
  "vote_body A put i n = js_print (e_json (ap_env A))
     (json_VoteResult \<lparr>RequestID = i, VoteCount = int n, UserVoted = put\<rparr>) @ [char_of (10::nat)]"

text \<open>Voting over HTTP, with the middleware passed and no database fault.\<close>

lemma vote_served:
  assumes "vote_invariant L (tbl (sv_pg s))" and "faults (sv_pg s) = []" and "ap_lib A = L"
    and "route (hr_Method r) (hr_Path r) = Matched (vote_endpoint put) i"
    and "authenticated (ap_env A) r = Some \<lparr>tc_UserID = u\<rparr>" and "u \<noteq> []"
    and "incr_law (ap_redis A) ctr" and "used_up ctr A u s < 100"
    and "u \<in> accounts (tbl (sv_pg s))" and "parse_uuid L i = Some q"
    and "author_of (tbl (sv_pg s)) q = Some a" and "put \<longrightarrow> a \<noteq> u"
    and "int (card (voters (tbl (sv_pg s)) q)) < int4_max" and "labelled A r"
  shows "\<exists>w s'. serve A r s = (w, s') \<and> status w = 200
     \<and> voters (tbl (sv_pg s')) = (voters (tbl (sv_pg s)))(q := after_vote put u (voters (tbl (sv_pg s)) q))
     \<and> w_body w = vote_body A put i (card (voters (tbl (sv_pg s')) q))"
proof -
  let ?p = "sv_pg s" and ?repo = "postgres_VoteRepo L (ap_pg_now A)"
  let ?r = "(entry r i)\<lparr>hr_UserID := Some u\<rparr>" and ?w = "set_security_headers fresh_response"
  have ok: "tables_ok L (tbl ?p)" "counts_exact (tbl ?p)" using assms(1) by (simp_all add: vote_invariant_def)
  have canon: "parse_uuid L u = Some u" using ok(1) assms(9) by (auto simp: tables_ok_def accounts_def)
  have up: "endpoint_handler A EpUpvote = protected A (VotesHandler_Upvote (ap_env A) ?repo)"
    and rem: "endpoint_handler A EpRemoveVote = protected A (VotesHandler_RemoveVote (ap_env A) ?repo)"
    using assms(3) by simp_all
  define V where "V = voters (tbl ?p)"
  obtain h t' where h: "endpoint_handler A (vote_endpoint put) = protected A h"
    and run: "h ?r (?w, ?p) = (Returned, writeJSON (e_json (ap_env A)) 200
        (json_VoteResult \<lparr>RequestID = i, VoteCount = int (card (voters t' q)), UserVoted = put\<rparr>) ?w, ?p\<lparr>tbl := t'\<rparr>)"
    and V: "voters t' = V(q := after_vote put u (V q))"
  proof (cases put)
    case True
    obtain t' where t': "Upvote ?repo u i ?p =
        (Inr \<lparr>RequestID = i, VoteCount = int (card (voters t' q)), UserVoted = True\<rparr>, ?p\<lparr>tbl := t'\<rparr>)"
      "t' = (if u \<in> V q then tbl ?p else add_vote (ap_pg_now A) u q (tbl ?p))"
      using upvote_no_faults[OF ok assms(2) canon assms(10,11) _ _ assms(13)] assms(9,12) True
      unfolding accounts_def V_def by blast
    show ?thesis
      by (rule that[of "VotesHandler_Upvote (ap_env A) ?repo" t'])
         (use up True t' voters_add_vote_if in \<open>auto simp: vote_endpoint_def after_vote_def V_def insert_absorb Upvote_handler_success[OF _ _ assms(6)]\<close>)
  next
    case False
    obtain t' where t': "RemoveVote ?repo u i ?p =
        (Inr \<lparr>RequestID = i, VoteCount = int (card (voters t' q)), UserVoted = False\<rparr>, ?p\<lparr>tbl := t'\<rparr>)"
      "t' = (if u \<in> V q then drop_vote (ap_pg_now A) u q (tbl ?p) else tbl ?p)"
      using remove_no_faults[OF ok assms(2) canon assms(10,11)] unfolding V_def by blast
    show ?thesis
      by (rule that[of "VotesHandler_RemoveVote (ap_env A) ?repo" t'])
         (use rem False t' voters_drop_vote_if in \<open>auto simp: vote_endpoint_def after_vote_def V_def RemoveVote_handler_success[OF _ _ assms(6)]\<close>)
  qed
  have "used_up ctr A (tc_UserID \<lparr>tc_UserID = u\<rparr>) s < 100" using assms(8) by simp
  from serve_protected[OF assms(4,14) h assms(5) _ assms(7) this] run assms(6) obtain s' where
    "serve A r s = (writeJSON (e_json (ap_env A)) 200
        (json_VoteResult \<lparr>RequestID = i, VoteCount = int (card (voters t' q)), UserVoted = put\<rparr>) ?w, s')"
    "sv_pg s' = ?p\<lparr>tbl := t'\<rparr>" by auto
  then show ?thesis using V by (simp add: writeJSON_body vote_body_def V_def)
qed

text \<open>
  C9: An access token lets its holder vote until it expires. Without database faults, below the rate
  limit and with room in the counter, a \<open>PUT\<close> of a vote on somebody else's request by a user with an
  account, with an access token the service issued to them and before that token's expiry, is
  answered 200, makes them a holder and reports the new number of holders; a \<open>DELETE\<close> takes them out.
  Nobody else's votes change.
\<close>

theorem session_can_vote:
  assumes "jwt_law (e_auth (ap_env A))"
    and "IssueAccessToken (e_auth (ap_env A)) (e_svc (ap_env A)) t0 u = Inr tok"
    and "e_now (ap_env A) < NewNumericDate (e_auth (ap_env A)) (t0 + as_accessTTL (e_svc (ap_env A)))"
    and "hr_Header r ''Authorization'' = ''Bearer '' @ tok"
    and "route (hr_Method r) (hr_Path r) = Matched (vote_endpoint put) i"
    and "vote_invariant (ap_lib A) (tbl (sv_pg s))" and "faults (sv_pg s) = []"
    and "u \<noteq> []" and "u \<in> accounts (tbl (sv_pg s))"
    and "parse_uuid (ap_lib A) i = Some q" and "author_of (tbl (sv_pg s)) q = Some a" and "put \<longrightarrow> a \<noteq> u"
    and "int (card (voters (tbl (sv_pg s)) q)) < int4_max"
    and "incr_law (ap_redis A) ctr" and "used_up ctr A u s < 100" and "labelled A r"
  shows "\<exists>w s'. serve A r s = (w, s') \<and> status w = 200
     \<and> voters (tbl (sv_pg s')) = (voters (tbl (sv_pg s)))(q := after_vote put u (voters (tbl (sv_pg s)) q))
     \<and> w_body w = vote_body A put i (card (voters (tbl (sv_pg s')) q))"
proof -
  have "VerifyAccessToken (e_auth (ap_env A)) (e_svc (ap_env A)) (e_now (ap_env A)) tok = Inr \<lparr>tc_UserID = u\<rparr>"
    unfolding VerifyAccessToken_def
    by (rule issued_verifies(1)[OF assms(1) assms(2)[unfolded IssueAccessToken_def] assms(3)])
  with assms(4) have "authenticated (ap_env A) r = Some \<lparr>tc_UserID = u\<rparr>" by (rule authenticated_bearer)
  from vote_served[OF assms(6,7) refl assms(5) this assms(8,14,15,9-13,16)] show ?thesis .
qed

theorem session_can_vote_witness:
  "voters (tbl (sv_pg (snd (serve demo_app (demo_request ''PUT'' ''/requests/r1/vote'' (bearer ''bob'') []) demo_server)))) ''r1'' = {''bob''}"
proof -
  let ?r = "demo_request ''PUT'' ''/requests/r1/vote'' (bearer ''bob'') []"
  have "IssueAccessToken demo_auth (e_svc demo_env) 0 ''bob'' = Inr ''10.a.bob''"
    by (simp add: IssueAccessToken_def issueToken_def demo_auth_def demo_env_def demo_token_def int64_range_def
        format_int_def digits.simps digit_char_def char_of_def bit_Suc_0_iff)
  moreover have "e_now demo_env < NewNumericDate demo_auth (0 + as_accessTTL (e_svc demo_env))"
    by (simp add: demo_env_def demo_auth_def)
  moreover have "hr_Header ?r ''Authorization'' = ''Bearer '' @ ''10.a.bob''" by (simp add: demo_request_def bearer_def)
  moreover have "route (hr_Method ?r) (hr_Path ?r) = Matched (vote_endpoint True) ''r1''"
    by (simp add: demo_request_def demo_vote_route vote_endpoint_def)
  moreover have "used_up ds_counter demo_app ''bob'' demo_server < 100"
    by (simp add: used_up_def demo_store_empty_def)
  ultimately have "\<exists>w s'. serve demo_app ?r demo_server = (w, s') \<and> status w = 200
      \<and> voters (tbl (sv_pg s')) = (voters demo_tables)(''r1'' := after_vote True ''bob'' (voters demo_tables ''r1''))
      \<and> w_body w = vote_body demo_app True ''r1'' (card (voters (tbl (sv_pg s')) ''r1''))"
    using session_can_vote[of demo_app 0 "''bob''" "''10.a.bob''" ?r True "''r1''" demo_server "''r1''" "''alice''" ds_counter]
      demo_jwt_law demo_vote_invariant demo_author demo_incr_law demo_rows demo_labelled[of ?r]
    by (simp add: demo_app_def demo_env_def demo_voters accounts_def int4_max_def)
  then show ?thesis by (auto simp: after_vote_def demo_voters)
qed

section \<open>Where tokens come from\<close>

lemma serve_open:
  assumes "route (hr_Method r) (hr_Path r) = Matched ep i" and "endpoint_handler A ep = with_pg h" and "ep \<noteq> EpMetrics"
    and "labelled A r"
    and "serve A r s = (w, s')"
  shows "h (entry r i) (set_security_headers fresh_response, sv_pg s) = (Returned, w, sv_pg s')"
proof -
  obtain w1 s1 where e: "endpoint_handler A ep (entry r i) (set_security_headers fresh_response, add_in_flight 1 s) = (Returned, w1, s1)"
    by (rule endpoint_returns[OF assms(3)])
  have "w1 = w" "sv_pg s1 = sv_pg s'" using serve_matched[OF assms(1,4) e] assms(5) by auto
  with e assms(2) show ?thesis by (auto simp: with_pg_def split: prod.splits)
qed

text \<open>The answer that carries the tokens of \<open>u\<close>, and the answers that report an error.\<close>

definition token_answer :: "'r app \<Rightarrow> endpoint \<Rightarrow> string \<Rightarrow> string" where
  "token_answer A ep u =
     (let E = ap_env A;
          access = token_or_empty (IssueAccessToken (e_auth E) (e_svc E) (e_now E) u);
          refresh = token_or_empty (IssueRefreshToken (e_auth E) (e_svc E) (e_now E) u)
      in js_print (e_json E) (if ep = EpRefresh then JObj [(''access_token'', JStr access)] else json_authResponse access refresh)
           @ [char_of (10::nat)])"

definition error_answer :: "'r app \<Rightarrow> response \<Rightarrow> bool" where
  "error_answer A w \<longleftrightarrow> status w \<in> {400, 401, 409, 500}
     \<and> (\<exists>code msg. w_body w = js_print (e_json (ap_env A)) (JObj [(''error'', JStr code), (''message'', JStr msg)]) @ [char_of (10::nat)])"

lemma error_answerI:
  assumes "refused_with (ap_env A) st (set_security_headers fresh_response) w"
    and "st \<in> {400, 401, 409, 500}"
  shows "error_answer A w"
proof -
  let ?w = "\<lambda>ls. (set_security_headers fresh_response)\<lparr>w_log := ls\<rparr>"
  from assms(1) obtain code msg ls where w: "w = writeError (e_json (ap_env A)) st code msg (?w ls)"
    by (auto simp: refused_with_def)
  have "w_sent (?w ls) = None" and "w_body (?w ls) = []" by simp_all
  with w assms(2) show ?thesis by (auto simp: error_answer_def writeError_def writeJSON_body)
qed

text \<open>What entitles to the tokens of \<open>u\<close> at each of the three endpoints.\<close>

definition entitled :: "'r app \<Rightarrow> endpoint \<Rightarrow> request \<Rightarrow> string \<Rightarrow> pg \<Rightarrow> pg \<Rightarrow> bool" where
  "entitled A ep r u p p' \<longleftrightarrow>
     (case ep of
        EpRegister \<Rightarrow> u \<notin> accounts (tbl p) \<and> u \<in> accounts (tbl p')
      | EpLogin \<Rightarrow> p' = p\<lparr>faults := faults p'\<rparr> \<and>
          (\<exists>req acc. Decode (e_json (ap_env A)) [''email'', ''password''] (hr_Body r) = Some req
             \<and> pg_account (ap_lib A) p (req ''email'') = Some acc \<and> ur_ID acc = u
             \<and> VerifyPassword (e_auth (ap_env A)) (ur_PasswordHash acc) (req ''password''))
      | EpRefresh \<Rightarrow> p' = p \<and>
          (\<exists>req. Decode (e_json (ap_env A)) [''refresh_token''] (hr_Body r) = Some req
             \<and> VerifyRefreshToken (e_auth (ap_env A)) (e_svc (ap_env A)) (e_now (ap_env A)) (req ''refresh_token'')
                 = Inr \<lparr>tc_UserID = u\<rparr>)
      | _ \<Rightarrow> False)"

lemma register_subject_new:
  assumes "AuthHandler_Register E (postgres_UserRepo L now gen) r (w, p) = (c, w', p')"
    and "register_subject E (postgres_UserRepo L now gen) r p = Some u"
  shows "u \<notin> accounts (tbl p) \<and> u \<in> accounts (tbl p')"
proof -
  let ?repo = "postgres_UserRepo L now gen"
  from assms(2) obtain e q a where "fst (Register (e_auth E) (e_salt E) ?repo e q p) = Inr a" "ur_ID a = u"
    by (auto simp: register_subject_def split: option.splits if_splits sum.splits)
  then obtain p1 where reg: "Register (e_auth E) (e_salt E) ?repo e q p = (Inr a, p1)" by (metis prod.collapse)
  then obtain h where "CreateUser L now gen e h p = (Inr a, p1)"
    by (auto simp: Register_def postgres_UserRepo_def split: sum.splits prod.splits if_splits)
  then have "ur_ID a \<notin> accounts (tbl p)"
    by (cases rule: CreateUser_cases) (auto simp: accounts_def user_record_def)
  with Register_handler_accounts(2)[OF assms] \<open>ur_ID a = u\<close> show ?thesis by simp
qed

lemma Login_state:
  assumes "Login A (postgres_UserRepo L now gen) email password p = (x, p')"
  shows "p' = p\<lparr>faults := faults p'\<rparr>"
  using Login_tables[OF assms] by (cases p, cases p') simp

lemma login_subject_entitled:
  assumes "AuthHandler_Login E (postgres_UserRepo L now gen) r (w, p) = (c, w', p')"
    and "login_subject E (postgres_UserRepo L now gen) r p = Some u" and "tables_ok L (tbl p)"
  obtains req acc where "Decode (e_json E) [''email'', ''password''] (hr_Body r) = Some req"
    "pg_account L p (req ''email'') = Some acc" "ur_ID acc = u"
    "VerifyPassword (e_auth E) (ur_PasswordHash acc) (req ''password'')" "p' = p\<lparr>faults := faults p'\<rparr>"
proof -
  let ?repo = "postgres_UserRepo L now gen"
  from assms(2) obtain req a where d: "Decode (e_json E) [''email'', ''password''] (hr_Body r) = Some req"
    and l: "fst (Login (e_auth E) ?repo (req ''email'') (req ''password'') p) = Inr a" "ur_ID a = u"
    by (auto simp: login_subject_def split: option.splits sum.splits)
  then obtain p1 where login: "Login (e_auth E) ?repo (req ''email'') (req ''password'') p = (Inr a, p1)"
    by (metis prod.collapse)
  have "p' = p1" using assms(1) d login by (simp add: AuthHandler_Login_def Let_def)
  with Login_state[OF login] have p': "p' = p\<lparr>faults := faults p'\<rparr>" by simp
  obtain g s1 where g: "GetUserByEmail L (req ''email'') p = (g, s1)" by (cases "GetUserByEmail L (req ''email'') p")
  with login have "g = Inr a" "VerifyPassword (e_auth E) (ur_PasswordHash a) (req ''password'')"
    by (auto simp: Login_def postgres_UserRepo_def split: sum.splits if_splits)
  moreover have "pg_account L p (req ''email'') = Some a"
    using GetUserByEmail_ok[of L "req ''email''" p a s1] g \<open>g = Inr a\<close> assms(3) by (auto simp: pg_account_def)
  ultimately show ?thesis using that d l(2) p' by blast
qed

lemma serve_refresh:
  assumes "route (hr_Method r) (hr_Path r) = Matched EpRefresh i" and "labelled A r" and "serve A r s = (w, s')"
  shows "AuthHandler_Refresh (ap_env A) r (set_security_headers fresh_response, add_in_flight 1 s) = (Returned, w, add_in_flight 1 s)"
    and "sv_pg s' = sv_pg s" and "sv_redis s' = sv_redis s"
proof -
  obtain w1 s1 where e: "endpoint_handler A EpRefresh (entry r i) (set_security_headers fresh_response, add_in_flight 1 s) = (Returned, w1, s1)"
    by (rule endpoint_returns[of EpRefresh]) simp
  then have h: "AuthHandler_Refresh (ap_env A) (entry r i) (set_security_headers fresh_response, add_in_flight 1 s) = (Returned, w1, s1)"
    by simp
  then have s1: "s1 = add_in_flight 1 s" by (rule Refresh_handler_answer[THEN conjunct1])
  have w: "w1 = w" "s' = after_request r w s1" using serve_matched[OF assms(1,2) e] assms(3) by auto
  with h s1 show "AuthHandler_Refresh (ap_env A) r (set_security_headers fresh_response, add_in_flight 1 s) = (Returned, w, add_in_flight 1 s)"
    by (simp add: AuthHandler_Refresh_def entry_def)
  show "sv_pg s' = sv_pg s" "sv_redis s' = sv_redis s" using w(2) s1 by (simp_all add: add_in_flight_def)
qed

text \<open>
  C10: Whatever faults occur, an account endpoint answers either with an error or with the tokens of
  a user who is entitled to them: registration of the account it has just created, login of the
  account whose address and password the body gives, refresh of the user a valid refresh token in
  the body names. Login leaves the tables as they are and refresh does not touch the database.
\<close>

theorem tokens_need_credentials:
  assumes "route (hr_Method r) (hr_Path r) = Matched ep i" and "ep \<in> {EpRegister, EpLogin, EpRefresh}"
    and "tables_ok (ap_lib A) (tbl (sv_pg s))" and "serve A r s = (w, s')" and "labelled A r"
  shows "error_answer A w \<or> (\<exists>u. w_body w = token_answer A ep u \<and> entitled A ep r u (sv_pg s) (sv_pg s'))"
proof -
  let ?repo = "postgres_UserRepo (ap_lib A) (ap_pg_now A) (ap_gen A)" and ?w = "set_security_headers fresh_response"
  consider "ep = EpRegister" | "ep = EpLogin" | "ep = EpRefresh" using assms(2) by blast
  then show ?thesis
  proof cases
    case 1
    with serve_open[OF assms(1) _ _ assms(5,4)]
    have h: "AuthHandler_Register (ap_env A) ?repo (entry r i) (?w, sv_pg s) = (Returned, w, sv_pg s')" by simp
    from Register_handler_answer[OF h] show ?thesis
    proof (elim disjE exE conjE bexE)
      fix u a b assume u: "register_subject (ap_env A) ?repo (entry r i) (sv_pg s) = Some u"
        "IssueAccessToken (e_auth (ap_env A)) (e_svc (ap_env A)) (e_now (ap_env A)) u = Inr a"
        "IssueRefreshToken (e_auth (ap_env A)) (e_svc (ap_env A)) (e_now (ap_env A)) u = Inr b"
        "w = writeJSON (e_json (ap_env A)) 201 (json_authResponse a b) ?w"
      have "entitled A ep r u (sv_pg s) (sv_pg s')" using register_subject_new[OF h u(1)] 1 by (simp add: entitled_def)
      moreover have "w_body w = token_answer A ep u"
        using u(2-4) 1 by (simp add: token_answer_def token_or_empty_def writeJSON_body Let_def)
      ultimately show ?thesis by blast
    qed (auto intro: error_answerI)
  next
    case 2
    with serve_open[OF assms(1) _ _ assms(5,4)]
    have h: "AuthHandler_Login (ap_env A) ?repo (entry r i) (?w, sv_pg s) = (Returned, w, sv_pg s')" by simp
    from Login_handler_answer[OF h] show ?thesis
    proof (elim disjE exE conjE bexE)
      fix u assume u: "login_subject (ap_env A) ?repo (entry r i) (sv_pg s) = Some u"
        "w = writeJSON (e_json (ap_env A)) 200 (json_authResponse
            (token_or_empty (IssueAccessToken (e_auth (ap_env A)) (e_svc (ap_env A)) (e_now (ap_env A)) u))
            (token_or_empty (IssueRefreshToken (e_auth (ap_env A)) (e_svc (ap_env A)) (e_now (ap_env A)) u))) ?w"
      have "hr_Body (entry r i) = hr_Body r" by (simp add: entry_def)
      with login_subject_entitled[OF h u(1) assms(3)] 2 have "entitled A ep r u (sv_pg s) (sv_pg s')"
        unfolding entitled_def by (simp only: endpoint.case) metis
      with u(2) 2 show ?thesis by (auto simp: token_answer_def writeJSON_body Let_def)
    qed (auto intro: error_answerI)
  next
    case 3
    with assms(1) have m: "route (hr_Method r) (hr_Path r) = Matched EpRefresh i" by simp
    from conjunct2[OF Refresh_handler_answer[OF serve_refresh(1)[OF m assms(5,4)]]] show ?thesis
    proof (elim disjE exE conjE bexE)
      fix u a assume u: "refresh_subject (ap_env A) r = Some u"
        "IssueAccessToken (e_auth (ap_env A)) (e_svc (ap_env A)) (e_now (ap_env A)) u = Inr a"
        "w = writeJSON (e_json (ap_env A)) 200 (JObj [(''access_token'', JStr a)]) ?w"
      have "entitled A ep r u (sv_pg s) (sv_pg s')"
        using u(1) serve_refresh(2)[OF m assms(5,4)] 3
        by (auto simp: entitled_def refresh_subject_def split: option.splits sum.splits)
      moreover have "w_body w = token_answer A ep u"
        using u(2,3) 3 by (simp add: token_answer_def token_or_empty_def writeJSON_body Let_def)
      ultimately show ?thesis by blast
    qed (auto intro: error_answerI)
  qed
qed

lemma demo_register_answer:
  "status (fst (serve demo_app (demo_request ''POST'' ''/auth/register'' [] ''carol@example.com pw'') empty_server)) = 201"
proof -
  let ?r = "demo_request ''POST'' ''/auth/register'' [] ''carol@example.com pw''"
  let ?h = "encode_hash ''0123456789abcdef'' (derive_key demo_auth ''pw'' ''0123456789abcdef'' argon2KeyLen)"
  have m: "route (hr_Method ?r) (hr_Path ?r) = Matched EpRegister []" unfolding demo_request_def by code_simp
  obtain req where req: "Decode demo_json [''email'', ''password''] ''carol@example.com pw'' = Some req"
    "req ''email'' = ''carol@example.com''" "req ''password'' = ''pw''"
    using demo_decode by (auto split: option.splits)
  have tokens: "\<exists>t. IssueAccessToken demo_auth (e_svc demo_env) 0 ''carol'' = Inr t"
    "\<exists>t. IssueRefreshToken demo_auth (e_svc demo_env) 0 ''carol'' = Inr t"
    by (simp_all add: IssueAccessToken_def IssueRefreshToken_def issueToken_def demo_auth_def demo_env_def int64_range_def)
  obtain w s' where sv: "serve demo_app ?r empty_server = (w, s')" by fastforce
  have "AuthHandler_Register demo_env (postgres_UserRepo demo_lib 9 ''carol'') (entry ?r [])
      (set_security_headers fresh_response, sv_pg empty_server) = (Returned, w, sv_pg s')"
    using serve_open[OF m _ _ demo_labelled sv] by (simp add: demo_app_def)
  then have "status w = 201"
    using register_new[of "sv_pg empty_server" "''carol''" demo_auth "''0123456789abcdef''" "''pw''" ?h demo_lib "''carol@example.com''" 9]
      req tokens
    by (auto simp: AuthHandler_Register_def entry_def demo_request_def demo_env_def empty_server_def
        empty_tables_def user_of_email_def HashPassword_def Let_def)
  with sv show ?thesis by simp
qed

theorem tokens_need_credentials_witness:
  "\<exists>u w s'. serve demo_app (demo_request ''POST'' ''/auth/register'' [] ''carol@example.com pw'') empty_server = (w, s')
     \<and> w_body w = token_answer demo_app EpRegister u \<and> u \<in> accounts (tbl (sv_pg s'))"
proof -
  let ?r = "demo_request ''POST'' ''/auth/register'' [] ''carol@example.com pw''"
  have m: "route (hr_Method ?r) (hr_Path ?r) = Matched EpRegister []" unfolding demo_request_def by code_simp
  obtain w s' where sv: "serve demo_app ?r empty_server = (w, s')" by fastforce
  have "tables_ok (ap_lib demo_app) (tbl (sv_pg empty_server))"
    by (simp add: demo_app_def empty_server_def empty_tables_def tables_ok_def)
  from tokens_need_credentials[OF m _ this sv demo_labelled] demo_register_answer sv show ?thesis
    by (auto simp: error_answer_def entitled_def)
qed

section \<open>Prolonging a session\<close>


text \<open>The application of the witnesses, with bodies that are a refresh token.\<close>

definition refresh_app :: "gotime \<Rightarrow> demo_store app" where
  "refresh_app now = demo_app\<lparr>ap_env := demo_env\<lparr>e_now := now,
     e_json := demo_json\<lparr>js_parse := (\<lambda>b. Some (JObj [(''refresh_token'', JStr b)]))\<rparr>\<rparr>\<rparr>"


end
