(* ===== verification/Http_Properties.thy ===== *)
theory Http_Properties
  imports Session_Properties
begin

text \<open>
  The correctness of the single endpoints: which status a vote gets and what it says about the
  database, conditional listing, the parameters of a listing, account endpoints and readiness.
\<close>

section \<open>Errors of the database driver\<close>

text \<open>
  The database and its driver do not return the service's own error variables; only the service
  wraps them in.
\<close>

definition foreign :: "goerror \<Rightarrow> bool" where
  "foreign e \<longleftrightarrow> (\<forall>t. t \<noteq> PgxErrNoRows \<longrightarrow> \<not> errors_Is e t)"

fun foreign_fault :: "fault \<Rightarrow> bool" where
  "foreign_fault NoFault = True"
| "foreign_fault (FailBefore e) = foreign e"
| "foreign_fault (FailAfter e) = foreign e"

definition driver_errors :: "pg \<Rightarrow> bool" where
  "driver_errors s \<longleftrightarrow> list_all foreign_fault (faults s)"

lemma foreign_simps [simp]:
  "foreign (Opaque m)" "foreign (PgError c m)" "foreign (Wrapf a e b) = foreign e" "foreign (Sentinel PgxErrNoRows)"
  by (auto simp: foreign_def)

lemma next_fault_driver:
  "driver_errors s \<Longrightarrow> next_fault s = (f, s1) \<Longrightarrow> foreign_fault f \<and> driver_errors s1"
  by (auto simp: driver_errors_def next_fault_def split: list.splits)

definition foreign_stmt :: "'a stmt \<Rightarrow> bool" where
  "foreign_stmt st \<longleftrightarrow> (\<forall>t e. st t = Inl e \<longrightarrow> foreign e)"

lemma Begin_driver: "driver_errors s \<Longrightarrow> Begin s = (r, s1) \<Longrightarrow> driver_errors s1 \<and> (\<forall>e. r = Inl e \<longrightarrow> foreign e)"
  by (auto simp: Begin_def split: prod.splits fault.splits dest: next_fault_driver)

lemma Commit_driver:
  assumes "driver_errors s" and "Commit t s = (r, s1)"
  shows "driver_errors s1 \<and> (\<forall>e. r = Inl e \<longrightarrow> foreign e)"
  using assms next_fault_driver[OF assms(1)]
  by (auto simp: Commit_def driver_errors_def split: prod.splits fault.splits)

lemma tx_Exec_driver:
  assumes "driver_errors s" and "foreign_stmt st" and "tx_Exec st t s = (r, s1)"
  shows "driver_errors s1 \<and> (\<forall>e. r = Inl e \<longrightarrow> foreign e)"
  using assms next_fault_driver[OF assms(1)]
  by (auto simp: tx_Exec_def foreign_stmt_def split: prod.splits fault.splits)

lemma query_row_driver:
  assumes "driver_errors s" and "foreign_stmt st" and "query_row st s = (Inl e, s1)"
  shows "foreign e"
proof -
  obtain f s0 where f: "next_fault s = (f, s0)" by (cases "next_fault s")
  from next_fault_driver[OF assms(1) f] have "foreign_fault f" by blast
  then show ?thesis
    using assms(2,3) f
    by (cases f) (auto simp: query_row_def run_stmt_def foreign_stmt_def split: prod.splits sum.splits list.splits)
qed

lemma vote_stmts_foreign:
  "foreign_stmt (insertVoteSQL L now u i)" "foreign_stmt (incrSQL L now i)"
  "foreign_stmt (selectVoteCountSQL L i)" "foreign_stmt (selectAuthorSQL L i)"
  by (auto simp: foreign_stmt_def insertVoteSQL_def incrSQL_def updateCountSQL_def selectVoteCountSQL_def
      selectAuthorSQL_def bind_uuid_def split: option.splits if_splits sum.splits)

lemma query_row_driver_state:
  assumes "driver_errors s" and "query_row st s = (r, s1)"
  shows "driver_errors s1"
proof -
  obtain f s0 where f: "next_fault s = (f, s0)" by (cases "next_fault s")
  from next_fault_driver[OF assms(1) f] have "driver_errors s0" by blast
  then show ?thesis
    using assms(2) f
    by (auto simp: query_row_def run_stmt_def driver_errors_def split: prod.splits sum.splits list.splits)
qed

lemma InsertVote_driver:
  assumes "driver_errors s" and "InsertVote L now u i s = (r, s')"
  shows "driver_errors s' \<and> (\<forall>e. r = Inl e \<longrightarrow> foreign e)"
proof -
  obtain b s1 where b: "Begin s = (b, s1)" by (cases "Begin s")
  note d1 = Begin_driver[OF assms(1) b]
  show ?thesis
  proof (cases b)
    case (Inl e')
    with assms(2) b d1 show ?thesis by (auto simp: InsertVote_def)
  next
    case (Inr t)
    obtain x s2 where x: "tx_Exec (insertVoteSQL L now u i) t s1 = (x, s2)"
      by (cases "tx_Exec (insertVoteSQL L now u i) t s1")
    from d1 have "driver_errors s1" by blast
    note d2 = tx_Exec_driver[OF this vote_stmts_foreign(1) x]
    show ?thesis
    proof (cases x)
      case (Inl e')
      with assms(2) b Inr x d2 show ?thesis by (auto simp: InsertVote_def)
    next
      case (Inr p)
      obtain ct t1 where p: "p = (ct, t1)" by (cases p)
      obtain y s3 where y: "(if ct > 0 then tx_Exec (incrSQL L now i) t1 s2 else (Inr (0, t1), s2)) = (y, s3)"
        by (cases "if ct > 0 then tx_Exec (incrSQL L now i) t1 s2 else (Inr (0, t1), s2)")
      have d3: "driver_errors s3 \<and> (\<forall>e. y = Inl e \<longrightarrow> foreign e)"
        using y d2 tx_Exec_driver[OF _ vote_stmts_foreign(2), of s2 L now i t1 y s3] by (auto split: if_splits)
      show ?thesis
      proof (cases y)
        case (Inl e')
        with assms(2) b \<open>b = Inr t\<close> x Inr p y d3 show ?thesis by (auto simp: InsertVote_def Let_def)
      next
        case yr: (Inr z)
        obtain n t2 where z: "z = (n, t2)" by (cases z)
        obtain m s4 where m: "Commit t2 s3 = (m, s4)" by (cases "Commit t2 s3")
        from d3 have "driver_errors s3" by blast
        note d4 = Commit_driver[OF this m]
        show ?thesis
          using assms(2) b \<open>b = Inr t\<close> x Inr p y yr z m d4
          by (cases m) (auto simp: InsertVote_def Let_def)
      qed
    qed
  qed
qed

lemma GetVoteCount_foreign:
  "driver_errors s \<Longrightarrow> GetVoteCount L i s = (Inl e, s') \<Longrightarrow> foreign e"
  by (auto simp: GetVoteCount_def split: prod.splits sum.splits if_splits
      dest: query_row_driver[OF _ vote_stmts_foreign(3)])

lemma GetRequestAuthorID_driver:
  "driver_errors s \<Longrightarrow> GetRequestAuthorID L i s = (r, s') \<Longrightarrow> driver_errors s'"
  by (auto simp: GetRequestAuthorID_def split: prod.splits sum.splits if_splits
      dest: query_row_driver_state)

section \<open>Voting\<close>

text \<open>The five ways an upvote can end, with what each says about the tables.\<close>

lemma upvote_outcomes:
  assumes "counters_ok L s" and "driver_errors s" and "Upvote (postgres_VoteRepo L now) u i s = (r, s')"
  obtains (done_vote) cu q where "parse_uuid L u = Some cu" "parse_uuid L i = Some q" "author_of (tbl s) q \<noteq> Some u"
      "cu \<in> voters (tbl s') q" "r = Inr \<lparr>RequestID = i, VoteCount = int (card (voters (tbl s') q)), UserVoted = True\<rparr>"
    | (own) q where "r = Inl (Sentinel ErrSelfVote)" "parse_uuid L i = Some q" "author_of (tbl s) q = Some u" "tbl s' = tbl s"
    | (missing) "r = Inl not_found_error" "tbl s' = tbl s"
    | (failed) e where "r = Inl e" "foreign e"
proof -
  let ?repo = "postgres_VoteRepo L now"
  obtain ra s1 where a: "GetRequestAuthorID L i s = (ra, s1)" by (cases "GetRequestAuthorID L i s")
  then have t1: "tbl s1 = tbl s" using GetRequestAuthorID_tbl[of L i s] by simp
  have d1: "driver_errors s1" by (rule GetRequestAuthorID_driver[OF assms(2) a])
  have ok: "tables_ok L (tbl s)" using assms(1) by (simp add: counters_ok_def)
  show ?thesis
  proof (cases ra)
    case (Inl e)
    with assms(3) a t1 have "r = Inl not_found_error" "tbl s' = tbl s"
      by (simp_all add: Upvote_def postgres_VoteRepo_def)
    then show ?thesis by (rule missing)
  next
    case (Inr au)
    from GetRequestAuthorID_ok[OF a[unfolded Inr] ok] obtain q where
      q: "parse_uuid L i = Some q" "author_of (tbl s) q = Some au" by blast
    show ?thesis
    proof (cases "au = u")
      case True
      with assms(3) a Inr t1 have "r = Inl (Sentinel ErrSelfVote)" "tbl s' = tbl s"
        by (simp_all add: Upvote_def postgres_VoteRepo_def)
      with q True show ?thesis by (intro own) simp_all
    next
      case False
      show ?thesis
      proof (cases r)
        case (Inr res)
        from pgvote.upvote_success[OF assms(1) assms(3)[unfolded Inr]] q(1) obtain cu where
          "parse_uuid L u = Some cu" "author_of (tbl s) q \<noteq> Some u"
          "voters (tbl s') = (voters (tbl s))(q := insert cu (voters (tbl s) q))"
          "res = \<lparr>RequestID = i, VoteCount = int (card (voters (tbl s') q)), UserVoted = True\<rparr>" by auto
        with q(1) Inr show ?thesis by (intro done_vote[of cu q]) simp_all
      next
        case (Inl e)
        obtain rb s2 where b: "InsertVote L now u i s1 = (rb, s2)" by (cases "InsertVote L now u i s1")
        note d2 = InsertVote_driver[OF d1 b]
        have "foreign e"
          using assms(3) a \<open>ra = Inr au\<close> False b d2 Inl
          by (auto simp: Upvote_def postgres_VoteRepo_def split: sum.splits prod.splits dest: GetVoteCount_foreign)
        with Inl show ?thesis by (rule failed)
      qed
    qed
  qed
qed

text \<open>
  C27: What the status of an upvote tells: 200 means the caller holds a vote on the request now, was
  not its author, and the body shows the exact number of holders; 403 means exactly that the
  caller wrote the request, 401 that there was no authenticated caller, and with 401, 403 and 404
  nothing was stored; everything else is a 500.
\<close>

theorem upvote_status_meaning:
  assumes "vote_invariant L (tbl p)" and "driver_errors p" and "w_sent w = None"
    and "VotesHandler_Upvote E (postgres_VoteRepo L now) r (w, p) = (c, w', p')"
    and "u = fst (GetUserID r)" and "i = hr_URLParam r ''id''"
  shows "c = Returned \<and> status w' \<in> {200, 401, 403, 404, 500}
     \<and> (status w' = 401 \<longleftrightarrow> \<not> snd (GetUserID r))
     \<and> (status w' = 200 \<longrightarrow> (\<exists>cu q. parse_uuid L u = Some cu \<and> parse_uuid L i = Some q
          \<and> author_of (tbl p) q \<noteq> Some u \<and> cu \<in> voters (tbl p') q
          \<and> w' = writeJSON (e_json E) 200 (json_VoteResult
               \<lparr>RequestID = i, VoteCount = int (card (voters (tbl p') q)), UserVoted = True\<rparr>) w))
     \<and> (status w' = 403 \<longrightarrow> (\<exists>q. parse_uuid L i = Some q \<and> author_of (tbl p) q = Some u))
     \<and> (status w' \<in> {401, 403, 404} \<longrightarrow> tbl p' = tbl p)"
proof (cases "snd (GetUserID r)")
  case False
  with assms(3,4) have "c = Returned" "status w' = 401" "p' = p"
    by (auto simp: VotesHandler_Upvote_def Let_def split: prod.splits)
  with False show ?thesis by simp
next
  case True
  have ok: "counters_ok L p" using assms(1) by (simp add: vote_invariant_iff_counters)
  obtain x s1 where up: "Upvote (postgres_VoteRepo L now) u i p = (x, s1)"
    by (cases "Upvote (postgres_VoteRepo L now) u i p")
  have h: "(c, w', p') = (case x of
      Inl e \<Rightarrow> if errors_Is e ErrSelfVote
             then (Returned, writeError (e_json E) 403 ''forbidden_self_vote'' ''you cannot vote on your own request'' w, s1)
             else if errors_Is e ErrNotFound
             then (Returned, writeError (e_json E) 404 ''not_found'' ''feature request not found'' w, s1)
             else (Returned, writeError (e_json E) 500 ''internal_error'' ''vote failed'' (log_error ''upvote'' e w), s1)
    | Inr res \<Rightarrow> (Returned, writeJSON (e_json E) 200 (json_VoteResult res) w, s1))"
    using assms(4,5,6) True up by (auto simp: VotesHandler_Upvote_def Let_def split: prod.splits)
  from ok assms(2) up show ?thesis
  proof (cases rule: upvote_outcomes)
    case (done_vote cu q)
    with h assms(3) True show ?thesis by auto
  next
    case (own q)
    with h assms(3) True show ?thesis by auto
  next
    case missing
    with h assms(3) True show ?thesis by (auto simp: not_found_error_def)
  next
    case (failed e)
    then have "\<not> errors_Is e ErrSelfVote" "\<not> errors_Is e ErrNotFound" by (simp_all add: foreign_def)
    with failed h assms(3) True show ?thesis by auto
  qed
qed

theorem upvote_status_meaning_witness:
  "\<exists>c w' p'. VotesHandler_Upvote demo_env (postgres_VoteRepo demo_lib 9)
      (demo_request ''PUT'' ''/requests/r1/vote'' [] []) (fresh_response, demo_pg) = (c, w', p')
    \<and> status w' = 401 \<and> tbl p' = demo_tables"
proof -
  let ?r = "demo_request ''PUT'' ''/requests/r1/vote'' [] []"
  obtain c w' p' where h: "VotesHandler_Upvote demo_env (postgres_VoteRepo demo_lib 9) ?r (fresh_response, demo_pg) = (c, w', p')"
    by (rule prod_cases3)
  have "driver_errors demo_pg" "\<not> snd (GetUserID ?r)"
    by (simp_all add: driver_errors_def GetUserID_def demo_request_def)
  with upvote_status_meaning[OF _ _ _ h refl refl] h show ?thesis
    by (auto simp: demo_vote_invariant)
qed

text \<open>Who a request may act for: the canonical id in its accepted token.\<close>

definition acts_for :: "'r app \<Rightarrow> request \<Rightarrow> string \<Rightarrow> bool" where
  "acts_for A r x \<longleftrightarrow>
     (\<exists>c. authenticated (ap_env A) r = Some c \<and> parse_uuid (ap_lib A) (tc_UserID c) = Some x)"

text \<open>The invariant holds and the votes of everybody else are those of \<open>t0\<close>.\<close>

definition others_kept :: "'r app \<Rightarrow> request \<Rightarrow> tables \<Rightarrow> tables \<Rightarrow> bool" where
  "others_kept A r t0 t \<longleftrightarrow> vote_invariant (ap_lib A) t
     \<and> (\<forall>i x. \<not> acts_for A r x \<longrightarrow> (x \<in> voters t i \<longleftrightarrow> x \<in> voters t0 i))"

lemma acts_for_entry [simp]: "acts_for A (entry r i) = acts_for A r"
  by (simp add: acts_for_def fun_eq_iff)

lemma same_votes_voters: "votes t' = votes t \<Longrightarrow> voters t' = voters t"
  by (simp add: voters_def fun_eq_iff)

lemma Submit_votes:
  assumes "Submit (postgres_RequestRepo L now gen) u t d s = (res, s')"
  shows "votes (tbl s') = votes (tbl s)"
  using Submit_tables[OF assms] by (auto simp: add_request_def)

lemma others_kept_pg:
  assumes "app_ok (ap_lib A) A" and "honest A r" and "ep \<noteq> EpUpvote" and "ep \<noteq> EpRemoveVote"
  shows "keeps (\<lambda>t. vote_invariant (ap_lib A) t \<and> votes t = V) (endpoint_handler A ep) r"
proof -
  have gen: "parse_uuid (ap_lib A) (ap_gen A) = Some (ap_gen A)" using assms(1) by (simp add: app_ok_def)
  let ?P = "\<lambda>t. vote_invariant (ap_lib A) t \<and> votes t = V"
  have reg: "?P (tbl p')" if "AuthHandler_Register (ap_env A) (postgres_UserRepo (ap_lib A) now (ap_gen A)) r' (w, p) = (c, w', p')"
    "?P (tbl p)" for r' now w w' p p' c
    using that Register_keeps_invariant[OF _ gen]
    by (auto simp: AuthHandler_Register_def Let_def split: option.splits if_splits sum.splits prod.splits)
  have sub: "?P (tbl p')" if "RequestsHandler_Submit (ap_env A) (postgres_RequestRepo (ap_lib A) now (ap_gen A)) r' (w, p) = (c, w', p')"
    "?P (tbl p)" for r' now w w' p p' c
    using that Submit_keeps_invariant[OF _ gen] Submit_votes
    by (auto simp: RequestsHandler_Submit_def Let_def split: option.splits if_splits sum.splits prod.splits)
  show ?thesis
  proof (cases ep)
    case EpRegister
    then show ?thesis by (auto intro!: keeps_with_pg dest: reg)
  next
    case EpSubmit
    then show ?thesis by (auto intro!: keeps_protected dest: sub)
  next
    case EpReadyz
    then show ?thesis by (auto intro!: keepsI dest: Readyz_tables)
  next
    case EpRefresh
    then show ?thesis
      by (auto intro!: keepsI simp: AuthHandler_Refresh_def Let_def split: option.splits sum.splits)
  qed (use assms(3,4) in \<open>auto simp: Healthz_def Health_def intro!: keepsI keeps_with_pg keeps_protected
      dest: Login_handler_tables List_handler_tables GetByID_handler_tables\<close>)
qed

lemma Upvote_others:
  assumes "counters_ok L s" and "Upvote (postgres_VoteRepo L now) u i s = (r, s')" and "parse_uuid L u \<noteq> Some x"
  shows "x \<in> voters (tbl s') j \<longleftrightarrow> x \<in> voters (tbl s) j"
  using pgvote.upvote_any[OF assms(1,2)] assms(3) by (auto split: if_splits)

lemma RemoveVote_others:
  assumes "counters_ok L s" and "RemoveVote (postgres_VoteRepo L now) u i s = (r, s')" and "parse_uuid L u \<noteq> Some x"
  shows "x \<in> voters (tbl s') j \<longleftrightarrow> x \<in> voters (tbl s) j"
  using pgvote.remove_any[OF assms(1,2)] assms(3) by (auto split: if_splits)

lemma Upvote_handler_others:
  assumes "counters_ok L p" and "parse_uuid L (fst (GetUserID r)) \<noteq> Some x"
    and "VotesHandler_Upvote E (postgres_VoteRepo L now) r (w, p) = (c, w', p')"
  shows "x \<in> voters (tbl p') j \<longleftrightarrow> x \<in> voters (tbl p) j"
proof -
  obtain y s1 where up: "Upvote (postgres_VoteRepo L now) (fst (GetUserID r)) (hr_URLParam r ''id'') p = (y, s1)"
    by (cases "Upvote (postgres_VoteRepo L now) (fst (GetUserID r)) (hr_URLParam r ''id'') p")
  have "p' = p \<or> p' = s1"
    using assms(3) up by (auto simp: VotesHandler_Upvote_def Let_def split: prod.splits sum.splits if_splits)
  with Upvote_others[OF assms(1) up assms(2)] show ?thesis by auto
qed

lemma RemoveVote_handler_others:
  assumes "counters_ok L p" and "parse_uuid L (fst (GetUserID r)) \<noteq> Some x"
    and "VotesHandler_RemoveVote E (postgres_VoteRepo L now) r (w, p) = (c, w', p')"
  shows "x \<in> voters (tbl p') j \<longleftrightarrow> x \<in> voters (tbl p) j"
proof -
  obtain y s1 where up: "RemoveVote (postgres_VoteRepo L now) (fst (GetUserID r)) (hr_URLParam r ''id'') p = (y, s1)"
    by (cases "RemoveVote (postgres_VoteRepo L now) (fst (GetUserID r)) (hr_URLParam r ''id'') p")
  have "p' = p \<or> p' = s1"
    using assms(3) up by (auto simp: VotesHandler_RemoveVote_def Let_def split: prod.splits sum.splits if_splits)
  with RemoveVote_others[OF assms(1) up assms(2)] show ?thesis by auto
qed

lemma others_kept_endpoint:
  assumes "app_ok (ap_lib A) A" and "honest A r"
  shows "keeps (others_kept A r t0) (endpoint_handler A ep) r"
proof (cases "ep = EpUpvote \<or> ep = EpRemoveVote")
  case False
  have "others_kept A r t0 (tbl (sv_pg s'))"
    if k: "others_kept A r t0 (tbl (sv_pg s))" and h: "endpoint_handler A ep r (w, s) = (c, w', s')" for w s c w' s'
  proof -
    have "vote_invariant (ap_lib A) (tbl (sv_pg s')) \<and> votes (tbl (sv_pg s')) = votes (tbl (sv_pg s))"
      using keepsD[OF others_kept_pg[OF assms, of ep "votes (tbl (sv_pg s))"] _ h] k False
      by (simp add: others_kept_def)
    moreover from this have "voters (tbl (sv_pg s')) = voters (tbl (sv_pg s))" by (intro same_votes_voters) blast
    ultimately show ?thesis using k by (simp add: others_kept_def)
  qed
  then show ?thesis by (intro keepsI)
next
  case True
  have canon: "parse_uuid (ap_lib A) (tc_UserID c) = Some (tc_UserID c)" if "authenticated (ap_env A) r = Some c" for c
    using assms(2) that by (simp add: honest_def)
  have others: "parse_uuid (ap_lib A) (tc_UserID c) \<noteq> Some x"
    if "authenticated (ap_env A) r = Some c" "\<not> acts_for A r x" for c x
    using that by (auto simp: acts_for_def)
  have up: "others_kept A r t0 (tbl p')"
    if a: "authenticated (ap_env A) r = Some u" and k: "others_kept A r t0 (tbl p)"
      and h: "VotesHandler_Upvote (ap_env A) (postgres_VoteRepo (ap_lib A) now) (r\<lparr>hr_UserID := Some (tc_UserID u)\<rparr>) (w, p) = (c, w', p')"
    for u p w c w' p' now
  proof -
    have inv: "vote_invariant (ap_lib A) (tbl p)" using k by (simp add: others_kept_def)
    then have ok: "counters_ok (ap_lib A) p" by (simp add: vote_invariant_iff_counters)
    have "vote_invariant (ap_lib A) (tbl p')"
      by (rule Upvote_handler_keeps[OF _ canon[OF a] inv h]) simp
    with k Upvote_handler_others[OF ok _ h] others[OF a] show ?thesis by (auto simp: others_kept_def)
  qed
  have rem: "others_kept A r t0 (tbl p')"
    if a: "authenticated (ap_env A) r = Some u" and k: "others_kept A r t0 (tbl p)"
      and h: "VotesHandler_RemoveVote (ap_env A) (postgres_VoteRepo (ap_lib A) now) (r\<lparr>hr_UserID := Some (tc_UserID u)\<rparr>) (w, p) = (c, w', p')"
    for u p w c w' p' now
  proof -
    have inv: "vote_invariant (ap_lib A) (tbl p)" using k by (simp add: others_kept_def)
    then have ok: "counters_ok (ap_lib A) p" by (simp add: vote_invariant_iff_counters)
    have "vote_invariant (ap_lib A) (tbl p')" by (rule RemoveVote_handler_keeps[OF inv h])
    with k RemoveVote_handler_others[OF ok _ h] others[OF a] show ?thesis by (auto simp: others_kept_def)
  qed
  from True show ?thesis
  proof
    assume "ep = EpUpvote"
    then show ?thesis by (simp only: endpoint_handler.simps) (rule keeps_protected, rule up)
  next
    assume "ep = EpRemoveVote"
    then show ?thesis by (simp only: endpoint_handler.simps) (rule keeps_protected, rule rem)
  qed
qed

text \<open>
  C8: In every state of the running system, no request, whatever it is and whatever fails, changes a
  vote of anybody but the user its accepted token names; without an accepted token no vote changes
  at all. The hypothesis \<open>system_ok\<close> holds in every reachable state (lemma \<open>reachable_system\<close>).
\<close>

theorem requests_change_only_own_votes:
  assumes "system_ok L (s, G)" and "app_ok L A" and "unforged A r G" and "serve A r s = (w, s')"
    and "(x \<in> voters (tbl (sv_pg s')) i) \<noteq> (x \<in> voters (tbl (sv_pg s)) i)"
  shows "authenticated (ap_env A) r = Some \<lparr>tc_UserID = x\<rparr>"
proof -
  have L: "ap_lib A = L" "app_ok (ap_lib A) A" using assms(2) by (simp_all add: app_ok_def)
  have h: "honest A r" by (rule unforged_honest[OF assms(2,3,1)])
  then have e: "honest A (entry r j)" for j by (simp add: honest_def)
  have "others_kept A r (tbl (sv_pg s)) (tbl (sv_pg (snd (serve A r s))))"
  proof (rule serve_keeps)
    fix ep j
    have eq: "others_kept A (entry r j) = others_kept A r" by (simp add: others_kept_def fun_eq_iff)
    from others_kept_endpoint[OF L(2) e[of j]]
    have "keeps (others_kept A r (tbl (sv_pg s))) (endpoint_handler A ep) (entry r j)" by (simp only: eq)
    then show "keeps (others_kept A r (tbl (sv_pg s))) (endpoint_handler A ep) (r\<lparr>hr_UserID := None, hr_URLParam := \<lambda>_. j\<rparr>)"
      by (simp only: entry_def)
    show "others_kept A r (tbl (sv_pg s)) (tbl (sv_pg s))" using assms(1) L(1) by (simp add: others_kept_def system_ok_def)
  qed
  with assms(4,5) have "acts_for A r x" by (auto simp: others_kept_def)
  then obtain c where c: "authenticated (ap_env A) r = Some c" "parse_uuid L (tc_UserID c) = Some x"
    by (auto simp: acts_for_def L(1))
  then have "tc_UserID c = x" using h L(1) by (simp add: honest_def)
  then show ?thesis using c(1) by (cases c) simp
qed

lemma demo_vote_served:
  "''bob'' \<in> voters (tbl (sv_pg (snd (serve demo_app (demo_request ''PUT'' ''/requests/r1/vote'' (bearer ''bob'') []) demo_server)))) ''r1''"
proof -
  let ?r = "demo_request ''PUT'' ''/requests/r1/vote'' (bearer ''bob'') []"
  have m: "route (hr_Method ?r) (hr_Path ?r) = Matched (vote_endpoint True) ''r1''"
    by (simp add: demo_request_def demo_vote_route vote_endpoint_def)
  have a: "authenticated (ap_env demo_app) ?r = Some \<lparr>tc_UserID = ''bob''\<rparr>"
    by (simp add: demo_app_def demo_authenticated)
  have "used_up ds_counter demo_app ''bob'' demo_server < 100" by (simp add: used_up_def demo_store_empty_def)
  then have "\<exists>w s'. serve demo_app ?r demo_server = (w, s') \<and> status w = 200
      \<and> voters (tbl (sv_pg s')) = (voters demo_tables)(''r1'' := after_vote True ''bob'' (voters demo_tables ''r1''))
      \<and> w_body w = vote_body demo_app True ''r1'' (card (voters (tbl (sv_pg s')) ''r1''))"
    using vote_served[of demo_lib demo_server demo_app, OF _ _ _ m a, of ds_counter "''r1''" "''alice''"]
      demo_vote_invariant demo_author demo_incr_law demo_rows demo_labelled[of ?r]
    by (simp add: demo_app_def demo_voters accounts_def int4_max_def)
  then obtain w s' where "serve demo_app ?r demo_server = (w, s')"
    "voters (tbl (sv_pg s')) = (voters demo_tables)(''r1'' := after_vote True ''bob'' (voters demo_tables ''r1''))" by blast
  then show ?thesis by (simp add: after_vote_def)
qed

theorem requests_change_only_own_votes_witness:
  "\<exists>w s'. serve demo_app (demo_request ''PUT'' ''/requests/r1/vote'' (bearer ''bob'') []) demo_server = (w, s')
     \<and> voters (tbl (sv_pg s')) ''r1'' \<subseteq> {''bob''} \<and> ''bob'' \<in> voters (tbl (sv_pg s')) ''r1''"
proof -
  let ?r = "demo_request ''PUT'' ''/requests/r1/vote'' (bearer ''bob'') []"
  obtain w s' where sv: "serve demo_app ?r demo_server = (w, s')" by fastforce
  have auth: "authenticated (ap_env demo_app) ?r = Some \<lparr>tc_UserID = ''bob''\<rparr>"
    by (simp add: demo_app_def demo_authenticated)
  then have forged: "unforged demo_app ?r {''bob''}"
    by (simp add: unforged_def) (simp add: demo_request_def demo_vote_route)
  have sys: "system_ok demo_lib (demo_server, {''bob''})"
    by (simp add: system_ok_def demo_vote_invariant accounts_def demo_rows)
  have "x = ''bob''" if "x \<in> voters (tbl (sv_pg s')) ''r1''" for x
  proof -
    have "(x \<in> voters (tbl (sv_pg s')) ''r1'') \<noteq> (x \<in> voters (tbl (sv_pg demo_server)) ''r1'')"
      using that by (simp add: demo_voters)
    from requests_change_only_own_votes[OF sys demo_app_ok forged sv this] auth show ?thesis by simp
  qed
  then have "voters (tbl (sv_pg s')) ''r1'' \<subseteq> {''bob''}" by blast
  moreover have "''bob'' \<in> voters (tbl (sv_pg s')) ''r1''" using demo_vote_served sv by simp
  ultimately show ?thesis using sv by blast
qed

end
