(* ===== verification/List_Properties.thy ===== *)
theory List_Properties
  imports Request_Properties Server_Properties
begin

text \<open>
  The list endpoint as a client sees it: the conditional requests its \<open>ETag\<close> serves, the bounds of
  the page size it asks the service for, and what an empty list looks like.
\<close>

text \<open>The text of a page, as it is sent and as it is hashed.\<close>

definition page_text :: "env \<Rightarrow> RequestPage \<Rightarrow> string" where
  "page_text E page = js_print (e_json E) (json_RequestPage (e_json E) page)"

lemma quoted_nonempty [simp]: "quoted y \<noteq> []" "[] \<noteq> quoted y"
  by (simp_all add: quoted_def)

lemma list_params_limit: "1 \<le> Limit (list_params r)" "Limit (list_params r) \<le> 100"
  by (auto simp: list_params_def Let_def split: prod.split option.split)

lemma list_handler_cases:
  assumes "RequestsHandler_List E repo r (fresh_response, s) = (c, w, s')"
  obtains (failed) e where "RankingService_List repo (list_params r) s = (Inl e, s')" "status w = 500" "c = Returned"
  | (same) page where "RankingService_List repo (list_params r) s = (Inr page, s')" "c = Returned"
      "hr_Header r ''If-None-Match'' = quoted (computeETag E page)" "status w = 304" "w_body w = []"
      "sent_header w ''ETag'' = Some (quoted (computeETag E page))"
  | (page) page where "RankingService_List repo (list_params r) s = (Inr page, s')" "c = Returned"
      "hr_Header r ''If-None-Match'' \<noteq> quoted (computeETag E page)" "status w = 200"
      "w_body w = page_text E page @ [char_of (10::nat)]"
      "sent_header w ''ETag'' = Some (quoted (computeETag E page))"
proof -
  obtain x t where l: "RankingService_List repo (list_params r) s = (x, t)"
    by (cases "RankingService_List repo (list_params r) s")
  show ?thesis
  proof (cases x)
    case (Inl e)
    with assms l failed show ?thesis by (auto simp: RequestsHandler_List_def)
  next
    case (Inr p)
    show ?thesis
    proof (cases "hr_Header r ''If-None-Match'' = quoted (computeETag E p)")
      case True
      with assms l Inr show ?thesis
        by (intro same[of p]) (auto simp: RequestsHandler_List_def Let_def WriteHeader_def send_status_def Header_Set_def
            sent_header_def status_def)
    next
      case False
      with assms l Inr show ?thesis
        by (intro page[of p]) (auto simp: RequestsHandler_List_def Let_def page_text_def writeJSON_body writeJSON_header
            Header_Set_def)
    qed
  qed
qed

text \<open>
  C30: Conditional polling tells the truth. A client that repeats a listing with the tag of the page it
  has, is answered 304 without a body exactly when the page would have the same text as the one it has
  (provided the tag, 64 bits of a SHA-256 sum, distinguishes the two texts); and with the new page
  and its tag, or an error, otherwise.
\<close>

theorem conditional_list_exact:
  assumes "RequestsHandler_List E repo r0 (fresh_response, s0) = (c0, w0, s0')" and "status w0 = 200"
    and "RequestsHandler_List E repo r (fresh_response, s) = (c, w, s')"
    and "sent_header w0 ''ETag'' = Some (hr_Header r ''If-None-Match'')"
    and "\<And>p0 p. \<lbrakk>w_body w0 = page_text E p0 @ [char_of (10::nat)]; RankingService_List repo (list_params r) s = (Inr p, s');
           computeETag E p0 = computeETag E p\<rbrakk> \<Longrightarrow> page_text E p0 = page_text E p"
  shows "case RankingService_List repo (list_params r) s of
     (Inl e, _) \<Rightarrow> status w = 500
   | (Inr p, _) \<Rightarrow>
       if page_text E p @ [char_of (10::nat)] = w_body w0 then status w = 304 \<and> w_body w = []
       else status w = 200 \<and> w_body w = page_text E p @ [char_of (10::nat)]
              \<and> sent_header w ''ETag'' \<noteq> Some (hr_Header r ''If-None-Match'')"
proof -
  obtain p0 where p0: "w_body w0 = page_text E p0 @ [char_of (10::nat)]" "hr_Header r ''If-None-Match'' = quoted (computeETag E p0)"
    using assms(1,2,4) by (cases rule: list_handler_cases[OF assms(1)]) auto
  have tag: "quoted (computeETag E p0) = quoted (computeETag E p) \<longleftrightarrow> page_text E p = page_text E p0"
    if "RankingService_List repo (list_params r) s = (Inr p, s')" for p
    using assms(5)[OF p0(1) that] by (auto simp: quoted_def computeETag_def page_text_def)
  show ?thesis
    by (cases rule: list_handler_cases[OF assms(3)]) (use p0 tag in auto)
qed

lemma empty_listing:
  assumes "feature_requests (tbl p) = []" and "faults p = []" and "parse_uuid L (ViewerID ps) = Some v" and "Cursor ps = None"
  shows "RankingService_List (postgres_RankingRepo L) ps p = (Inr \<lparr>Items = [], NextCursor = None\<rparr>, p)"
  using assms by (auto simp: RankingService_List_page list_page_def postgres_ranking_lister ListRequestsByTop_def
      ListRequestsByNew_def query_rows_def next_fault_def listSQL_def bind_uuid_def usable_cursor_def keyset_page_def
      collectRequests_def page_of_def)

definition bob_lists :: "string \<Rightarrow> request" where
  "bob_lists tag = (demo_request ''GET'' ''/requests'' [] [])
     \<lparr>hr_UserID := Some ''bob'', hr_Header := (\<lambda>h. if h = ''If-None-Match'' then tag else [])\<rparr>"

definition no_requests :: pg where
  "no_requests = demo_pg\<lparr>tbl := empty_tables\<rparr>"

lemma bob_lists_tag [simp]: "hr_Header (bob_lists tag) ''If-None-Match'' = tag"
  by (simp add: bob_lists_def)

lemma bob_lists_nothing:
  "RankingService_List (postgres_RankingRepo demo_lib) (list_params (bob_lists tag)) no_requests
     = (Inr \<lparr>Items = [], NextCursor = None\<rparr>, no_requests)"
  by (rule empty_listing) (simp_all add: no_requests_def empty_tables_def list_params_def bob_lists_def GetUserID_def
      demo_request_def Let_def)

theorem conditional_list_exact_witness:
  "\<exists>c w s'. RequestsHandler_List demo_env (postgres_RankingRepo demo_lib)
      (bob_lists (quoted (computeETag demo_env \<lparr>Items = [], NextCursor = None\<rparr>))) (fresh_response, no_requests) = (c, w, s')
    \<and> status w = 304 \<and> w_body w = []"
proof -
  let ?h = "RequestsHandler_List demo_env (postgres_RankingRepo demo_lib)"
  let ?r = "bob_lists (quoted (computeETag demo_env \<lparr>Items = [], NextCursor = None\<rparr>))"
  obtain c0 w0 s0' where h0: "?h (bob_lists []) (fresh_response, no_requests) = (c0, w0, s0')" by (rule prod_cases3)
  obtain c w s' where h: "?h ?r (fresh_response, no_requests) = (c, w, s')" by (rule prod_cases3)
  have w0: "status w0 = 200" "w_body w0 = page_text demo_env \<lparr>Items = [], NextCursor = None\<rparr> @ [char_of (10::nat)]"
    "sent_header w0 ''ETag'' = Some (hr_Header ?r ''If-None-Match'')"
    by (cases rule: list_handler_cases[OF h0]; simp add: bob_lists_nothing; fail)+
  have "case RankingService_List (postgres_RankingRepo demo_lib) (list_params ?r) no_requests of
     (Inl e, _) \<Rightarrow> status w = 500
   | (Inr p, _) \<Rightarrow>
       if page_text demo_env p @ [char_of (10::nat)] = w_body w0 then status w = 304 \<and> w_body w = []
       else status w = 200 \<and> w_body w = page_text demo_env p @ [char_of (10::nat)]
              \<and> sent_header w ''ETag'' \<noteq> Some (hr_Header ?r ''If-None-Match'')"
  proof (rule conditional_list_exact[OF h0 w0(1) h w0(3)])
    fix p0 p
    assume "w_body w0 = page_text demo_env p0 @ [char_of (10::nat)]"
      and "RankingService_List (postgres_RankingRepo demo_lib) (list_params ?r) no_requests = (Inr p, s')"
    then show "page_text demo_env p0 = page_text demo_env p" by (simp add: w0(2) bob_lists_nothing)
  qed
  with h w0(2) show ?thesis by (simp add: bob_lists_nothing)
qed

text \<open>
  A listing with nothing to show is answered 200 with a page whose items are JSON's null, not an
  empty array, which is what the API description promises: the repository's result is a nil slice.
\<close>

theorem empty_page_is_null:
  assumes "feature_requests (tbl p) = []" and "faults p = []" and "parse_uuid L (fst (GetUserID r)) = Some v"
    and "hr_Query r ''cursor'' = []" and "hr_Header r ''If-None-Match'' = []"
    and "RequestsHandler_List E (postgres_RankingRepo L) r (fresh_response, p) = (c, w, p')"
  shows "status w = 200 \<and> w_body w = js_print (e_json E) (JObj [(''items'', JNull), (''next_cursor'', JNull)]) @ [char_of (10::nat)]
     \<and> p' = p"
proof -
  have "RankingService_List (postgres_RankingRepo L) (list_params r) p = (Inr \<lparr>Items = [], NextCursor = None\<rparr>, p)"
    using assms(1-4) by (intro empty_listing) (auto simp: list_params_def Let_def split: prod.split)
  with assms(5) show ?thesis
    by (cases rule: list_handler_cases[OF assms(6)]) (auto simp: page_text_def json_RequestPage_def json_items_def)
qed

theorem empty_page_is_null_witness:
  "\<exists>c w. RequestsHandler_List demo_env (postgres_RankingRepo demo_lib) (bob_lists []) (fresh_response, no_requests) = (c, w, no_requests)
     \<and> w_body w = ''null'' @ [char_of (10::nat)]"
proof -
  obtain c w p' where h: "RequestsHandler_List demo_env (postgres_RankingRepo demo_lib) (bob_lists []) (fresh_response, no_requests)
      = (c, w, p')" by (rule prod_cases3)
  with empty_page_is_null[OF _ _ _ _ _ h, of "''bob''"] show ?thesis
    by (simp add: no_requests_def empty_tables_def bob_lists_def GetUserID_def demo_request_def demo_env_def demo_json_def)
qed

end
