(* ===== verification/Interleaving.thy ===== *)
theory Interleaving
  imports Reconcile Vote_Service Ranking_Properties
begin

text \<open>
  The server runs handlers and jobs in goroutines over one database. Here the vote operations and
  the reconciliation pass are cut at their repository calls: a program is a tree of calls, each of
  which is one transaction (or one statement) on the shared state, and a schedule says which
  goroutine makes its next call. Running a program alone is the operation of the sequential model
  (\<open>run_Upvote_prog\<close> and its companions). A call itself is one step; for the vote
  transactions, which have two statements, \<open>Serialisability\<close> shows that this is no restriction.
\<close>

section \<open>Programs and schedules\<close>

datatype ('s, 'a) prog = Return 'a | Call "'s \<Rightarrow> 's" "'s \<Rightarrow> ('s, 'a) prog"

definition call :: "('s, 'b) eff \<Rightarrow> ('b result \<Rightarrow> ('s, 'a) prog) \<Rightarrow> ('s, 'a) prog" where
  "call f k = Call (\<lambda>s. snd (f s)) (\<lambda>s. k (fst (f s)))"

primrec run :: "('s, 'a) prog \<Rightarrow> 's \<Rightarrow> 'a \<times> 's" where
  "run (Return x) s = (x, s)"
| "run (Call e k) s = run (k s) (e s)"

fun advance :: "('s, 'a) prog \<Rightarrow> 's \<Rightarrow> ('s, 'a) prog \<times> 's" where
  "advance (Return x) s = (Return x, s)"
| "advance (Call e k) s = (k s, e s)"

fun schedule :: "nat list \<Rightarrow> ('s, 'a) prog list \<Rightarrow> 's \<Rightarrow> ('s, 'a) prog list \<times> 's" where
  "schedule [] ps s = (ps, s)"
| "schedule (i # is) ps s =
     (if i < length ps
      then (case advance (ps ! i) s of (p, s') \<Rightarrow> schedule is (ps[i := p]) s')
      else schedule is ps s)"

lemma run_call [simp]: "run (call f k) s = run (k (fst (f s))) (snd (f s))"
  by (simp add: call_def)

lemma advance_run: "advance p s = (p', s') \<Longrightarrow> run p' s' = run p s"
  by (cases p) auto

text \<open>Every call a program may still make keeps a predicate.\<close>

primrec stays :: "('s \<Rightarrow> bool) \<Rightarrow> ('s, 'a) prog \<Rightarrow> bool" where
  "stays P (Return x) \<longleftrightarrow> True"
| "stays P (Call e k) \<longleftrightarrow> (\<forall>s. P s \<longrightarrow> P (e s) \<and> stays P (k s))"

lemma stays_call:
  "stays P (call f k) \<longleftrightarrow> (\<forall>s r s'. P s \<longrightarrow> f s = (r, s') \<longrightarrow> P s' \<and> stays P (k r))"
  unfolding call_def by auto (metis fst_conv prod.collapse snd_conv)+

lemma advance_stays: "advance p s = (p', s') \<Longrightarrow> stays P p \<Longrightarrow> P s \<Longrightarrow> P s' \<and> stays P p'"
  by (cases p) auto

lemma list_all_update: "list_all P xs \<Longrightarrow> P x \<Longrightarrow> list_all P (xs[i := x])"
  by (auto simp: list_all_iff dest!: subsetD[OF set_update_subset_insert])

lemma schedule_stays:
  assumes "schedule is ps s = (ps', s')" and "list_all (stays P) ps" and "P s"
  shows "P s' \<and> list_all (stays P) ps'"
  using assms
proof (induction "is" ps s rule: schedule.induct)
  case (2 i js ps s)
  show ?case
  proof (cases "i < length ps")
    case True
    obtain p t where a: "advance (ps ! i) s = (p, t)" by (cases "advance (ps ! i) s")
    have t: "P t" "stays P p"
      using advance_stays[OF a, of P] "2.prems"(2,3) True by (simp_all add: list_all_length)
    have s: "schedule js (ps[i := p]) t = (ps', s')" using "2.prems"(1) True a by simp
    have l: "list_all (stays P) (ps[i := p])" using "2.prems"(2) t(2) by (rule list_all_update)
    show ?thesis by (rule "2.IH"(1)[OF True a[symmetric] s l t(1)])
  qed (use 2 in simp)
qed simp

text \<open>No call a program may still make takes away a fact \<open>V\<close>.\<close>

primrec stable :: "('s \<Rightarrow> bool) \<Rightarrow> ('s \<Rightarrow> bool) \<Rightarrow> ('s, 'a) prog \<Rightarrow> bool" where
  "stable P V (Return x) \<longleftrightarrow> True"
| "stable P V (Call e k) \<longleftrightarrow> (\<forall>s. P s \<longrightarrow> (V s \<longrightarrow> V (e s)) \<and> stable P V (k s))"

lemma stable_call:
  "stable P V (call f k) \<longleftrightarrow> (\<forall>s r s'. P s \<longrightarrow> f s = (r, s') \<longrightarrow> (V s \<longrightarrow> V s') \<and> stable P V (k r))"
  unfolding call_def by auto (metis fst_conv prod.collapse snd_conv)+

lemma advance_stable: "advance p s = (p', s') \<Longrightarrow> stable P V p \<Longrightarrow> P s \<Longrightarrow> (V s \<longrightarrow> V s') \<and> stable P V p'"
  by (cases p) auto

text \<open>
  A program's promise: when it returns a value that satisfies \<open>ok\<close>, the fact \<open>V\<close> has been
  established by one of its calls, on the condition that nobody takes it away. The flag says whether
  it has been established already.
\<close>

primrec pledges :: "('s \<Rightarrow> bool) \<Rightarrow> ('s \<Rightarrow> bool) \<Rightarrow> ('a \<Rightarrow> bool) \<Rightarrow> ('s, 'a) prog \<Rightarrow> bool \<Rightarrow> bool" where
  "pledges P V ok (Return x) b \<longleftrightarrow> (ok x \<longrightarrow> b)"
| "pledges P V ok (Call e k) b \<longleftrightarrow> (\<forall>s. P s \<longrightarrow> (b \<longrightarrow> V s) \<longrightarrow> pledges P V ok (k s) (V (e s)))"

lemma pledges_call:
  "pledges P V ok (call f k) b \<longleftrightarrow>
     (\<forall>s r s'. P s \<longrightarrow> (b \<longrightarrow> V s) \<longrightarrow> f s = (r, s') \<longrightarrow> pledges P V ok (k r) (V s'))"
  unfolding call_def by auto

lemma advance_pledges:
  "advance p s = (p', s') \<Longrightarrow> pledges P V ok p b \<Longrightarrow> P s \<Longrightarrow> (b \<longrightarrow> V s) \<Longrightarrow>
     \<exists>b'. pledges P V ok p' b' \<and> (b' \<longrightarrow> V s')"
  by (cases p) auto

lemma schedule_pledges:
  assumes "schedule is ps s = (ps', s')" and "list_all (stays P) ps" and "list_all (stable P V) ps"
    and "P s" and "j < length ps" and "pledges P V ok (ps ! j) b" and "b \<longrightarrow> V s"
  shows "\<exists>b'. pledges P V ok (ps' ! j) b' \<and> (b' \<longrightarrow> V s')"
  using assms
proof (induction "is" ps s arbitrary: b rule: schedule.induct)
  case (1 ps s)
  then show ?case by auto
next
  case (2 i js ps s)
  show ?case
  proof (cases "i < length ps")
    case True
    obtain p t where a: "advance (ps ! i) s = (p, t)" by (cases "advance (ps ! i) s")
    have st: "stays P (ps ! i)" "stable P V (ps ! i)"
      using "2.prems"(2,3) True by (simp_all add: list_all_length)
    have t: "P t" "stays P p" "V s \<longrightarrow> V t" "stable P V p"
      using advance_stays[OF a st(1) "2.prems"(4)] advance_stable[OF a st(2) "2.prems"(4)] by auto
    have "\<exists>b'. pledges P V ok (ps[i := p] ! j) b' \<and> (b' \<longrightarrow> V t)"
    proof (cases "i = j")
      case True
      with advance_pledges[OF a, of P V ok b] "2.prems" show ?thesis by simp
    next
      case False
      with "2.prems"(6,7) t(3) show ?thesis by (intro exI[of _ b]) simp
    qed
    then obtain b' where "pledges P V ok (ps[i := p] ! j) b'" "b' \<longrightarrow> V t" by blast
    moreover have "schedule js (ps[i := p]) t = (ps', s')" using "2.prems"(1) True a by simp
    ultimately show ?thesis
      using "2.IH"(1)[OF True a[symmetric], of b'] "2.prems"(2,3,5) t by (simp add: list_all_update)
  qed (use 2 in simp)
qed

end
