(* ===== verification/Concurrency.thy ===== *)
theory Concurrency
  imports Interleaving Ranking_Properties
begin

text \<open>
  The vote operations and the reconciliation pass as programs of repository calls, and what holds
  under every schedule of any number of them: exact counters stay exact, nobody's vote is lost, and
  each program run alone is the operation of the sequential model. A database whose counters
  have drifted is the exception: there a pass that overlaps a vote can write a stale count.
\<close>

section \<open>The programs\<close>

definition Upvote_prog :: "'s VoteRepo \<Rightarrow> string \<Rightarrow> string \<Rightarrow> ('s, VoteResult result) prog" where
  "Upvote_prog repo userID requestID =
     call (vr_GetRequestAuthorID repo requestID) (\<lambda>ra. case ra of
       Inl e \<Rightarrow> Return (Inl not_found_error)
     | Inr authorID \<Rightarrow>
         if authorID = userID then Return (Inl (Sentinel ErrSelfVote))
         else call (vr_InsertVote repo userID requestID) (\<lambda>rb. case rb of
           Inl e \<Rightarrow> Return (Inl (wrap ''insert vote: '' e))
         | Inr _ \<Rightarrow> call (vr_GetVoteCount repo requestID) (\<lambda>rc. case rc of
             Inl e \<Rightarrow> Return (Inl (wrap ''get vote count: '' e))
           | Inr count \<Rightarrow> Return (Inr \<lparr>RequestID = requestID, VoteCount = count, UserVoted = True\<rparr>))))"

definition RemoveVote_prog :: "'s VoteRepo \<Rightarrow> string \<Rightarrow> string \<Rightarrow> ('s, VoteResult result) prog" where
  "RemoveVote_prog repo userID requestID =
     call (vr_GetRequestAuthorID repo requestID) (\<lambda>ra. case ra of
       Inl e \<Rightarrow> Return (Inl not_found_error)
     | Inr _ \<Rightarrow> call (vr_DeleteVote repo userID requestID) (\<lambda>rb. case rb of
         Inl e \<Rightarrow> Return (Inl (wrap ''delete vote: '' e))
       | Inr _ \<Rightarrow> call (vr_GetVoteCount repo requestID) (\<lambda>rc. case rc of
           Inl e \<Rightarrow> Return (Inl (wrap ''get vote count: '' e))
         | Inr count \<Rightarrow> Return (Inr \<lparr>RequestID = requestID, VoteCount = count, UserVoted = False\<rparr>))))"

fun fix_prog :: "'s ReconcileStore \<Rightarrow> mismatch list \<Rightarrow> ('s, unit result) prog" where
  "fix_prog store [] = Return (Inr ())"
| "fix_prog store (m # ms) =
     call (rs_FixVoteCount store (mm_ID m) (mm_ActualCount m)) (\<lambda>rf. case rf of
       Inl e \<Rightarrow> fix_prog store ms
     | Inr _ \<Rightarrow> Call (rs_SetCachedCount store (mm_ID m) (mm_ActualCount m)) (\<lambda>_. fix_prog store ms))"

definition reconcile_prog :: "'s ReconcileStore \<Rightarrow> ('s, unit result) prog" where
  "reconcile_prog store =
     call (rs_GetVoteCountMismatches store) (\<lambda>rm. case rm of Inl e \<Rightarrow> Return (Inl e) | Inr ms \<Rightarrow> fix_prog store ms)"

lemma run_Upvote_prog: "run (Upvote_prog repo u i) s = Upvote repo u i s"
  by (simp add: Upvote_prog_def Upvote_def split: prod.split sum.split)

lemma run_RemoveVote_prog: "run (RemoveVote_prog repo u i) s = RemoveVote repo u i s"
  by (simp add: RemoveVote_prog_def RemoveVote_def split: prod.split sum.split)

lemma run_fix_prog: "run (fix_prog store ms) s = (Inr (), reconcile_loop store ms s)"
  by (induction ms arbitrary: s) (simp_all split: prod.split sum.split)

lemma run_reconcile_prog: "run (reconcile_prog store) s = reconcile store s"
  by (simp add: reconcile_prog_def reconcile_def run_fix_prog split: prod.split sum.split)

text \<open>
  The operations cut into their repository calls are the operations: a vote operation or a
  reconciliation pass that is scheduled alone, without interruption, gives the result and the state of
  the sequential model.
\<close>

theorem programs_refine_operations:
  "run (Upvote_prog repo u i) s = Upvote repo u i s
   \<and> run (RemoveVote_prog repo u i) s = RemoveVote repo u i s
   \<and> run (reconcile_prog store) s' = reconcile store s'"
  by (simp add: run_Upvote_prog run_RemoveVote_prog run_reconcile_prog)

section \<open>Goroutines over the database and Redis\<close>

definition world_VoteRepo :: "pg_lib \<Rightarrow> int \<Rightarrow> ('r world) VoteRepo" where
  "world_VoteRepo L now =
     (let repo = postgres_VoteRepo L now in
      \<lparr>vr_InsertVote = (\<lambda>u i. on_pg (vr_InsertVote repo u i)), vr_DeleteVote = (\<lambda>u i. on_pg (vr_DeleteVote repo u i)),
       vr_GetVoteCount = (\<lambda>i. on_pg (vr_GetVoteCount repo i)),
       vr_GetRequestAuthorID = (\<lambda>i. on_pg (vr_GetRequestAuthorID repo i))\<rparr>)"

datatype goroutine = Upvoting int string string | Removing int string string | Reconciling int

datatype answer = Voted "VoteResult result" | Passed "unit result"

fun program :: "'r redis \<Rightarrow> pg_lib \<Rightarrow> goroutine \<Rightarrow> ('r world, answer) prog" where
  "program R L (Upvoting now u i) = map_prog Voted (Upvote_prog (world_VoteRepo L now) u i)"
| "program R L (Removing now u i) = map_prog Voted (RemoveVote_prog (world_VoteRepo L now) u i)"
| "program R L (Reconciling now) = map_prog Passed (reconcile_prog (reconcileStoreAdapter R L now))"

lemma stays_map_prog [simp]: "stays P (map_prog f p) = stays P p"
  by (induction p) auto

lemma stable_map_prog [simp]: "stable P V (map_prog f p) = stable P V p"
  by (induction p) auto

lemma pledges_map_prog [simp]: "pledges P V ok (map_prog f p) b = pledges P V (ok \<circ> f) p b"
  by (induction p arbitrary: b) auto

text \<open>The invariant the goroutines share: the vote invariant, and the authors of the requests.\<close>

definition shared :: "pg_lib \<Rightarrow> (string \<Rightarrow> string option) \<Rightarrow> 'r world \<Rightarrow> bool" where
  "shared L author w \<longleftrightarrow> vote_invariant L (tbl (fst w)) \<and> author_of (tbl (fst w)) = author"

lemma shared_same_tables: "tbl (fst w') = tbl (fst w) \<Longrightarrow> shared L author w' = shared L author w"
  by (simp add: shared_def)

lemma author_call:
  assumes "shared L A w" and "vr_GetRequestAuthorID (world_VoteRepo L now) i w = (ra, w')"
  shows "tbl (fst w') = tbl (fst w)" and "ra = Inr a \<Longrightarrow> \<exists>r. parse_uuid L i = Some r \<and> A r = Some a"
proof -
  have g: "GetRequestAuthorID L i (fst w) = (ra, fst w')"
    using assms(2) by (auto simp: world_VoteRepo_def Let_def postgres_VoteRepo_def elim: on_pg_cases)
  then show "tbl (fst w') = tbl (fst w)" using GetRequestAuthorID_tbl[of L i "fst w"] by simp
  show "\<exists>r. parse_uuid L i = Some r \<and> A r = Some a" if "ra = Inr a"
    using GetRequestAuthorID_ok[of L i "fst w" a "fst w'"] g that assms(1)
    by (auto simp: shared_def vote_invariant_def)
qed

lemma count_call:
  assumes "vr_GetVoteCount (world_VoteRepo L now) i w = (rc, w')"
  shows "tbl (fst w') = tbl (fst w)"
proof -
  have "GetVoteCount L i (fst w) = (rc, fst w')"
    using assms by (auto simp: world_VoteRepo_def Let_def postgres_VoteRepo_def elim: on_pg_cases)
  then show ?thesis using GetVoteCount_tbl[of L i "fst w"] by simp
qed

lemma insert_call:
  assumes "shared L A w" and "vr_InsertVote (world_VoteRepo L now) u i w = (rb, w')"
    and "parse_uuid L u = Some u" and "parse_uuid L i = Some r" and "A r \<noteq> Some u"
  shows "shared L A w'"
    and "(\<exists>e. rb = Inl e) \<and> voters (tbl (fst w')) = voters (tbl (fst w))
       \<or> voters (tbl (fst w')) = (voters (tbl (fst w)))(r := insert u (voters (tbl (fst w)) r))"
proof -
  have g: "vr_InsertVote (postgres_VoteRepo L now) u i (fst w) = (rb, fst w')"
    using assms(2) by (auto simp: world_VoteRepo_def Let_def elim: on_pg_cases)
  have ok: "counters_ok L (fst w)" "pgvote.unbiased (fst w)" "author_of (tbl (fst w)) = A"
    using assms(1) by (simp_all add: shared_def vote_invariant_iff_counters)
  show eff: "(\<exists>e. rb = Inl e) \<and> voters (tbl (fst w')) = voters (tbl (fst w))
       \<or> voters (tbl (fst w')) = (voters (tbl (fst w)))(r := insert u (voters (tbl (fst w)) r))"
    using pgvote.insert_effect[OF ok(1) g] assms(3,4) by auto
  have "counters_ok L (fst w')" "author_of (tbl (fst w')) = A"
    using pgvote.insert_frame[OF ok(1) g] ok(3) by auto
  moreover have "pgvote.unbiased (fst w')"
    using eff ok(2,3) assms(5) calculation(2) by (auto simp: pgvote.unbiased_def split: if_splits)
  ultimately show "shared L A w'" by (simp add: shared_def vote_invariant_iff_counters)
qed

lemma delete_call:
  assumes "shared L A w" and "vr_DeleteVote (world_VoteRepo L now) u i w = (rb, w')"
  shows "shared L A w'"
proof -
  have g: "vr_DeleteVote (postgres_VoteRepo L now) u i (fst w) = (rb, fst w')"
    using assms(2) by (auto simp: world_VoteRepo_def Let_def elim: on_pg_cases)
  have ok: "counters_ok L (fst w)" "pgvote.unbiased (fst w)" "author_of (tbl (fst w)) = A"
    using assms(1) by (simp_all add: shared_def vote_invariant_iff_counters)
  have "counters_ok L (fst w')" "author_of (tbl (fst w')) = A"
    using pgvote.delete_frame[OF ok(1) g] ok(3) by auto
  moreover have "pgvote.unbiased (fst w')"
    using pgvote.delete_effect[OF ok(1) g] ok(2,3) calculation(2) by (auto simp: pgvote.unbiased_def split: if_splits)
  ultimately show ?thesis by (simp add: shared_def vote_invariant_iff_counters)
qed

text \<open>With exact counters the mismatch query finds nothing to repair.\<close>

lemma mismatch_call:
  assumes "shared L A w" and "rs_GetVoteCountMismatches (reconcileStoreAdapter R L now) w = (rm, w')"
  shows "tbl (fst w') = tbl (fst w)" and "rm = Inr ms \<Longrightarrow> ms = []"
proof -
  have inv: "rec_inv L w" "counts_exact (tbl (fst w))"
    using assms(1) by (simp_all add: shared_def vote_invariant_def rec_inv_def)
  have g: "GetVoteCountMismatches (fst w) = (rm, fst w')"
    using assms(2) by (auto simp: reconcileStoreAdapter_def elim: on_pg_cases)
  then show "tbl (fst w') = tbl (fst w)"
    using query_rows_reads[OF mismatches_read_only, of "''get mismatches: ''" "fst w"]
    by (auto simp: GetVoteCountMismatches_def)
  have "pgrec.wrong w = {}"
    using wrong_empty_counts_exact[of L w] inv by (simp add: rec_inv_def)
  then show "ms = []" if "rm = Inr ms"
    using conjunct2[OF pgrec.mismatch_result[OF inv(1), of R now ms w']] assms(2) that
    by (simp only: pgrec.wrong_def[symmetric] image_is_empty set_empty)
qed

lemma mismatch_none:
  "shared L A w \<Longrightarrow> rs_GetVoteCountMismatches (reconcileStoreAdapter R L now) w = (Inr ms, w') \<Longrightarrow> ms = []"
  by (rule mismatch_call(2)[OF _ _ refl])

text \<open>A caller's id is in the canonical form the service puts into its tokens.\<close>

fun canonical :: "pg_lib \<Rightarrow> goroutine \<Rightarrow> bool" where
  "canonical L (Upvoting now u i) \<longleftrightarrow> parse_uuid L u = Some u"
| "canonical L _ \<longleftrightarrow> True"

text \<open>That a user holds a vote is a fact no upvote and no pass takes away.\<close>

definition holds_vote :: "string \<Rightarrow> string \<Rightarrow> 'r world \<Rightarrow> bool" where
  "holds_vote c r w \<longleftrightarrow> c \<in> voters (tbl (fst w)) r"

lemma holds_vote_same_tables: "tbl (fst w') = tbl (fst w) \<Longrightarrow> holds_vote c r w' = holds_vote c r w"
  by (simp add: holds_vote_def)

lemma author_found:
  assumes "shared L A w" and "vr_GetRequestAuthorID (world_VoteRepo L now) i w = (Inr a, w')" and "a \<noteq> u"
  obtains r where "parse_uuid L i = Some r" "A r \<noteq> Some u"
  using author_call(2)[OF assms(1,2) refl] assms(3) by auto

text \<open>The insertion of an upvote that has read the author.\<close>

lemma upvote_insert:
  assumes "vr_GetRequestAuthorID (world_VoteRepo L now) i w0 = (Inr a, w1)" and "a \<noteq> u" and "shared L A w0"
    and "vr_InsertVote (world_VoteRepo L now) u i w = (rb, w')" and "shared L A w" and "parse_uuid L u = Some u"
  shows "shared L A w'" and "holds_vote c s w \<Longrightarrow> holds_vote c s w'"
    and "rb = Inr b \<Longrightarrow> parse_uuid L i = Some r \<Longrightarrow> holds_vote u r w'"
proof -
  obtain x where x: "parse_uuid L i = Some x" "A x \<noteq> Some u" using author_found[OF assms(3,1,2)] .
  note ins = insert_call[OF assms(5,4,6) x]
  show "shared L A w'" "holds_vote c s w \<Longrightarrow> holds_vote c s w'"
    "rb = Inr b \<Longrightarrow> parse_uuid L i = Some r \<Longrightarrow> holds_vote u r w'"
    using ins x by (auto simp: holds_vote_def)
qed

lemma program_stays: "canonical L g \<Longrightarrow> stays (shared L A) (program R L g)"
proof (cases g)
  case (Upvoting now u i)
  moreover assume "canonical L g"
  ultimately have "stays (shared L A) (Upvote_prog (world_VoteRepo L now) u i)"
    by (auto simp: Upvote_prog_def stays_call shared_same_tables[OF author_call(1)] shared_same_tables[OF count_call]
        intro: upvote_insert(1) split: sum.split)
  with Upvoting show ?thesis by simp
next
  case (Removing now u i)
  have "stays (shared L A) (RemoveVote_prog (world_VoteRepo L now) u i)"
    by (auto simp: RemoveVote_prog_def stays_call dest: delete_call
        simp: shared_same_tables[OF author_call(1)] shared_same_tables[OF count_call] split: sum.split)
  with Removing show ?thesis by simp
next
  case (Reconciling now)
  have "stays (shared L A) (reconcile_prog (reconcileStoreAdapter R L now))"
    by (auto simp: reconcile_prog_def stays_call dest!: mismatch_none
        simp: shared_same_tables[OF mismatch_call(1)] split: sum.split)
  with Reconciling show ?thesis by simp
qed

fun removes :: "goroutine \<Rightarrow> bool" where
  "removes (Removing now u i) \<longleftrightarrow> True"
| "removes _ \<longleftrightarrow> False"

lemma program_stable: "canonical L g \<Longrightarrow> \<not> removes g \<Longrightarrow> stable (shared L A) (holds_vote c s) (program R L g)"
proof (cases g)
  case (Upvoting now u i)
  moreover assume "canonical L g"
  ultimately have "stable (shared L A) (holds_vote c s) (Upvote_prog (world_VoteRepo L now) u i)"
    by (auto simp: Upvote_prog_def stable_call holds_vote_same_tables[OF author_call(1)] holds_vote_same_tables[OF count_call]
        intro: upvote_insert(2) split: sum.split)
  with Upvoting show ?thesis by simp
next
  case (Reconciling now)
  have "stable (shared L A) (holds_vote c s) (reconcile_prog (reconcileStoreAdapter R L now))"
    by (auto simp: reconcile_prog_def stable_call dest!: mismatch_none
        simp: holds_vote_same_tables[OF mismatch_call(1)] split: sum.split)
  with Reconciling show ?thesis by simp
qed simp

lemma upvote_pledges:
  assumes "parse_uuid L u = Some u" and "parse_uuid L i = Some r"
  shows "pledges (shared L A) (holds_vote u r) (\<lambda>x. \<exists>res. x = Inr res) (Upvote_prog (world_VoteRepo L now) u i) False"
  by (auto simp: Upvote_prog_def pledges_call holds_vote_same_tables[OF count_call]
      dest: upvote_insert(3)[OF _ _ _ _ _ assms(1) refl assms(2)] split: sum.split)

section \<open>Concrete schedules\<close>

text \<open>The calls on the demonstration database, with an exact and with a drifted counter.\<close>

lemmas evaluate_calls =
  world_VoteRepo_def postgres_VoteRepo_def on_pg_def GetRequestAuthorID_def InsertVote_def GetVoteCount_def
  query_row_def run_stmt_def next_fault_def Begin_def tx_Exec_def Commit_def selectAuthorSQL_def insertVoteSQL_def
  incrSQL_def updateCountSQL_def selectVoteCountSQL_def int4_def int32_range_def bind_uuid_def vote_key_def

definition demo_votes :: "int \<Rightarrow> tables \<Rightarrow> bool" where
  "demo_votes c t \<longleftrightarrow> users t = users demo_tables \<and> map r_id (feature_requests t) = [''r1'']
     \<and> map r_author_id (feature_requests t) = [''alice''] \<and> map r_vote_count (feature_requests t) = [c]"

lemma demo_author_call:
  "demo_votes c (tbl p) \<Longrightarrow> faults p = [] \<Longrightarrow>
     vr_GetRequestAuthorID (world_VoteRepo demo_lib now) ''r1'' (p, d) = (Inr ''alice'', (p, d))"
  by (auto simp: evaluate_calls demo_votes_def)

lemma demo_count_call:
  "demo_votes c (tbl p) \<Longrightarrow> faults p = [] \<Longrightarrow>
     vr_GetVoteCount (world_VoteRepo demo_lib now) ''r1'' (p, d) = (Inr c, (p, d))"
  by (auto simp: evaluate_calls demo_votes_def)

lemma demo_insert_call:
  assumes "demo_votes c (tbl p)" and "faults p = []" and "votes (tbl p) = []" and "0 \<le> c" and "c < 100"
  shows "\<exists>t. vr_InsertVote (world_VoteRepo demo_lib now) ''bob'' ''r1'' (p, d) = (Inr True, (p\<lparr>tbl := t\<rparr>, d))
     \<and> demo_votes (c + 1) t \<and> votes t = [\<lparr>v_user_id = ''bob'', v_request_id = ''r1'', v_created_at = now\<rparr>]"
proof -
  obtain q where q: "feature_requests (tbl p) = [q]" "r_id q = ''r1''" "r_author_id q = ''alice''" "r_vote_count q = c"
    using assms(1) by (auto simp: demo_votes_def)
  have "users (tbl p) = users demo_tables" using assms(1) by (simp add: demo_votes_def)
  with assms(2-5) q show ?thesis
    by (auto simp: evaluate_calls demo_votes_def demo_rows Let_def)
qed

lemma map_prog_call [simp]: "map_prog f (call g k) = call g (\<lambda>r. map_prog f (k r))"
  by (simp add: call_def comp_def)

lemma advance_call [simp]: "advance (call f k) s = (k (fst (f s)), snd (f s))"
  by (simp add: call_def)

text \<open>An upvote whose three calls come one after the other, beside other goroutines.\<close>

lemma demo_upvote_calls:
  assumes "demo_votes c (tbl p)" and "faults p = []" and "votes (tbl p) = []" and "0 \<le> c" and "c < 100"
  shows "\<exists>t. schedule (0 # 0 # 0 # is) (program R demo_lib (Upvoting now ''bob'' ''r1'') # ps) (p, d)
       = schedule is (Return (Voted (Inr \<lparr>RequestID = ''r1'', VoteCount = c + 1, UserVoted = True\<rparr>)) # ps) (p\<lparr>tbl := t\<rparr>, d)
     \<and> demo_votes (c + 1) t \<and> votes t = [\<lparr>v_user_id = ''bob'', v_request_id = ''r1'', v_created_at = now\<rparr>]"
proof -
  obtain t where t: "vr_InsertVote (world_VoteRepo demo_lib now) ''bob'' ''r1'' (p, d) = (Inr True, (p\<lparr>tbl := t\<rparr>, d))"
    "demo_votes (c + 1) t" "votes t = [\<lparr>v_user_id = ''bob'', v_request_id = ''r1'', v_created_at = now\<rparr>]"
    using demo_insert_call[OF assms, of now d] by (elim exE conjE) (rule that)
  have "demo_votes (c + 1) (tbl (p\<lparr>tbl := t\<rparr>))" "faults (p\<lparr>tbl := t\<rparr>) = []" using t(2) assms(2) by simp_all
  note cnt = demo_count_call[OF this, of now d]
  show ?thesis
    using t(2,3) by (intro exI[of _ t]) (simp add: Upvote_prog_def demo_author_call[OF assms(1,2)] t(1) cnt)
qed

section \<open>Every schedule\<close>

lemma programs_stay:
  assumes "\<forall>g \<in> set gs. canonical L g"
  shows "list_all (stays (shared L A)) (map (program R L) gs)"
  using assms by (simp add: list_all_iff program_stays)

lemma schedule_shared:
  assumes "vote_invariant L (tbl (fst w))" and "\<forall>g \<in> set gs. canonical L g"
    and "schedule is (map (program R L) gs) w = (ps, w')"
  shows "vote_invariant L (tbl (fst w'))"
proof -
  have "shared L (author_of (tbl (fst w))) w" using assms(1) by (simp add: shared_def)
  from schedule_stays[OF assms(3) programs_stay[OF assms(2)] this] show ?thesis by (simp add: shared_def)
qed

text \<open>
  C4: However many upvotes, removals and reconciliation passes run at the same time, in whatever order
  their database calls are served and whichever of them fail, the schema's constraints hold at every
  moment, every counter is the number of votes at every moment, and nobody holds a vote on a request of
  their own.
\<close>

theorem interleavings_keep_invariant:
  assumes "vote_invariant L (tbl (fst w))" and "\<forall>g \<in> set gs. canonical L g"
    and "schedule is (map (program R L) gs) w = (ps, w')"
  shows "vote_invariant L (tbl (fst w'))"
  using assms by (rule schedule_shared)

text \<open>Two upvotes by one user, a removal and a pass, all under way.\<close>

definition demo_goroutines :: "goroutine list" where
  "demo_goroutines = [Upvoting 10 ''bob'' ''r1'', Upvoting 11 ''bob'' ''r1'', Removing 12 ''bob'' ''r1'', Reconciling 13]"

theorem interleavings_keep_invariant_witness:
  "vote_invariant demo_lib (tbl (fst (snd (schedule [3, 0, 1, 0, 2, 1, 1, 2, 0, 2]
     (map (program demo_redis demo_lib) demo_goroutines) (demo_pg, demo_store_empty)))))"
  by (rule interleavings_keep_invariant[OF _ _ prod.collapse[symmetric], where gs = demo_goroutines])
    (simp_all add: demo_vote_invariant demo_goroutines_def)



section \<open>A repair that overlaps a vote\<close>

text \<open>
  C38: When a counter has drifted, a reconciliation pass that overlaps an upvote can leave it wrong: the
  pass reads the number of votes, the upvote commits, and the pass then stores the number it read. Both
  finish with success, and the counter says 0 with one vote stored; only a later pass repairs it.
\<close>

theorem stale_repair:
  "\<exists>ps w' q. schedule [1, 0, 0, 0, 1, 1] (map (program demo_redis demo_lib)
       [Upvoting 10 ''bob'' ''r1'', Reconciling 11]) (drifted_pg, demo_store_empty) = (ps, w')
     \<and> ps = [Return (Voted (Inr \<lparr>RequestID = ''r1'', VoteCount = 6, UserVoted = True\<rparr>)), Return (Passed (Inr ()))]
     \<and> voters (tbl (fst w')) ''r1'' = {''bob''} \<and> find_request (tbl (fst w')) ''r1'' = Some q \<and> r_vote_count q = 0"
proof -
  let ?store = "reconcileStoreAdapter demo_redis demo_lib 11" and ?m = "\<lparr>mm_ID = ''r1'', mm_StoredCount = 5, mm_ActualCount = 0\<rparr>"
  have "mismatchesSQL (tbl drifted_pg) = Inr ([?m], tbl drifted_pg)"
    unfolding mismatchesSQL_eq[OF drifted_tables_ok]
    by (simp add: drifted_pg_def wrong_rows_def mismatch_of_def votes_on_def demo_tables_def set_count_def int32_range_def)
  then have read: "rs_GetVoteCountMismatches ?store (drifted_pg, demo_store_empty) = (Inr [?m], (drifted_pg, demo_store_empty))"
    by (simp add: reconcileStoreAdapter_def on_pg_def GetVoteCountMismatches_def query_rows_def next_fault_def drifted_pg_def)
  have d: "demo_votes 5 (tbl drifted_pg)" "votes (tbl drifted_pg) = []"
    by (simp_all add: demo_votes_def drifted_pg_def demo_tables_def set_count_def)
  let ?rest = "[map_prog Passed (fix_prog ?store [?m])]"
  have "(0::int) \<le> 5" "(5::int) < 100" by simp_all
  from demo_upvote_calls[OF d(1) drifted_simps(1) d(2) this, of "[1, 1]" demo_redis 10 ?rest demo_store_empty]
  obtain t where t: "schedule (0 # 0 # 0 # [1, 1]) (program demo_redis demo_lib (Upvoting 10 ''bob'' ''r1'') # ?rest)
        (drifted_pg, demo_store_empty)
      = schedule [1, 1] (Return (Voted (Inr \<lparr>RequestID = ''r1'', VoteCount = 5 + 1, UserVoted = True\<rparr>)) # ?rest)
        (drifted_pg\<lparr>tbl := t\<rparr>, demo_store_empty)"
    "demo_votes (5 + 1) t" "votes t = [\<lparr>v_user_id = ''bob'', v_request_id = ''r1'', v_created_at = 10\<rparr>]"
    by blast
  let ?t = "count_update (\<lambda>_. 0) 11 ''r1'' t"
  have fix_call: "rs_FixVoteCount ?store ''r1'' 0 (drifted_pg\<lparr>tbl := t\<rparr>, demo_store_empty)
      = (Inr (), (drifted_pg\<lparr>tbl := ?t\<rparr>, demo_store_empty))"
    by (simp add: reconcileStoreAdapter_def on_pg_def FixVoteCount_def run_stmt_def next_fault_def fixVoteCountSQL_eq)
  obtain q where "feature_requests t = [q]" "r_id q = ''r1''" using t(2) by (auto simp: demo_votes_def)
  then have fq: "find_request ?t ''r1'' = Some (q\<lparr>r_vote_count := 0, r_updated_at := 11\<rparr>)"
    by (simp add: find_request_def count_update_def set_count_def)
  have vt: "voters ?t ''r1'' = {''bob''}" using t(3) by (auto simp: voters_def count_update_def vote_key_def)
  have cached: "fst (rs_SetCachedCount ?store ''r1'' 0 (drifted_pg\<lparr>tbl := ?t\<rparr>, demo_store_empty)) = drifted_pg\<lparr>tbl := ?t\<rparr>"
    by (simp add: reconcileStoreAdapter_def SetCachedCount_def)
  have e1: "schedule [1, 0, 0, 0, 1, 1] (map (program demo_redis demo_lib)
       [Upvoting 10 ''bob'' ''r1'', Reconciling 11]) (drifted_pg, demo_store_empty)
     = schedule (0 # 0 # 0 # [1, 1]) (program demo_redis demo_lib (Upvoting 10 ''bob'' ''r1'') # ?rest)
        (drifted_pg, demo_store_empty)"
    by (simp add: reconcile_prog_def read del: program.simps(1) fix_prog.simps)
  have e2: "schedule [1, 1] (Return x # ?rest) (drifted_pg\<lparr>tbl := t\<rparr>, demo_store_empty)
     = ([Return x, Return (Passed (Inr ()))], rs_SetCachedCount ?store ''r1'' 0 (drifted_pg\<lparr>tbl := ?t\<rparr>, demo_store_empty))" for x
    by (simp add: fix_call)
  show ?thesis
  proof (intro exI conjI)
    show "schedule [1, 0, 0, 0, 1, 1] (map (program demo_redis demo_lib)
       [Upvoting 10 ''bob'' ''r1'', Reconciling 11]) (drifted_pg, demo_store_empty)
     = ([Return (Voted (Inr \<lparr>RequestID = ''r1'', VoteCount = 5 + 1, UserVoted = True\<rparr>)), Return (Passed (Inr ()))],
        rs_SetCachedCount ?store ''r1'' 0 (drifted_pg\<lparr>tbl := ?t\<rparr>, demo_store_empty))"
      by (rule trans[OF e1 trans[OF t(1) e2]])
    show "find_request (tbl (fst (rs_SetCachedCount ?store ''r1'' 0 (drifted_pg\<lparr>tbl := ?t\<rparr>, demo_store_empty)))) ''r1''
        = Some (q\<lparr>r_vote_count := 0, r_updated_at := 11\<rparr>)"
      using fq by (simp only: cached) simp
    show "voters (tbl (fst (rs_SetCachedCount ?store ''r1'' 0 (drifted_pg\<lparr>tbl := ?t\<rparr>, demo_store_empty)))) ''r1'' = {''bob''}"
      using vt by (simp only: cached) simp
  qed simp_all
qed

end
