(* ===== verification/Transactions.thy ===== *)
theory Transactions
  imports Vote_Properties Request_Properties User_Properties Reconcile
begin

text \<open>
  The vote transactions of \<open>votes.go\<close> cut at their statements, any number of them at once, among the
  other writes of the program, which are single statements: repairs of a counter, new requests and
  new accounts. The rest of the development takes a transaction as one step; \<open>Serialisability\<close> shows
  that it may.

  What is relied on of PostgreSQL (read committed): a statement sees the committed rows and the
  changes of its own transaction; what a transaction writes becomes visible as a whole when it
  commits; writing a row, or inserting a key, that another open transaction has written waits for
  that transaction to end, and then works on what it left.
\<close>

section \<open>Transactions\<close>

datatype vote_op = Casting | Taking

record vote_tx =
  vt_op :: vote_op
  vt_now :: int
  vt_user :: string
  vt_request :: string

text \<open>
  Where a transaction is: before its first statement; after it, with no row affected or with one;
  after the update of the counter, with the new version of the row; committed, with the value the
  method returns; rolled back.
\<close>

datatype phase =
    Started | Unaffected | Changed | Counted "request_row option" | Committed bool | Aborted

definition vote_stmt :: "pg_lib \<Rightarrow> vote_tx \<Rightarrow> nat stmt" where
  "vote_stmt L th =
     (case vt_op th of
        Casting \<Rightarrow> insertVoteSQL L (vt_now th) (vt_user th) (vt_request th)
      | Taking \<Rightarrow> deleteVoteSQL L (vt_user th) (vt_request th))"

definition count_stmt :: "pg_lib \<Rightarrow> vote_tx \<Rightarrow> nat stmt" where
  "count_stmt L th =
     (case vt_op th of
        Casting \<Rightarrow> incrSQL L (vt_now th) (vt_request th)
      | Taking \<Rightarrow> decrSQL L (vt_now th) (vt_request th))"

text \<open>The transaction as one step.\<close>

definition atomic_tx :: "pg_lib \<Rightarrow> vote_tx \<Rightarrow> bool stmt" where
  "atomic_tx L th =
     (case vt_op th of
        Casting \<Rightarrow> insert_vote_tx L (vt_now th) (vt_user th) (vt_request th)
      | Taking \<Rightarrow> delete_vote_tx L (vt_now th) (vt_user th) (vt_request th))"

text \<open>The writes that are a statement of their own, as they change the tables when they succeed.\<close>

datatype table_write =
    Repairing int string int
  | Submitting int string string string string
  | Creating int string string string

definition outcome_of :: "('a) stmt \<Rightarrow> tables \<Rightarrow> tables option" where
  "outcome_of st t = (case st t of Inl e \<Rightarrow> None | Inr (x, t') \<Rightarrow> Some t')"

fun write_outcome :: "pg_lib \<Rightarrow> table_write \<Rightarrow> tables \<Rightarrow> tables option" where
  "write_outcome L (Repairing now i n) = outcome_of (fixVoteCountSQL L now i n)"
| "write_outcome L (Submitting now gen author title description) =
     outcome_of (insertFeatureRequestSQL L now gen author title description)"
| "write_outcome L (Creating now gen email hash) = outcome_of (createUserSQL L now gen email hash)"

fun is_repair :: "table_write \<Rightarrow> bool" where
  "is_repair (Repairing now i n) = True"
| "is_repair _ = False"

text \<open>A repair stores an \<open>int32\<close>; identifiers that PostgreSQL generates are canonical.\<close>

fun sensible :: "pg_lib \<Rightarrow> table_write \<Rightarrow> bool" where
  "sensible L (Repairing now i n) = int32_range n"
| "sensible L (Submitting now gen author title description) = (parse_uuid L gen = Some gen)"
| "sensible L (Creating now gen email hash) = (parse_uuid L gen = Some gen)"

text \<open>The key of the vote and the id of the request a transaction writes.\<close>

definition tx_row :: "pg_lib \<Rightarrow> vote_tx \<Rightarrow> string option" where
  "tx_row L th = parse_uuid L (vt_request th)"

definition tx_key :: "pg_lib \<Rightarrow> vote_tx \<Rightarrow> (string \<times> string) option" where
  "tx_key L th =
     (case parse_uuid L (vt_user th) of None \<Rightarrow> None | Some u \<Rightarrow> map_option (Pair u) (tx_row L th))"

text \<open>The tables with the vote a transaction has written, and with its version of the request's row.\<close>

definition with_vote :: "pg_lib \<Rightarrow> vote_tx \<Rightarrow> tables \<Rightarrow> tables" where
  "with_vote L th t =
     (case tx_key L th of
        None \<Rightarrow> t
      | Some (u, r) \<Rightarrow>
          (case vt_op th of
             Casting \<Rightarrow> t\<lparr>votes := votes t @ [\<lparr>v_user_id = u, v_request_id = r, v_created_at = vt_now th\<rparr>]\<rparr>
           | Taking \<Rightarrow> t\<lparr>votes := filter (\<lambda>v. vote_key v \<noteq> (u, r)) (votes t)\<rparr>))"

definition with_row :: "request_row option \<Rightarrow> tables \<Rightarrow> tables" where
  "with_row new t =
     (case new of None \<Rightarrow> t
      | Some q \<Rightarrow> t\<lparr>feature_requests := map (\<lambda>x. if r_id x = r_id q then q else x) (feature_requests t)\<rparr>)"

section \<open>Concurrent execution\<close>

datatype entry = Settled nat bool | Written table_write

record config =
  committed :: tables
  phases :: "phase list"
  history :: "entry list"

fun holds_key :: "phase \<Rightarrow> bool" where
  "holds_key Changed = True"
| "holds_key (Counted q) = True"
| "holds_key _ = False"

fun holds_row :: "phase \<Rightarrow> bool" where
  "holds_row (Counted q) = True"
| "holds_row _ = False"

fun finished :: "phase \<Rightarrow> bool" where
  "finished (Committed b) = True"
| "finished Aborted = True"
| "finished _ = False"

definition rival :: "(phase \<Rightarrow> bool) \<Rightarrow> (vote_tx \<Rightarrow> 'k) \<Rightarrow> vote_tx list \<Rightarrow> config \<Rightarrow> nat \<Rightarrow> bool" where
  "rival held key ths c j \<longleftrightarrow>
     list_ex (\<lambda>k. k \<noteq> j \<and> held (phases c ! k) \<and> key (ths ! k) = key (ths ! j)) [0 ..< length ths]"

text \<open>
  An \<open>INSERT\<close> waits for any open transaction that has written its key, a \<open>DELETE\<close> only when the row it
  would delete is there; the \<open>UPDATE\<close> waits for any that has written the request's row.
\<close>

definition waits :: "pg_lib \<Rightarrow> vote_tx list \<Rightarrow> config \<Rightarrow> nat \<Rightarrow> bool" where
  "waits L ths c j =
     (case phases c ! j of
        Started \<Rightarrow> rival holds_key (tx_key L) ths c j
          \<and> (vt_op (ths ! j) = Casting \<or> tx_key L (ths ! j) \<in> Some ` vote_key ` set (votes (committed c)))
      | Changed \<Rightarrow> rival holds_row (tx_row L) ths c j
      | _ \<Rightarrow> False)"

text \<open>A repair waits for any open transaction that has written its row; the insertions wait for none.\<close>

fun write_waits :: "pg_lib \<Rightarrow> vote_tx list \<Rightarrow> config \<Rightarrow> table_write \<Rightarrow> bool" where
  "write_waits L ths c (Repairing now i n) =
     list_ex (\<lambda>k. holds_row (phases c ! k) \<and> tx_row L (ths ! k) = parse_uuid L i) [0 ..< length ths]"
| "write_waits L ths c _ = False"

text \<open>
  \<open>Go j\<close>: transaction \<open>j\<close> runs its next statement, or commits, if it does not have to wait. \<open>Lose j\<close>: it
  is rolled back, for whatever reason. \<open>Apply w\<close>: another write is made, if it need not wait. The
  history records the writes, and when the outcome of a transaction is settled: when its vote turns
  out to be there already (or not at all), or when it commits.
\<close>

datatype event = Go nat | Lose nat | Apply table_write

definition enter :: "nat \<Rightarrow> phase \<Rightarrow> config \<Rightarrow> config" where
  "enter j p c = c\<lparr>phases := (phases c)[j := p]\<rparr>"

definition settle :: "nat \<Rightarrow> bool \<Rightarrow> config \<Rightarrow> config" where
  "settle j b c = c\<lparr>history := history c @ [Settled j b]\<rparr>"

definition go :: "pg_lib \<Rightarrow> vote_tx \<Rightarrow> nat \<Rightarrow> config \<Rightarrow> config" where
  "go L th j c =
     (case phases c ! j of
        Started \<Rightarrow>
          (case vote_stmt L th (committed c) of
             Inl e \<Rightarrow> enter j Aborted c
           | Inr (ct, t) \<Rightarrow> if ct > 0 then enter j Changed c else settle j False (enter j Unaffected c))
      | Changed \<Rightarrow>
          (case count_stmt L th (with_vote L th (committed c)) of
             Inl e \<Rightarrow> enter j Aborted c
           | Inr (n, t) \<Rightarrow> enter j (Counted (case tx_row L th of None \<Rightarrow> None | Some r \<Rightarrow> find_request t r)) c)
      | Unaffected \<Rightarrow> enter j (Committed False) c
      | Counted new \<Rightarrow>
          settle j True (enter j (Committed True) (c\<lparr>committed := with_row new (with_vote L th (committed c))\<rparr>))
      | Committed b \<Rightarrow> c
      | Aborted \<Rightarrow> c)"

fun tx_act :: "pg_lib \<Rightarrow> vote_tx list \<Rightarrow> event \<Rightarrow> config \<Rightarrow> config" where
  "tx_act L ths (Go j) c = (if j < length ths \<and> \<not> waits L ths c j then go L (ths ! j) j c else c)"
| "tx_act L ths (Lose j) c = (if j < length ths \<and> \<not> finished (phases c ! j) then enter j Aborted c else c)"
| "tx_act L ths (Apply w) c =
     (if write_waits L ths c w then c
      else case write_outcome L w (committed c) of
             None \<Rightarrow> c | Some t \<Rightarrow> c\<lparr>committed := t, history := history c @ [Written w]\<rparr>)"

definition tx_run :: "pg_lib \<Rightarrow> vote_tx list \<Rightarrow> event list \<Rightarrow> config \<Rightarrow> config" where
  "tx_run L ths = fold (tx_act L ths)"

definition tx_begin :: "vote_tx list \<Rightarrow> tables \<Rightarrow> config" where
  "tx_begin ths t = \<lparr>committed = t, phases = replicate (length ths) Started, history = []\<rparr>"

text \<open>The transactions and writes of a history, one after the other, each transaction with the answer recorded.\<close>

fun replay_entry :: "pg_lib \<Rightarrow> vote_tx list \<Rightarrow> entry \<Rightarrow> tables \<Rightarrow> tables option" where
  "replay_entry L ths (Settled j b) t =
     (case atomic_tx L (ths ! j) t of Inl e \<Rightarrow> None | Inr (b', t') \<Rightarrow> if b' = b then Some t' else None)"
| "replay_entry L ths (Written w) t = write_outcome L w t"

fun replay :: "pg_lib \<Rightarrow> vote_tx list \<Rightarrow> entry list \<Rightarrow> tables \<Rightarrow> tables option" where
  "replay L ths [] t = Some t"
| "replay L ths (x # h) t = (case replay_entry L ths x t of None \<Rightarrow> None | Some t' \<Rightarrow> replay L ths h t')"

fun settled :: "entry list \<Rightarrow> (nat \<times> bool) list" where
  "settled [] = []"
| "settled (Settled j b # h) = (j, b) # settled h"
| "settled (Written w # h) = settled h"

section \<open>One transaction at its commit\<close>

fun new_count :: "vote_op \<Rightarrow> int \<Rightarrow> int" where
  "new_count Casting c = c + 1"
| "new_count Taking c = max (c - 1) 0"

fun count_fits :: "vote_op \<Rightarrow> int \<Rightarrow> bool" where
  "count_fits Casting c = int32_range (c + 1)"
| "count_fits Taking c = int32_range (c - 1)"

lemma new_count_fun [simp]: "new_count Casting = (\<lambda>c. c + 1)" "new_count Taking = (\<lambda>c. max (c - 1) 0)"
  by (rule ext, simp)+

lemma replay_snoc:
  "replay L ths (h @ [x]) t = (case replay L ths h t of None \<Rightarrow> None | Some t1 \<Rightarrow> replay_entry L ths x t1)"
  by (induction L ths h t rule: replay.induct) (auto split: option.splits)

lemma settled_append [simp]: "settled (h @ h') = settled h @ settled h'"
  by (induction h rule: settled.induct) simp_all

lemma tx_key_Some:
  "tx_key L th = Some (u, r) \<longleftrightarrow> parse_uuid L (vt_user th) = Some u \<and> tx_row L th = Some r"
  by (auto simp: tx_key_def split: option.splits)

text \<open>What the first statement has found, and what the commit then relies on.\<close>

definition vote_found :: "pg_lib \<Rightarrow> vote_tx \<Rightarrow> tables \<Rightarrow> bool" where
  "vote_found L th t \<longleftrightarrow> (\<exists>u r. tx_key L th = Some (u, r) \<and>
     (case vt_op th of
        Casting \<Rightarrow> (u, r) \<notin> vote_key ` set (votes t) \<and> u \<in> u_id ` set (users t) \<and> r \<in> r_id ` set (feature_requests t)
      | Taking \<Rightarrow> (u, r) \<in> vote_key ` set (votes t)))"

definition count_found :: "pg_lib \<Rightarrow> vote_tx \<Rightarrow> request_row option \<Rightarrow> tables \<Rightarrow> bool" where
  "count_found L th new t \<longleftrightarrow> (\<exists>r. tx_row L th = Some r
     \<and> new = map_option (set_count (new_count (vt_op th)) (vt_now th) r) (find_request t r)
     \<and> (\<forall>q \<in> set (feature_requests t). r_id q = r \<longrightarrow> count_fits (vt_op th) (r_vote_count q)))"

lemma vote_stmt_affects:
  assumes "vote_stmt L th t = Inr (ct, t')" and "ct > 0"
  shows "vote_found L th t"
  using assms
  by (auto simp: vote_stmt_def vote_found_def insertVoteSQL_def deleteVoteSQL_def bind_uuid_def tx_key_def tx_row_def
      filter_empty_conv split: vote_op.splits option.splits if_splits) (metis image_eqI)

lemma vote_stmt_idle:
  assumes "vote_stmt L th t = Inr (0, t')"
  shows "atomic_tx L th t = Inr (False, t)"
proof -
  have "t' = t"
    using assms by (auto simp: vote_stmt_def insertVoteSQL_def deleteVoteSQL_def bind_uuid_def filter_empty_conv
        split: vote_op.splits option.splits if_splits intro!: tables.equality)
  with assms show ?thesis
    by (auto simp: vote_stmt_def atomic_tx_def insert_vote_tx_def delete_vote_tx_def split: vote_op.splits)
qed

lemma with_vote_fields [simp]:
  "users (with_vote L th t) = users t" "feature_requests (with_vote L th t) = feature_requests t"
  by (auto simp: with_vote_def split: option.splits vote_op.splits)

lemma find_request_with_vote [simp]: "find_request (with_vote L th t) r = find_request t r"
  by (simp add: find_request_def)

lemma count_stmt_counts:
  assumes "count_stmt L th (with_vote L th t) = Inr (n, t')" and "tx_row L th = Some r"
  shows "count_found L th (find_request t' r) t"
  using assms
  by (auto simp: count_stmt_def count_found_def incrSQL_eq decrSQL_eq tx_row_def
      split: vote_op.splits option.splits if_splits)

lemma with_row_commit:
  assumes "tables_ok L t" and "count_found L th new t" and "tx_row L th = Some r"
  shows "with_row new (with_vote L th t) = count_update (new_count (vt_op th)) (vt_now th) r (with_vote L th t)"
proof -
  let ?f = "set_count (new_count (vt_op th)) (vt_now th) r"
  have new: "new = map_option ?f (find_request t r)" using assms(2,3) by (simp add: count_found_def)
  show ?thesis
  proof (cases "find_request t r")
    case None
    then have "\<forall>x \<in> set (feature_requests t). r_id x \<noteq> r" by (force simp: find_request_None)
    then have "map ?f (feature_requests t) = feature_requests t" by (simp add: set_count_def map_idI)
    with None show ?thesis by (simp add: new with_row_def count_update_def)
  next
    case (Some q)
    have "(if r_id x = r_id (?f q) then ?f q else x) = ?f x" if "x \<in> set (feature_requests t)" for x
    proof (cases "r_id x = r")
      case True
      with find_request_mem[OF assms(1) that] Some have "x = q" by simp
      then show ?thesis by simp
    next
      case False
      with find_request_SomeD[OF Some] show ?thesis by (simp add: set_count_def)
    qed
    with Some show ?thesis by (simp add: new with_row_def count_update_def)
  qed
qed

lemma commit_effect:
  assumes "tables_ok L t" and "vote_found L th t" and "count_found L th new t" and "tx_key L th = Some (u, r)"
  shows "with_row new (with_vote L th t) =
     (case vt_op th of Casting \<Rightarrow> add_vote (vt_now th) u r t | Taking \<Rightarrow> drop_vote (vt_now th) u r t)"
proof -
  have "tx_row L th = Some r" using assms(4) by (simp add: tx_key_Some)
  from with_row_commit[OF assms(1,3) this] show ?thesis
    by (cases "vt_op th") (simp_all add: with_vote_def assms(4) add_vote_def drop_vote_def)
qed

text \<open>At its commit, a transaction has done what it would have done as one step.\<close>

lemma commit_atomic:
  assumes "tables_ok L t" and "vote_found L th t" and "count_found L th new t"
  shows "atomic_tx L th t = Inr (True, with_row new (with_vote L th t))"
proof -
  obtain u r where k: "tx_key L th = Some (u, r)" using assms(2) by (auto simp: vote_found_def)
  then have ids: "parse_uuid L (vt_user th) = Some u" "parse_uuid L (vt_request th) = Some r"
    by (auto simp: tx_key_Some tx_row_def)
  have fits: "\<forall>q \<in> set (feature_requests t). r_id q = r \<longrightarrow> count_fits (vt_op th) (r_vote_count q)"
    using assms(3) ids(2) by (auto simp: count_found_def tx_row_def)
  show ?thesis
  proof (cases "vt_op th")
    case Casting
    with assms(2) k have f: "(u, r) \<notin> vote_key ` set (votes t)" "u \<in> u_id ` set (users t)" "r \<in> r_id ` set (feature_requests t)"
      by (auto simp: vote_found_def)
    from insert_vote_tx_eq[OF ids f(2,3), of "vt_now th"] f(1) fits Casting show ?thesis
      by (simp add: commit_effect[OF assms k] atomic_tx_def)
  next
    case Taking
    with assms(2) k have "(u, r) \<in> vote_key ` set (votes t)" by (auto simp: vote_found_def)
    with delete_vote_tx_eq[OF ids, of t "vt_now th"] fits Taking show ?thesis
      by (simp add: commit_effect[OF assms k] atomic_tx_def)
  qed
qed

text \<open>A commit leaves alone what the transactions that hold other locks have found.\<close>

lemma commit_keys:
  assumes "tx_key L th = Some k"
  shows "vote_key ` set (votes (with_vote L th t)) =
     (case vt_op th of Casting \<Rightarrow> insert k (vote_key ` set (votes t)) | Taking \<Rightarrow> vote_key ` set (votes t) - {k})"
  using assms by (cases k) (auto simp: with_vote_def vote_key_def split: vote_op.split)

lemma with_row_fields [simp]:
  "users (with_row new t) = users t" "votes (with_row new t) = votes t"
  by (simp_all add: with_row_def split: option.split)

lemma r_id_replace [simp]: "r_id (if r_id x = r_id q then q else x) = r_id x"
  by simp

lemma with_row_ids [simp]: "r_id ` set (feature_requests (with_row new t)) = r_id ` set (feature_requests t)"
  by (simp add: with_row_def image_image del: if_image_distrib split: option.split)

lemma vote_found_commit:
  assumes "vote_found L th' t" and "tx_key L th = Some k" and "tx_key L th' \<noteq> Some k"
  shows "vote_found L th' (with_row new (with_vote L th t))"
  using assms commit_keys[OF assms(2), of t]
  by (auto simp: vote_found_def split: vote_op.splits)

lemma find_request_with_row:
  assumes "\<forall>q. new = Some q \<longrightarrow> r_id q \<noteq> r"
  shows "find_request (with_row new t) r = find_request t r"
proof (cases new)
  case (Some q)
  have "find (\<lambda>x. r_id x = r) (map (\<lambda>x. if r_id x = r_id q then q else x) xs) = find (\<lambda>x. r_id x = r) xs" for xs
    using assms Some by (induction xs) auto
  then show ?thesis by (simp add: find_request_def with_row_def Some)
qed (simp add: with_row_def)

lemma count_found_commit:
  assumes "count_found L th' new' t" and "count_found L th new t" and "tx_row L th' \<noteq> tx_row L th"
  shows "count_found L th' new' (with_row new (with_vote L th t))"
proof -
  obtain r' where r': "tx_row L th' = Some r'" using assms(1) by (auto simp: count_found_def)
  obtain r where r: "tx_row L th = Some r"
    "new = map_option (set_count (new_count (vt_op th)) (vt_now th) r) (find_request t r)"
    using assms(2) by (auto simp: count_found_def)
  have ne: "r' \<noteq> r" using assms(3) r' r(1) by simp
  then have id: "\<forall>q. new = Some q \<longrightarrow> r_id q = r" using r(2) by (auto dest: find_request_SomeD)
  with ne have same: "find_request (with_row new (with_vote L th t)) r' = find_request t r'"
    by (subst find_request_with_row) auto
  have "x \<in> set (feature_requests t)"
    if "x \<in> set (feature_requests (with_row new (with_vote L th t)))" "r_id x = r'" for x
    using that id ne by (auto simp: with_row_def split: option.splits if_splits)
  with assms(1) r' same show ?thesis by (auto simp: count_found_def)
qed

text \<open>Another write does so too, unless it has to wait.\<close>

lemma write_cases:
  assumes "write_outcome L w t = Some t'"
  obtains (repair) now i n r where "w = Repairing now i n" "parse_uuid L i = Some r" "t' = count_update (\<lambda>_. n) now r t"
    | (submit) now gen i a title d q where "w = Submitting now gen i title d" "gen \<notin> r_id ` set (feature_requests t)"
      "t' = add_request q t" "a \<in> u_id ` set (users t)"
      "q = \<lparr>r_id = gen, r_author_id = a, r_title = title, r_description = d, r_vote_count = 0, r_created_at = now, r_updated_at = now\<rparr>"
    | (create) now gen email h u where "w = Creating now gen email h" "gen \<notin> u_id ` set (users t)"
      "user_of_email L t email = None" "t' = add_user u t"
      "u = \<lparr>u_id = gen, u_email = email, u_password_hash = Some h, u_created_at = now\<rparr>"
proof (cases w)
  case (Repairing now i n)
  with assms repair show ?thesis
    by (auto simp: outcome_of_def fixVoteCountSQL_eq split: option.splits)
next
  case (Submitting now gen i title d)
  with assms obtain rows where "insertFeatureRequestSQL L now gen i title d t = Inr (rows, t')"
    by (auto simp: outcome_of_def split: sum.splits)
  then show ?thesis by (elim insertFeatureRequestSQL_ok) (rule submit[OF Submitting])
next
  case (Creating now gen email h)
  with assms create show ?thesis
    by (auto simp: outcome_of_def createUserSQL_def user_of_email_None add_user_def Let_def split: if_splits)
qed

lemma find_request_add_request:
  "r \<in> r_id ` set (feature_requests t) \<Longrightarrow> find_request (add_request q t) r = find_request t r"
proof -
  assume "r \<in> r_id ` set (feature_requests t)"
  then obtain x where "find (\<lambda>q. r_id q = r) (feature_requests t) = Some x"
    using find_request_None[of t r] by (auto simp: find_request_def)
  then show ?thesis by (simp add: find_request_def add_request_def find_append)
qed

lemma vote_found_write:
  assumes "vote_found L th t" and "write_outcome L w t = Some t'"
  shows "vote_found L th t'"
proof -
  have "votes t' = votes t \<and> u_id ` set (users t) \<subseteq> u_id ` set (users t')
      \<and> r_id ` set (feature_requests t) \<subseteq> r_id ` set (feature_requests t')"
    using assms(2) by (cases rule: write_cases) (auto simp: add_request_def add_user_def image_image)
  then show ?thesis
    using assms(1) unfolding vote_found_def by (cases "vt_op th") (simp_all, blast+)
qed

lemma vote_found_request:
  assumes "vote_found L th t" and "tables_ok L t" and "tx_row L th = Some r"
  shows "r \<in> r_id ` set (feature_requests t)"
proof (cases "vt_op th")
  case Casting
  with assms(1,3) show ?thesis by (auto simp: vote_found_def tx_key_Some)
next
  case Taking
  with assms(1,3) obtain v where "v \<in> set (votes t)" "v_request_id v = r"
    by (auto simp: vote_found_def tx_key_Some vote_key_def)
  with assms(2) show ?thesis by (auto simp: tables_ok_def)
qed

lemma count_found_write:
  assumes "count_found L th new t" and "write_outcome L w t = Some t'" and "vote_found L th t" and "tables_ok L t"
    and "\<And>now i n. w = Repairing now i n \<Longrightarrow> tx_row L th \<noteq> parse_uuid L i"
  shows "count_found L th new t'"
proof -
  obtain r where r: "tx_row L th = Some r"
    "new = map_option (set_count (new_count (vt_op th)) (vt_now th) r) (find_request t r)"
    "\<forall>q \<in> set (feature_requests t). r_id q = r \<longrightarrow> count_fits (vt_op th) (r_vote_count q)"
    using assms(1) by (auto simp: count_found_def)
  have mem: "r \<in> r_id ` set (feature_requests t)" by (rule vote_found_request[OF assms(3,4) r(1)])
  have "find_request t' r = find_request t r \<and> (\<forall>q \<in> set (feature_requests t'). r_id q = r \<longrightarrow> q \<in> set (feature_requests t))"
    using assms(2)
  proof (cases rule: write_cases)
    case (repair now i n r')
    then have "r' \<noteq> r" using assms(5) r(1) by auto
    then have "set_count (\<lambda>_. n) now r' q = q" if "r_id q = r" for q using that by (simp add: set_count_def)
    then show ?thesis
      using repair mem by (auto simp: map_option_case split: option.split dest!: find_request_SomeD)
  next
    case (submit now gen i a title d q)
    with mem find_request_add_request[OF mem] show ?thesis by (auto simp: add_request_def)
  next
    case (create now gen email h u)
    then show ?thesis by (simp add: add_user_def find_request_def)
  qed
  with r show ?thesis by (auto simp: count_found_def)
qed

section \<open>What an entry of the history keeps\<close>

lemma atomic_tx_effect:
  assumes "atomic_tx L th t = Inr (b, t')" and "tables_ok L t"
  shows "tables_ok L t' \<and> (counts_exact t \<longrightarrow> counts_exact t') \<and> author_of t' = author_of t
     \<and> (\<exists>u r. tx_key L th = Some (u, r) \<and> voters t' = (voters t)(r := (case vt_op th of
            Casting \<Rightarrow> insert u (voters t r) | Taking \<Rightarrow> voters t r - {u})))"
  using assms insert_vote_tx_effect[of L "vt_now th" "vt_user th" "vt_request th" t b t']
    delete_vote_tx_effect[of L "vt_now th" "vt_user th" "vt_request th" t b t']
  by (cases "vt_op th") (auto simp: atomic_tx_def tx_key_Some tx_row_def)

lemma write_effect:
  assumes "write_outcome L w t = Some t'" and "tables_ok L t" and "sensible L w"
  shows "tables_ok L t' \<and> (\<not> is_repair w \<longrightarrow> counts_exact t \<longrightarrow> counts_exact t') \<and> author_of t \<subseteq>\<^sub>m author_of t'
     \<and> (no_self_votes t \<longrightarrow> no_self_votes t')"
  using assms(1)
proof (cases rule: write_cases)
  case (repair now i n r)
  with assms(2,3) show ?thesis by (simp add: tables_ok_set_count map_le_def no_self_votes_def)
next
  case (submit now gen i a title d q)
  have "find_request t' j = find_request t j" if "find_request t j \<noteq> None" for j
    using find_request_add_request[of j t q] that submit(3) find_request_None[of t j] by auto
  then have "author_of t \<subseteq>\<^sub>m author_of t'" by (auto simp: map_le_def author_of_def)
  with submit assms(2,3) show ?thesis by (simp add: add_request_ok)
next
  case (create now gen email h u)
  then have "tables_ok L t'" using assms(2,3) by (simp add: tables_ok_add_user)
  moreover have "author_of t' = author_of t" using create(4) by (simp add: author_of_def find_request_def add_user_def fun_eq_iff)
  moreover have "counts_exact t' = counts_exact t" "no_self_votes t' = no_self_votes t"
    using create(4) by (simp_all add: counts_exact_def no_self_votes_def add_user_def votes_on_def voters_def)
  ultimately show ?thesis by (simp add: map_le_def)
qed

text \<open>No transaction casts a vote on the voter's own request: \<open>Upvote\<close> has checked that before.\<close>

definition no_own_votes :: "pg_lib \<Rightarrow> vote_tx list \<Rightarrow> tables \<Rightarrow> bool" where
  "no_own_votes L ths t \<longleftrightarrow> (\<forall>th \<in> set ths. vt_op th = Casting \<longrightarrow>
     (\<forall>u r. tx_key L th = Some (u, r) \<longrightarrow> author_of t r \<noteq> Some u))"

definition repaired :: "entry list \<Rightarrow> bool" where
  "repaired h \<longleftrightarrow> list_ex (\<lambda>x. case x of Settled j b \<Rightarrow> False | Written w \<Rightarrow> is_repair w) h"

lemma entry_effect:
  assumes "replay_entry L ths x t = Some t'" and "tables_ok L t" and "\<And>w. x = Written w \<Longrightarrow> sensible L w"
    and "\<And>j b. x = Settled j b \<Longrightarrow> j < length ths"
  shows "tables_ok L t' \<and> (\<not> repaired [x] \<longrightarrow> counts_exact t \<longrightarrow> counts_exact t') \<and> author_of t \<subseteq>\<^sub>m author_of t'
     \<and> (no_self_votes t \<longrightarrow> no_own_votes L ths t' \<longrightarrow> no_self_votes t')"
proof (cases x)
  case (Written w)
  with assms(1) have "write_outcome L w t = Some t'" by simp
  from write_effect[OF this assms(2) assms(3)[OF Written]] Written show ?thesis by (simp add: repaired_def)
next
  case (Settled j b)
  with assms(1) have "atomic_tx L (ths ! j) t = Inr (b, t')" by (auto split: sum.splits if_splits)
  from atomic_tx_effect[OF this assms(2)] obtain u r where a: "tables_ok L t'" "counts_exact t \<longrightarrow> counts_exact t'"
    "author_of t' = author_of t" "tx_key L (ths ! j) = Some (u, r)"
    "voters t' = (voters t)(r := (case vt_op (ths ! j) of Casting \<Rightarrow> insert u (voters t r) | Taking \<Rightarrow> voters t r - {u}))"
    by blast
  have "ths ! j \<in> set ths" using assms(4)[OF Settled] by simp
  then have "no_own_votes L ths t' \<Longrightarrow> vt_op (ths ! j) = Casting \<Longrightarrow> author_of t r \<noteq> Some u"
    using a(3,4) by (auto simp: no_own_votes_def)
  then have "no_self_votes t \<longrightarrow> no_own_votes L ths t' \<longrightarrow> no_self_votes t'"
    using a(3,5) no_self_votes_iff[OF assms(2)] no_self_votes_iff[OF a(1)] by (auto split: vote_op.splits if_splits)
  with a(1-3) show ?thesis by simp
qed

lemma no_own_votes_earlier:
  "no_own_votes L ths t' \<Longrightarrow> author_of t \<subseteq>\<^sub>m author_of t' \<Longrightarrow> no_own_votes L ths t"
  unfolding no_own_votes_def map_le_def by (metis domI)

lemma replay_effect:
  assumes "replay L ths h t = Some t'" and "tables_ok L t" and "\<forall>w. Written w \<in> set h \<longrightarrow> sensible L w"
    and "fst ` set (settled h) \<subseteq> {..< length ths}"
  shows "author_of t \<subseteq>\<^sub>m author_of t' \<and> (\<not> repaired h \<longrightarrow> counts_exact t \<longrightarrow> counts_exact t')
     \<and> (no_self_votes t \<longrightarrow> no_own_votes L ths t' \<longrightarrow> no_self_votes t')"
  using assms
proof (induction L ths h t rule: replay.induct)
  case (2 L ths x h t)
  then obtain t1 where t1: "replay_entry L ths x t = Some t1" "replay L ths h t1 = Some t'"
    by (auto split: option.splits)
  have x: "\<And>w. x = Written w \<Longrightarrow> sensible L w" "\<And>j b. x = Settled j b \<Longrightarrow> j < length ths"
    using "2.prems"(3,4) by auto
  have e: "tables_ok L t1 \<and> (\<not> repaired [x] \<longrightarrow> counts_exact t \<longrightarrow> counts_exact t1) \<and> author_of t \<subseteq>\<^sub>m author_of t1
     \<and> (no_self_votes t \<longrightarrow> no_own_votes L ths t1 \<longrightarrow> no_self_votes t1)"
    by (rule entry_effect[OF t1(1) "2.prems"(2)]) (use x in blast)+
  have "fst ` set (settled h) \<subseteq> {..< length ths}" using "2.prems"(4) by (cases x) simp_all
  then have ih: "author_of t1 \<subseteq>\<^sub>m author_of t'" "\<not> repaired h \<longrightarrow> counts_exact t1 \<longrightarrow> counts_exact t'"
    "no_self_votes t1 \<longrightarrow> no_own_votes L ths t' \<longrightarrow> no_self_votes t'"
    using "2.IH"[OF t1] e "2.prems"(3) by simp_all
  have "author_of t \<subseteq>\<^sub>m author_of t'" by (rule map_le_trans[OF _ ih(1)]) (use e in blast)
  moreover have "repaired (x # h) \<longleftrightarrow> repaired [x] \<or> repaired h" by (simp add: repaired_def)
  moreover have "no_own_votes L ths t' \<longrightarrow> no_own_votes L ths t1" using no_own_votes_earlier[OF _ ih(1)] by blast
  ultimately show ?case using e ih(2,3) by argo
qed simp

end
