(* ===== verification/Serialisability.thy ===== *)
theory Serialisability
  imports Transactions
begin

text \<open>
  The vote transactions among each other and among the other writes: whatever the order in which
  PostgreSQL runs the statements, the committed tables are those of the settled transactions and the
  writes run one after the other, each transaction with the answer it gave; and no transaction can
  be blocked for good.
\<close>

section \<open>Serialisability\<close>

text \<open>
  The invariant: the committed tables are those of the history and satisfy the constraints; every open transaction's findings
  still hold of them; no two open transactions have written the same key or the same row; and the
  history has each settled transaction once.
\<close>

definition findings :: "pg_lib \<Rightarrow> vote_tx \<Rightarrow> phase \<Rightarrow> tables \<Rightarrow> bool" where
  "findings L th p t \<longleftrightarrow> (holds_key p \<longrightarrow> vote_found L th t) \<and> (\<forall>new. p = Counted new \<longrightarrow> count_found L th new t)"

definition apart :: "pg_lib \<Rightarrow> vote_tx \<Rightarrow> phase \<Rightarrow> vote_tx \<Rightarrow> phase \<Rightarrow> bool" where
  "apart L th p th' p' \<longleftrightarrow> (holds_key p \<longrightarrow> holds_key p' \<longrightarrow> tx_key L th \<noteq> tx_key L th')
     \<and> (holds_row p \<longrightarrow> holds_row p' \<longrightarrow> tx_row L th \<noteq> tx_row L th')"

fun recorded :: "(nat \<times> bool) list \<Rightarrow> phase \<Rightarrow> nat \<Rightarrow> bool" where
  "recorded h Unaffected j \<longleftrightarrow> (j, False) \<in> set h"
| "recorded h (Committed b) j \<longleftrightarrow> (j, b) \<in> set h"
| "recorded h Aborted j \<longleftrightarrow> True"
| "recorded h p j \<longleftrightarrow> j \<notin> fst ` set h"

definition tx_inv :: "pg_lib \<Rightarrow> vote_tx list \<Rightarrow> tables \<Rightarrow> config \<Rightarrow> bool" where
  "tx_inv L ths t0 c \<longleftrightarrow>
     length (phases c) = length ths
   \<and> replay L ths (history c) t0 = Some (committed c) \<and> tables_ok L (committed c)
   \<and> (\<forall>j < length ths. findings L (ths ! j) (phases c ! j) (committed c))
   \<and> (\<forall>j < length ths. recorded (settled (history c)) (phases c ! j) j)
   \<and> (\<forall>j < length ths. \<forall>k < length ths. j \<noteq> k \<longrightarrow> apart L (ths ! j) (phases c ! j) (ths ! k) (phases c ! k))
   \<and> distinct (map fst (settled (history c))) \<and> fst ` set (settled (history c)) \<subseteq> {..< length ths}"

lemma tx_inv_begin: "tables_ok L t \<Longrightarrow> tx_inv L ths t (tx_begin ths t)"
  by (simp add: tx_inv_def tx_begin_def findings_def apart_def)

lemma apart_sym: "apart L th p th' p' \<Longrightarrow> apart L th' p' th p"
  by (auto simp: apart_def)

lemma recorded_snoc:
  assumes "recorded h p i" and "i \<noteq> j"
  shows "recorded (h @ [(j, b)]) p i"
  using assms by (cases p) auto

text \<open>A step of one transaction, in the terms of the invariant.\<close>

lemma tx_inv_update:
  assumes inv: "tx_inv L ths t0 c" and j: "j < length ths"
    and h: "settled h = settled (history c)
      \<or> j \<notin> fst ` set (settled (history c)) \<and> (\<exists>b. settled h = settled (history c) @ [(j, b)])"
    and rep: "replay L ths h t0 = Some t" "tables_ok L t"
    and own: "findings L (ths ! j) p t" "recorded (settled h) p j"
    and others: "\<And>i. i < length ths \<Longrightarrow> i \<noteq> j \<Longrightarrow> findings L (ths ! i) (phases c ! i) t"
      "\<And>i. i < length ths \<Longrightarrow> i \<noteq> j \<Longrightarrow> apart L (ths ! j) p (ths ! i) (phases c ! i)"
  shows "tx_inv L ths t0 \<lparr>committed = t, phases = (phases c)[j := p], history = h\<rparr>"
proof -
  have len: "length (phases c) = length ths" using inv by (simp add: tx_inv_def)
  have rec: "recorded (settled h) (phases c ! i) i" if "i < length ths" "i \<noteq> j" for i
    using h inv that recorded_snoc by (auto simp: tx_inv_def)
  have "fst ` set (settled h) \<subseteq> insert j (fst ` set (settled (history c)))" using h by auto
  then have dist: "distinct (map fst (settled h))" "fst ` set (settled h) \<subseteq> {..< length ths}"
    using h inv j by (fastforce simp: tx_inv_def)+
  have ap: "apart L (ths ! i) ((phases c)[j := p] ! i) (ths ! k) ((phases c)[j := p] ! k)"
    if "i < length ths" "k < length ths" "i \<noteq> k" for i k
  proof -
    consider "i = j" | "k = j" | "i \<noteq> j" "k \<noteq> j" by blast
    then show ?thesis
    proof cases
      case 1
      with others(2)[of k] that len show ?thesis by simp
    next
      case 2
      with others(2)[of i] that len show ?thesis by (simp add: apart_sym)
    next
      case 3
      with inv that show ?thesis by (simp add: tx_inv_def)
    qed
  qed
  have fi: "findings L (ths ! i) ((phases c)[j := p] ! i) t" if "i < length ths" for i
    using own(1) others(1) that len by (cases "i = j") simp_all
  have re: "recorded (settled h) ((phases c)[j := p] ! i) i" if "i < length ths" for i
    using own(2) rec that len by (cases "i = j") simp_all
  show ?thesis using len rep fi re ap dist by (simp add: tx_inv_def)
qed

lemma enter_simps [simp]:
  "committed (enter j p c) = committed c" "history (enter j p c) = history c" "phases (enter j p c) = (phases c)[j := p]"
  "committed (settle j b c) = committed c" "phases (settle j b c) = phases c" "history (settle j b c) = history c @ [Settled j b]"
  by (simp_all add: enter_def settle_def)

lemma rival_iff:
  "rival held key ths c j \<longleftrightarrow> (\<exists>k < length ths. k \<noteq> j \<and> held (phases c ! k) \<and> key (ths ! k) = key (ths ! j))"
  by (auto simp: rival_def list_ex_iff)

lemma config_eta: "\<lparr>committed = committed c, phases = phases c, history = history c\<rparr> = c"
  by (cases c) simp

text \<open>A step that changes neither the committed tables nor the history.\<close>

lemma tx_inv_enter:
  assumes "tx_inv L ths t0 c" and "j < length ths"
    and "findings L (ths ! j) p (committed c)" and "recorded (settled (history c)) p j"
    and "\<And>i. i < length ths \<Longrightarrow> i \<noteq> j \<Longrightarrow> apart L (ths ! j) p (ths ! i) (phases c ! i)"
  shows "tx_inv L ths t0 (enter j p c)"
proof -
  have "tx_inv L ths t0 \<lparr>committed = committed c, phases = (phases c)[j := p], history = history c\<rparr>"
    by (rule tx_inv_update[OF assms(1,2) _ _ _ assms(3,4)]) (use assms(1,5) in \<open>auto simp: tx_inv_def\<close>)
  then show ?thesis by (cases c) (simp add: enter_def)
qed

lemma tx_inv_abort: "tx_inv L ths t0 c \<Longrightarrow> j < length ths \<Longrightarrow> tx_inv L ths t0 (enter j Aborted c)"
  by (rule tx_inv_enter) (simp_all add: findings_def apart_def)

lemma tx_inv_finish:
  assumes "tx_inv L ths t0 c" and "j < length ths" and "phases c ! j = Unaffected"
  shows "tx_inv L ths t0 (enter j (Committed False) c)"
proof (rule tx_inv_enter[OF assms(1,2)])
  have "recorded (settled (history c)) (phases c ! j) j" using assms(1,2) by (simp add: tx_inv_def)
  with assms(3) show "recorded (settled (history c)) (Committed False) j" by simp
qed (simp_all add: findings_def apart_def)

lemma tx_inv_unsettled:
  assumes "tx_inv L ths t0 c" and "j < length ths" and "phases c ! j \<in> {Started, Changed} \<union> range Counted"
  shows "j \<notin> fst ` set (settled (history c))"
proof -
  have "recorded (settled (history c)) (phases c ! j) j" using assms(1,2) by (simp add: tx_inv_def)
  with assms(3) show ?thesis by (cases "phases c ! j") (simp_all add: image_iff)
qed

lemma tx_inv_findings: "tx_inv L ths t0 c \<Longrightarrow> j < length ths \<Longrightarrow> findings L (ths ! j) (phases c ! j) (committed c)"
  and tx_inv_apart: "tx_inv L ths t0 c \<Longrightarrow> j < length ths \<Longrightarrow> k < length ths \<Longrightarrow> j \<noteq> k \<Longrightarrow>
    apart L (ths ! j) (phases c ! j) (ths ! k) (phases c ! k)"
  by (simp_all add: tx_inv_def)

lemma tx_inv_tables_ok: "tx_inv L ths t0 c \<Longrightarrow> tables_ok L (committed c)"
  by (simp add: tx_inv_def)

lemma tx_inv_changed:
  assumes "tx_inv L ths t0 c" and "j < length ths" and "phases c ! j = Started"
    and "vote_stmt L (ths ! j) (committed c) = Inr (ct, t)" and "ct > 0" and "\<not> waits L ths c j"
  shows "tx_inv L ths t0 (enter j Changed c)"
proof (rule tx_inv_enter[OF assms(1,2)])
  have found: "vote_found L (ths ! j) (committed c)" by (rule vote_stmt_affects[OF assms(4,5)])
  then show "findings L (ths ! j) Changed (committed c)" by (simp add: findings_def)
  show "recorded (settled (history c)) Changed j" using tx_inv_unsettled[OF assms(1,2)] assms(3) by simp
  from found have "vt_op (ths ! j) = Casting \<or> tx_key L (ths ! j) \<in> Some ` vote_key ` set (votes (committed c))"
    by (cases "vt_op (ths ! j)") (auto simp: vote_found_def)
  then have "\<not> rival holds_key (tx_key L) ths c j" using assms(3,6) by (auto simp: waits_def)
  then show "apart L (ths ! j) Changed (ths ! i) (phases c ! i)" if "i < length ths" "i \<noteq> j" for i
    using that unfolding rival_iff apart_def by (metis holds_row.simps(4))
qed

lemma tx_inv_unaffected:
  assumes "tx_inv L ths t0 c" and "j < length ths" and "phases c ! j = Started"
    and "vote_stmt L (ths ! j) (committed c) = Inr (0, t)"
  shows "tx_inv L ths t0 (settle j False (enter j Unaffected c))"
proof -
  have fresh: "j \<notin> fst ` set (settled (history c))" using tx_inv_unsettled[OF assms(1,2)] assms(3) by simp
  have rep: "replay L ths (history c @ [Settled j False]) t0 = Some (committed c)"
    using assms(1) vote_stmt_idle[OF assms(4)] by (simp add: tx_inv_def replay_snoc)
  have "tx_inv L ths t0 \<lparr>committed = committed c, phases = (phases c)[j := Unaffected], history = history c @ [Settled j False]\<rparr>"
    by (rule tx_inv_update[OF assms(1,2) _ rep tx_inv_tables_ok[OF assms(1)]]) (use fresh tx_inv_findings[OF assms(1)] in \<open>auto simp: findings_def apart_def\<close>)
  then show ?thesis by (cases c) (simp add: enter_def settle_def)
qed

lemma tx_inv_counted:
  assumes "tx_inv L ths t0 c" and "j < length ths" and "phases c ! j = Changed"
    and "count_stmt L (ths ! j) (with_vote L (ths ! j) (committed c)) = Inr (n, t)" and "\<not> waits L ths c j"
  shows "tx_inv L ths t0 (enter j (Counted (case tx_row L (ths ! j) of None \<Rightarrow> None | Some r \<Rightarrow> find_request t r)) c)"
proof -
  have found: "vote_found L (ths ! j) (committed c)"
    using tx_inv_findings[OF assms(1,2)] assms(3) by (simp add: findings_def)
  then obtain r where r: "tx_row L (ths ! j) = Some r" by (auto simp: vote_found_def tx_key_Some)
  have "tx_inv L ths t0 (enter j (Counted (find_request t r)) c)"
  proof (rule tx_inv_enter[OF assms(1,2)])
    show "findings L (ths ! j) (Counted (find_request t r)) (committed c)"
      using found count_stmt_counts[OF assms(4) r] by (simp add: findings_def)
    show "recorded (settled (history c)) (Counted (find_request t r)) j" using tx_inv_unsettled[OF assms(1,2)] assms(3) by simp
    have "\<not> rival holds_row (tx_row L) ths c j" using assms(3,5) by (simp add: waits_def)
    then show "apart L (ths ! j) (Counted (find_request t r)) (ths ! i) (phases c ! i)" if "i < length ths" "i \<noteq> j" for i
      using that tx_inv_apart[OF assms(1,2) that(1)] assms(3) unfolding rival_iff apart_def by (metis holds_key.simps(1))
  qed
  with r show ?thesis by simp
qed

lemma tx_inv_committed:
  assumes "tx_inv L ths t0 c" and "j < length ths" and "phases c ! j = Counted new"
  shows "tx_inv L ths t0 (settle j True (enter j (Committed True)
    (c\<lparr>committed := with_row new (with_vote L (ths ! j) (committed c))\<rparr>)))"
proof -
  let ?t = "committed c" and ?th = "ths ! j"
  note ok = tx_inv_tables_ok[OF assms(1)]
  have found: "vote_found L ?th ?t" and counted: "count_found L ?th new ?t"
    using tx_inv_findings[OF assms(1,2)] assms(3) by (simp_all add: findings_def)
  then obtain k where k: "tx_key L ?th = Some k" by (auto simp: vote_found_def)
  have fresh: "j \<notin> fst ` set (settled (history c))" using tx_inv_unsettled[OF assms(1,2)] assms(3) by simp
  have rep: "replay L ths (history c @ [Settled j True]) t0 = Some (with_row new (with_vote L ?th ?t))"
    and ok': "tables_ok L (with_row new (with_vote L ?th ?t))"
    using assms(1) commit_atomic[OF ok found counted] atomic_tx_effect[OF commit_atomic[OF ok found counted] ok]
    by (simp_all add: tx_inv_def replay_snoc)
  have others: "findings L (ths ! i) (phases c ! i) (with_row new (with_vote L ?th ?t))"
    if i: "i < length ths" "i \<noteq> j" for i
  proof -
    have f: "findings L (ths ! i) (phases c ! i) ?t" by (rule tx_inv_findings[OF assms(1) i(1)])
    have a: "apart L (ths ! i) (phases c ! i) ?th (Counted new)"
      using tx_inv_apart[OF assms(1) i(1) assms(2) i(2)] assms(3) by simp
    have "vote_found L (ths ! i) (with_row new (with_vote L ?th ?t))" if "holds_key (phases c ! i)"
      using f a that k by (intro vote_found_commit[OF _ k]) (simp_all add: findings_def apart_def)
    moreover have "count_found L (ths ! i) new' (with_row new (with_vote L ?th ?t))" if "phases c ! i = Counted new'" for new'
      using f a that by (intro count_found_commit[OF _ counted]) (simp_all add: findings_def apart_def)
    ultimately show ?thesis by (simp add: findings_def)
  qed
  have "tx_inv L ths t0 \<lparr>committed = with_row new (with_vote L ?th ?t), phases = (phases c)[j := Committed True],
      history = history c @ [Settled j True]\<rparr>"
    by (rule tx_inv_update[OF assms(1,2) _ rep ok']) (use fresh others in \<open>auto simp: findings_def apart_def\<close>)
  then show ?thesis by (cases c) (simp add: enter_def settle_def)
qed

lemma tx_inv_go:
  assumes inv: "tx_inv L ths t0 c" and j: "j < length ths" "\<not> waits L ths c j"
  shows "tx_inv L ths t0 (go L (ths ! j) j c)"
proof (cases "phases c ! j")
  case Started
  show ?thesis
  proof (cases "vote_stmt L (ths ! j) (committed c)")
    case (Inl e)
    with Started tx_inv_abort[OF inv j(1)] show ?thesis by (simp add: go_def)
  next
    case (Inr x)
    obtain ct t where x: "x = (ct, t)" by (cases x)
    show ?thesis
    proof (cases "ct > 0")
      case True
      with Started Inr x tx_inv_changed[OF inv j(1) Started _ True j(2)] show ?thesis by (simp add: go_def)
    next
      case False
      with Inr x have "vote_stmt L (ths ! j) (committed c) = Inr (0, t)" by simp
      from tx_inv_unaffected[OF inv j(1) Started this] Started this show ?thesis by (simp add: go_def)
    qed
  qed
next
  case Changed
  show ?thesis
  proof (cases "count_stmt L (ths ! j) (with_vote L (ths ! j) (committed c))")
    case (Inl e)
    with Changed tx_inv_abort[OF inv j(1)] show ?thesis by (simp add: go_def)
  next
    case (Inr x)
    obtain n t where "x = (n, t)" by (cases x)
    with Inr Changed tx_inv_counted[OF inv j(1) Changed _ j(2), of n t] show ?thesis by (simp add: go_def)
  qed
next
  case Unaffected
  with tx_inv_finish[OF inv j(1)] show ?thesis by (simp add: go_def)
next
  case (Counted new)
  with tx_inv_committed[OF inv j(1) Counted] show ?thesis by (simp add: go_def)
qed (use inv in \<open>simp_all add: go_def\<close>)

text \<open>Another write, when it need not wait.\<close>

lemma tx_inv_write:
  assumes inv: "tx_inv L ths t0 c" and free: "\<not> write_waits L ths c w"
    and w: "write_outcome L w (committed c) = Some t" "sensible L w"
  shows "tx_inv L ths t0 (c\<lparr>committed := t, history := history c @ [Written w]\<rparr>)"
proof -
  note ok = tx_inv_tables_ok[OF inv]
  have f: "findings L (ths ! j) (phases c ! j) t" if j: "j < length ths" for j
  proof -
    have old: "findings L (ths ! j) (phases c ! j) (committed c)" by (rule tx_inv_findings[OF inv j])
    have "count_found L (ths ! j) new t" if "phases c ! j = Counted new" for new
    proof (rule count_found_write[OF _ w(1) _ ok])
      show "count_found L (ths ! j) new (committed c)" "vote_found L (ths ! j) (committed c)"
        using old that by (simp_all add: findings_def)
      show "tx_row L (ths ! j) \<noteq> parse_uuid L i" if "w = Repairing now i n" for now i n
        using free j that \<open>phases c ! j = Counted new\<close> by (auto simp: list_ex_iff)
    qed
    with old vote_found_write[OF _ w(1)] show ?thesis by (auto simp: findings_def)
  qed
  show ?thesis using inv f write_effect[OF w(1) ok w(2)] w(1) by (simp add: tx_inv_def replay_snoc)
qed

lemma tx_inv_act:
  assumes "tx_inv L ths t0 c" and "\<And>w. ev = Apply w \<Longrightarrow> sensible L w"
  shows "tx_inv L ths t0 (tx_act L ths ev c)"
  using assms tx_inv_go[OF assms(1)] tx_inv_abort[OF assms(1)] tx_inv_write[OF assms(1)]
  by (cases ev) (auto split: option.split)

lemma tx_inv_run:
  assumes "tx_inv L ths t0 c" and "\<forall>w. Apply w \<in> set evs \<longrightarrow> sensible L w"
  shows "tx_inv L ths t0 (tx_run L ths evs c)"
  using assms
proof (induction evs arbitrary: c)
  case (Cons ev evs)
  then have "tx_inv L ths t0 (tx_act L ths ev c)" by (intro tx_inv_act) auto
  from Cons.IH[OF this] Cons.prems(2) show ?case by (simp add: tx_run_def)
qed (simp add: tx_run_def)

lemma history_act: "Written w \<in> set (history (tx_act L ths ev c)) \<Longrightarrow> Written w \<in> set (history c) \<or> ev = Apply w"
  by (cases ev) (auto simp: go_def split: if_splits phase.splits sum.splits option.splits)

lemma history_run: "Written w \<in> set (history (tx_run L ths evs c)) \<Longrightarrow> Written w \<in> set (history c) \<or> Apply w \<in> set evs"
  unfolding tx_run_def by (induction evs arbitrary: c) (auto dest: history_act)

text \<open>
  C3: The transactions of the vote repository are serialisable: however the statements of any number
  of concurrent inserts and removals are interleaved, among each other and among repairs of counters,
  new requests and new accounts, whichever of them wait or are rolled back, the committed tables are
  at every moment what the settled transactions and the other writes give when they are run one
  after the other, each transaction exactly once and with the answer its method returned. The
  constraints hold throughout, and unless a counter was repaired every counter stays exact.
\<close>

theorem transactions_serialise:
  assumes "tables_ok L t" and "\<forall>w. Apply w \<in> set evs \<longrightarrow> sensible L w"
    and "c = tx_run L ths evs (tx_begin ths t)"
  shows "replay L ths (history c) t = Some (committed c) \<and> distinct (map fst (settled (history c)))
     \<and> (\<forall>j < length ths. \<forall>b. phases c ! j = Committed b \<longrightarrow> (j, b) \<in> set (settled (history c)))
     \<and> tables_ok L (committed c)
     \<and> (\<not> repaired (history c) \<longrightarrow> counts_exact t \<longrightarrow> counts_exact (committed c))
     \<and> (no_self_votes t \<longrightarrow> no_own_votes L ths (committed c) \<longrightarrow> no_self_votes (committed c))"
proof -
  have inv: "tx_inv L ths t c"
    unfolding assms(3) by (rule tx_inv_run[OF tx_inv_begin[OF assms(1)] assms(2)])
  have settled: "(j, b) \<in> set (settled (history c))" if "j < length ths" "phases c ! j = Committed b" for j b
  proof -
    have "recorded (settled (history c)) (phases c ! j) j" using inv that(1) by (simp add: tx_inv_def)
    with that(2) show ?thesis by simp
  qed
  have r: "replay L ths (history c) t = Some (committed c)" "fst ` set (settled (history c)) \<subseteq> {..< length ths}"
    "distinct (map fst (settled (history c)))" "tables_ok L (committed c)"
    using inv unfolding tx_inv_def by blast+
  have "\<forall>w. Written w \<in> set (history c) \<longrightarrow> sensible L w"
    using assms(2) history_run[of _ L ths evs "tx_begin ths t"] unfolding assms(3) by (auto simp: tx_begin_def)
  from replay_effect[OF r(1) assms(1) this r(2)] r settled show ?thesis by blast
qed

text \<open>
  Two inserts and a removal of the same vote, all at once, a new account and a repair: the second
  insert has to wait for the first, and the repair for the transaction that has counted.
\<close>

definition demo_txs :: "vote_tx list" where
  "demo_txs = map (\<lambda>(op, now). \<lparr>vt_op = op, vt_now = now, vt_user = ''bob'', vt_request = ''r1''\<rparr>)
     [(Casting, 10), (Casting, 11), (Taking, 12)]"

definition demo_events :: "event list" where
  "demo_events =
     [Go 0, Go 1, Go 2, Apply (Creating 13 ''carol'' ''carol@example.com'' ''hash''), Go 2, Go 0,
      Apply (Repairing 14 ''r1'' 7), Go 1, Go 0, Go 1, Go 1, Apply (Repairing 15 ''r1'' 1)]"

lemma demo_txs_result:
  "phases (tx_run demo_lib demo_txs demo_events (tx_begin demo_txs demo_tables)) = [Committed True, Committed False, Committed False]"
  "map r_vote_count (feature_requests (committed (tx_run demo_lib demo_txs demo_events (tx_begin demo_txs demo_tables)))) = [1]"
  by code_simp+

theorem transactions_serialise_witness:
  "\<exists>h. {(0, True), (1, False), (2, False)} \<subseteq> set (settled h) \<and> distinct (map fst (settled h))
     \<and> replay demo_lib demo_txs h demo_tables
         = Some (committed (tx_run demo_lib demo_txs demo_events (tx_begin demo_txs demo_tables)))"
proof -
  let ?c = "tx_run demo_lib demo_txs demo_events (tx_begin demo_txs demo_tables)"
  have n: "length demo_txs = 3" by (simp add: demo_txs_def)
  have "\<forall>w. Apply w \<in> set demo_events \<longrightarrow> sensible demo_lib w" by (auto simp: demo_events_def int32_range_def)
  note s = transactions_serialise[OF demo_tables_ok this refl, of demo_txs]
  then have "(j, b) \<in> set (settled (history ?c))" if "j < 3" "phases ?c ! j = Committed b" for j b
    using that n by simp
  then have "(0, True) \<in> set (settled (history ?c))" "(1, False) \<in> set (settled (history ?c))"
    "(2, False) \<in> set (settled (history ?c))" using demo_txs_result(1) by simp_all
  with s show ?thesis by blast
qed

section \<open>Progress\<close>

fun rank :: "phase \<Rightarrow> nat" where
  "rank Started = 3"
| "rank Changed = 2"
| "rank Unaffected = 1"
| "rank (Counted q) = 1"
| "rank _ = 0"

definition remaining :: "config \<Rightarrow> nat" where
  "remaining c = sum_list (map rank (phases c))"

lemma sum_list_update_less:
  fixes xs :: "nat list"
  assumes "j < length xs" and "x < xs ! j"
  shows "sum_list (xs[j := x]) < sum_list xs"
  using assms by (induction xs arbitrary: j) (auto split: nat.splits simp: nth_Cons')

lemma remaining_enter:
  assumes "j < length (phases c)" and "rank p < rank (phases c ! j)"
  shows "remaining (enter j p c) < remaining c"
  using assms by (simp add: remaining_def map_update sum_list_update_less)

text \<open>A transaction that need not wait gets ahead.\<close>

lemma go_progress:
  assumes "j < length (phases c)" and "\<not> finished (phases c ! j)"
  shows "remaining (go L th j c) < remaining c \<and> length (phases (go L th j c)) = length (phases c)"
  using assms
  by (cases "phases c ! j")
     (auto simp: go_def remaining_def enter_def settle_def map_update sum_list_update_less split: sum.split)

lemma someone_can_go:
  assumes "j < length ths" and "\<not> finished (phases c ! j)"
  shows "\<exists>k < length ths. \<not> finished (phases c ! k) \<and> \<not> waits L ths c k"
proof -
  let ?ready = "\<lambda>p. p = Unaffected \<or> (\<exists>q. p = Counted q)"
  show ?thesis
  proof (cases "\<exists>k < length ths. ?ready (phases c ! k)")
    case True
    then obtain k where k: "k < length ths" "?ready (phases c ! k)" by blast
    then have "\<not> finished (phases c ! k)" "\<not> waits L ths c k" by (auto simp: waits_def)
    with k(1) show ?thesis by blast
  next
    case False
    then have rows: "\<not> holds_row (phases c ! i)" if "i < length ths" for i using that by (cases "phases c ! i") auto
    show ?thesis
    proof (cases "\<exists>k < length ths. phases c ! k = Changed")
      case True
      then obtain k where k: "k < length ths" "phases c ! k = Changed" by blast
      with rows have "\<not> waits L ths c k" by (auto simp: waits_def rival_iff)
      with k show ?thesis by (intro exI[of _ k]) simp
    next
      case no_change: False
      with False have keys: "\<not> holds_key (phases c ! i)" if "i < length ths" for i
        using that by (cases "phases c ! i") auto
      have "phases c ! j = Started" using assms False no_change by (cases "phases c ! j") auto
      with keys have "\<not> waits L ths c j" by (auto simp: waits_def rival_iff)
      with assms show ?thesis by blast
    qed
  qed
qed

lemma all_can_finish:
  assumes "length (phases c) = length ths"
  shows "\<exists>js. \<forall>j < length ths. finished (phases (tx_run L ths (map Go js) c) ! j)"
  using assms
proof (induction "remaining c" arbitrary: c rule: less_induct)
  case less
  show ?case
  proof (cases "\<forall>j < length ths. finished (phases c ! j)")
    case True
    then show ?thesis by (intro exI[of _ "[]"]) (simp add: tx_run_def)
  next
    case False
    then obtain k where k: "k < length ths" "\<not> finished (phases c ! k)" "\<not> waits L ths c k"
      using someone_can_go by blast
    let ?c = "go L (ths ! k) k c"
    have "remaining ?c < remaining c" "length (phases ?c) = length ths"
      using go_progress[of k c L "ths ! k"] k less.prems by simp_all
    from less.hyps[OF this] obtain js where "\<forall>j < length ths. finished (phases (tx_run L ths (map Go js) ?c) ! j)" by blast
    then show ?thesis using k by (intro exI[of _ "k # js"]) (simp add: tx_run_def)
  qed
qed

lemma length_phases_act: "length (phases (tx_act L ths ev c)) = length (phases c)"
  by (cases ev) (auto simp: go_def split: phase.split sum.split option.split)

lemma length_phases_run: "length (phases (tx_run L ths evs c)) = length (phases c)"
  unfolding tx_run_def by (induction evs arbitrary: c) (simp_all add: length_phases_act)

text \<open>
  C21: The transactions never deadlock: from every point of every execution there is a continuation in
  which no transaction is made to fail and all of them end.
\<close>

theorem transactions_never_deadlock:
  "\<exists>js. list_all finished (phases (tx_run L ths (evs @ map Go js) (tx_begin ths t)))"
proof -
  have n: "length (phases (tx_run L ths evs' (tx_begin ths t))) = length ths" for evs'
    by (simp add: length_phases_run tx_begin_def)
  from all_can_finish[OF n] obtain js where
    "\<forall>j < length ths. finished (phases (tx_run L ths (map Go js) (tx_run L ths evs (tx_begin ths t))) ! j)" by blast
  then have "\<forall>j < length ths. finished (phases (tx_run L ths (evs @ map Go js) (tx_begin ths t)) ! j)"
    by (simp add: tx_run_def)
  then show ?thesis unfolding list_all_length n by blast
qed

end
