(* ===== verification/Live_Paging.thy ===== *)
theory Live_Paging
  imports Transactions
begin

text \<open>
  Following cursors while the service is in use: the tables change between one page and the next.
  The page after a cursor is what now lies below the place the cursor names. Newest first, that place
  does not move, so nothing is listed twice and nothing that was there is missed; in the order of
  votes the requests move past it.
\<close>

section \<open>Pages of changing tables\<close>

text \<open>The client's loop, with the state each of its requests meets.\<close>

fun collect_live ::
  "'s list \<Rightarrow> (ListParams \<Rightarrow> ('s, RequestPage) eff) \<Rightarrow> ListParams \<Rightarrow> FeatureRequest list option" where
  "collect_live [] svc p = None"
| "collect_live (s # ss) svc p =
     (case svc p s of
        (Inl e, s') \<Rightarrow> None
      | (Inr page, s') \<Rightarrow>
          (case NextCursor page of
             None \<Rightarrow> Some (Items page)
           | Some c \<Rightarrow> map_option ((@) (Items page)) (collect_live ss svc (p\<lparr>Cursor := Some c\<rparr>))))"

lemma collect_live_cong:
  assumes "\<And>p' s'. Sort p' = Sort p \<Longrightarrow> svc p' s' = svc' p' s'"
  shows "collect_live ss svc p = collect_live ss svc' p"
  using assms
proof (induction ss arbitrary: p)
  case (Cons s ss)
  have "collect_live ss svc (p\<lparr>Cursor := Some c\<rparr>) = collect_live ss svc' (p\<lparr>Cursor := Some c\<rparr>)" for c
    using Cons.prems by (intro Cons.IH) simp
  with Cons.prems[of p s] show ?case by (simp split: sum.split option.split prod.split)
qed simp

definition below :: "('k::linorder) option \<Rightarrow> 'k \<Rightarrow> bool" where
  "below c k \<longleftrightarrow> (case c of None \<Rightarrow> True | Some k0 \<Rightarrow> k < k0)"

lemma below_simps [simp]: "below None k" "below (Some k0) k \<longleftrightarrow> k < k0"
  by (simp_all add: below_def)

text \<open>
  The contract of a list operation over changing states: an item is made of a row, and the page after
  the cursor of an item, made in whatever state, holds the rows now below the item's key.
\<close>

locale live_lister =
  fixes lister :: "ListParams \<Rightarrow> ('s, FeatureRequest list) eff"
    and ready :: "'s \<Rightarrow> string \<Rightarrow> bool"
    and rows :: "'s \<Rightarrow> 'q list"
    and key :: "'q \<Rightarrow> 'k::linorder"
    and item :: "'s \<Rightarrow> string \<Rightarrow> 'q \<Rightarrow> FeatureRequest"
  assumes first_page: "ready s (ViewerID p) \<Longrightarrow> Cursor p = None \<Longrightarrow> 0 \<le> Limit p \<Longrightarrow>
      lister p s = (Inr (map (item s (ViewerID p)) (take (nat (Limit p)) (descending key (rows s)))), s)"
    and later_page: "ready s0 v0 \<Longrightarrow> q \<in> set (rows s0) \<Longrightarrow> Cursor p = Some (encodeCursor (item s0 v0 q)) \<Longrightarrow>
      ready s (ViewerID p) \<Longrightarrow> 0 \<le> Limit p \<Longrightarrow>
      lister p s = (Inr (map (item s (ViewerID p))
        (take (nat (Limit p)) (filter (\<lambda>x. key x < key q) (descending key (rows s))))), s)"
    and keys_distinct: "ready s v \<Longrightarrow> distinct (map key (rows s))"
begin

definition after :: "'k option \<Rightarrow> 's \<Rightarrow> 'q list" where
  "after c s = filter (\<lambda>q. below c (key q)) (descending key (rows s))"

definition standing :: "ListParams \<Rightarrow> 'k option \<Rightarrow> bool" where
  "standing p c \<longleftrightarrow> Cursor p = None \<and> c = None
     \<or> (\<exists>s0 v0 q. ready s0 v0 \<and> q \<in> set (rows s0) \<and> Cursor p = Some (encodeCursor (item s0 v0 q)) \<and> c = Some (key q))"

lemma after_sorted: "ready s v \<Longrightarrow> sorted_wrt (\<lambda>a b. key b < key a) (after c s)"
  unfolding after_def by (intro sorted_wrt_filter descending_sorted keys_distinct)

lemma set_after [simp]: "set (after c s) = {q \<in> set (rows s). below c (key q)}"
  by (auto simp: after_def)

lemma live_page:
  assumes "standing p c" and "ready s (ViewerID p)"
  shows "list_page lister f p s = (Inr (page_of (effective_limit (Limit p)) (map (item s (ViewerID p)) (after c s))), s)"
proof -
  let ?n = "effective_limit (Limit p)" and ?rest = "map (item s (ViewerID p)) (after c s)"
  have "lister (p\<lparr>Limit := int ?n + 1\<rparr>) s = (Inr (take (Suc ?n) ?rest), s)"
    using assms first_page[of s "p\<lparr>Limit := int ?n + 1\<rparr>"] later_page[of _ _ _ "p\<lparr>Limit := int ?n + 1\<rparr>" s]
    by (auto simp: standing_def after_def nat_add_distrib take_map)
  moreover have "page_of ?n (take (Suc ?n) ?rest) = page_of ?n ?rest"
    using effective_limit_bounds(1)[of "Limit p"] by (auto simp: page_of_def min_def)
  ultimately show ?thesis by (simp add: list_page_def)
qed

text \<open>Following the cursors while rows only come and no key changes.\<close>

lemma live_collect:
  assumes "\<forall>s \<in> set ss. ready s (ViewerID p)" and "standing p c"
    and "sorted_wrt (\<lambda>s s'. key ` set (rows s) \<subseteq> key ` set (rows s')) ss"
    and "card {k \<in> key ` set (rows (last ss)). below c k} < length ss"
  shows "\<exists>qs. collect_live ss (list_page lister f) p = Some (map (\<lambda>(s, q). item s (ViewerID p) q) qs)
     \<and> sorted_wrt (\<lambda>a b. key (snd b) < key (snd a)) qs
     \<and> (\<forall>(s, q) \<in> set qs. s \<in> set ss \<and> q \<in> set (rows s) \<and> below c (key q))
     \<and> (\<forall>q \<in> set (rows (hd ss)). below c (key q) \<longrightarrow> key q \<in> (key \<circ> snd) ` set qs)"
  using assms
proof (induction ss arbitrary: p c)
  case (Cons s ss)
  let ?n = "effective_limit (Limit p)" and ?v = "ViewerID p"
  define rest where "rest = after c s"
  have page: "list_page lister f p s = (Inr (page_of ?n (map (item s ?v) rest)), s)"
    unfolding rest_def using Cons.prems by (intro live_page) simp_all
  have sorted: "sorted_wrt (\<lambda>a b. key b < key a) rest"
    unfolding rest_def using Cons.prems(1) by (intro after_sorted) auto
  show ?case
  proof (cases "length rest > ?n")
    case False
    then have "collect_live (s # ss) (list_page lister f) p = Some (map (\<lambda>(s, q). item s ?v q) (map (Pair s) rest))"
      by (simp add: page page_of_def comp_def)
    then show ?thesis
      using sorted by (intro exI[of _ "map (Pair s) rest"]) (auto simp: rest_def sorted_wrt_map image_iff)
  next
    case True
    have n: "1 \<le> ?n" by (rule effective_limit_bounds)
    define x where "x = rest ! (?n - 1)"
    have x: "x \<in> set rest" using n True by (simp add: x_def)
    then have xs: "x \<in> set (rows s)" "below c (key x)" by (simp_all add: rest_def)
    have grows: "key ` set (rows s) \<subseteq> key ` set (rows s')" if "s' \<in> set (s # ss)" for s'
      using Cons.prems(3) that by auto
    let ?K = "\<lambda>c. {k \<in> key ` set (rows (last (s # ss))). below c k}"
    have xK: "key x \<in> ?K c" using subsetD[OF grows[OF last_in_set] imageI[OF xs(1)]] xs(2) by blast
    then have "card (?K c) > 0" by (auto simp: card_gt_0_iff)
    then have "length (s # ss) \<noteq> 1" using Cons.prems(4) by linarith
    then have ss: "ss \<noteq> []" by auto
    have "?K (Some (key x)) \<subset> ?K c"
      using xK by (cases c) (auto simp: below_def dest: less_trans)
    then have "card (?K (Some (key x))) < card (?K c)" by (intro psubset_card_mono) simp_all
    with Cons.prems(4) ss have small: "card {k \<in> key ` set (rows (last ss)). below (Some (key x)) k} < length ss" by simp
    let ?p = "p\<lparr>Cursor := Some (encodeCursor (item s ?v x))\<rparr>"
    have "standing ?p (Some (key x))" using xs(1) Cons.prems(1) by (auto simp: standing_def)
    from Cons.IH[OF _ this _ small] Cons.prems(1,3) obtain qs where
      qs: "collect_live ss (list_page lister f) ?p = Some (map (\<lambda>(s, q). item s ?v q) qs)"
        "sorted_wrt (\<lambda>a b. key (snd b) < key (snd a)) qs"
        "\<forall>(s, q) \<in> set qs. s \<in> set ss \<and> q \<in> set (rows s) \<and> key q < key x"
        "\<forall>q \<in> set (rows (hd ss)). key q < key x \<longrightarrow> key q \<in> (key \<circ> snd) ` set qs" by auto
    let ?head = "map (Pair s) (take ?n rest)"
    have split: "rest = take (?n - 1) rest @ x # drop ?n rest"
      unfolding x_def using n True id_take_nth_drop[of "?n - 1" rest] by simp
    then have head: "take ?n rest = take (?n - 1) rest @ [x]"
      using n True by (cases ?n) (simp_all add: x_def take_Suc_conv_app_nth)
    have above: "key x \<le> key q" if "q \<in> set (take ?n rest)" for q
      using sorted that unfolding head by (subst (asm) split) (auto simp: sorted_wrt_append)
    have "collect_live (s # ss) (list_page lister f) p = Some (map (\<lambda>(s, q). item s ?v q) (?head @ qs))"
      using True n qs(1) by (simp add: page page_of_def x_def take_map comp_def)
    moreover have "sorted_wrt (\<lambda>a b. key (snd b) < key (snd a)) (?head @ qs)"
      using sorted_wrt_take[OF sorted, of ?n] qs(2,3) above by (fastforce simp: sorted_wrt_append sorted_wrt_map)
    moreover have "\<forall>(s', q) \<in> set (?head @ qs). s' \<in> set (s # ss) \<and> q \<in> set (rows s') \<and> below c (key q)"
    proof -
      have "below c (key q)" if "key q < key x" for q using that xs(2) by (cases c) auto
      with qs(3) show ?thesis by (auto simp: rest_def dest!: in_set_takeD)
    qed
    moreover have "\<forall>q \<in> set (rows (hd (s # ss))). below c (key q) \<longrightarrow> key q \<in> (key \<circ> snd) ` set (?head @ qs)"
    proof (intro ballI impI)
      fix q assume q: "q \<in> set (rows (hd (s # ss)))" "below c (key q)"
      then have "q \<in> set rest" by (simp add: rest_def)
      then consider "q \<in> set (take ?n rest)" | "q \<in> set (drop ?n rest)"
        using append_take_drop_id[of ?n rest] by (metis Un_iff set_append)
      then show "key q \<in> (key \<circ> snd) ` set (?head @ qs)"
      proof cases
        case 1
        then show ?thesis by (force simp: image_iff)
      next
        case 2
        then have "key q < key x" using sorted by (subst (asm) split) (auto simp: sorted_wrt_append)
        moreover obtain q' where "q' \<in> set (rows (hd ss))" "key q' = key q"
          using grows[of "hd ss"] ss q(1) by auto
        ultimately have "key q \<in> (key \<circ> snd) ` set qs" using qs(4) by metis
        then show ?thesis by auto
      qed
    qed
    ultimately show ?thesis by blast
  qed
qed simp

end

section \<open>The PostgreSQL lists\<close>

lemma keyset_page_below: "keyset_page key (Some k) n rows = take n (filter (\<lambda>r. key r < k) (descending key rows))"
  by (simp add: keyset_page_def descending_def rev_filter filter_sort[symmetric])

lemma listSQL_below:
  assumes "parse_uuid L viewer = Some v" and "0 \<le> limit" and "parse_uuid L (raw_id c) = Some i"
  shows "listSQL L key ck viewer (Some c) limit t = Inr (map (\<lambda>q. (q, viewer_has_voted t v q))
     (take (nat limit) (filter (\<lambda>q. key q < ck c i) (descending key (feature_requests t)))), t)"
  using assms by (simp add: listSQL_def bind_uuid_def keyset_page_below)

text \<open>The cursor of an item, made when the item's row was \<open>q\<close>.\<close>

lemma cursor_of_row:
  assumes "lists_ready L s0 v0" and "q \<in> set (feature_requests (tbl s0))"
  shows "usable_cursor (Some (encodeCursor (scan_row (q, b)))) =
      Some \<lparr>raw_id = r_id q, raw_createdAt = time_of_timestamptz (r_created_at q), raw_voteCount = r_vote_count q\<rparr>"
    and "parse_uuid L (r_id q) = Some (r_id q)"
  using assms usable_cursor_encode[of L "tbl s0" q b] by (auto simp: lists_ready_def tables_ok_def)

definition row_item :: "pg \<Rightarrow> string \<Rightarrow> request_row \<Rightarrow> FeatureRequest" where
  "row_item s v q = scan_row (q, viewer_has_voted (tbl s) v q)"

interpretation live_new: live_lister "ListRequestsByNew L" "lists_ready L" "\<lambda>s. feature_requests (tbl s)" new_key_of row_item for L
proof unfold_locales
  fix s and p :: ListParams
  assume "lists_ready L s (ViewerID p)" "Cursor p = None" "0 \<le> Limit p"
  then show "ListRequestsByNew L p s = (Inr (map (row_item s (ViewerID p))
      (take (nat (Limit p)) (descending new_key_of (feature_requests (tbl s))))), s)"
    using new_list.first_page[of L s p] by (simp add: listing_def take_map row_item_def[abs_def])
next
  fix s0 s v0 q and p :: ListParams
  assume a: "lists_ready L s0 v0" "q \<in> set (feature_requests (tbl s0))"
    "Cursor p = Some (encodeCursor (row_item s0 v0 q))" "lists_ready L s (ViewerID p)" "0 \<le> Limit p"
  note c = cursor_of_row(1)[OF a(1,2), of "viewer_has_voted (tbl s0) v0 q"] cursor_of_row(2)[OF a(1,2)]
  show "ListRequestsByNew L p s = (Inr (map (row_item s (ViewerID p)) (take (nat (Limit p))
      (filter (\<lambda>x. new_key_of x < new_key_of q) (descending new_key_of (feature_requests (tbl s)))))), s)"
    using a(3-5) c by (simp add: ListRequestsByNew_def lists_ready_def query_rows_no_faults listSQL_below row_item_def
        new_cursor_key_def new_key_of_def collectRequests_def scan_row_comp)
next
  show "lists_ready L s v \<Longrightarrow> distinct (map new_key_of (feature_requests (tbl s)))" for s v
    using keys_distinct(1) by (auto simp: lists_ready_def)
qed

interpretation live_top: live_lister "ListRequestsByTop L" "lists_ready L" "\<lambda>s. feature_requests (tbl s)" top_key_of row_item for L
proof unfold_locales
  fix s and p :: ListParams
  assume "lists_ready L s (ViewerID p)" "Cursor p = None" "0 \<le> Limit p"
  then show "ListRequestsByTop L p s = (Inr (map (row_item s (ViewerID p))
      (take (nat (Limit p)) (descending top_key_of (feature_requests (tbl s))))), s)"
    using top_list.first_page[of L s p] by (simp add: listing_def take_map row_item_def[abs_def])
next
  fix s0 s v0 q and p :: ListParams
  assume a: "lists_ready L s0 v0" "q \<in> set (feature_requests (tbl s0))"
    "Cursor p = Some (encodeCursor (row_item s0 v0 q))" "lists_ready L s (ViewerID p)" "0 \<le> Limit p"
  note c = cursor_of_row(1)[OF a(1,2), of "viewer_has_voted (tbl s0) v0 q"] cursor_of_row(2)[OF a(1,2)]
  show "ListRequestsByTop L p s = (Inr (map (row_item s (ViewerID p)) (take (nat (Limit p))
      (filter (\<lambda>x. top_key_of x < top_key_of q) (descending top_key_of (feature_requests (tbl s)))))), s)"
    using a(3-5) c by (simp add: ListRequestsByTop_def lists_ready_def query_rows_no_faults listSQL_below row_item_def
        top_cursor_key_def top_key_of_def collectRequests_def scan_row_comp)
next
  show "lists_ready L s v \<Longrightarrow> distinct (map top_key_of (feature_requests (tbl s)))" for s v
    using keys_distinct(2) by (auto simp: lists_ready_def)
qed

section \<open>What writes do to the order\<close>

lemma new_key_set_count [simp]: "new_key_of (set_count g now r q) = new_key_of q"
  by (simp add: new_key_of_def)

lemma replay_entry_keys:
  assumes "replay_entry L ths x t = Some t'"
  shows "new_key_of ` set (feature_requests t) \<subseteq> new_key_of ` set (feature_requests t')"
proof (cases x)
  case (Written w)
  with assms have "write_outcome L w t = Some t'" by simp
  then show ?thesis by (cases rule: write_cases) (auto simp: add_request_def add_user_def image_image)
next
  case (Settled j b)
  with assms have a: "atomic_tx L (ths ! j) t = Inr (b, t')" by (auto split: sum.splits if_splits)
  show ?thesis
  proof (cases "vt_op (ths ! j)")
    case Casting
    with a have "insert_vote_tx L (vt_now (ths ! j)) (vt_user (ths ! j)) (vt_request (ths ! j)) t = Inr (b, t')"
      by (simp add: atomic_tx_def)
    then show ?thesis by (cases rule: insert_vote_tx_cases) (auto simp: add_vote_def image_image)
  next
    case Taking
    with a have "delete_vote_tx L (vt_now (ths ! j)) (vt_user (ths ! j)) (vt_request (ths ! j)) t = Inr (b, t')"
      by (simp add: atomic_tx_def)
    then show ?thesis by (cases rule: delete_vote_tx_cases) (auto simp: drop_vote_def image_image)
  qed
qed

lemma replay_keys:
  "replay L ths h t = Some t' \<Longrightarrow> new_key_of ` set (feature_requests t) \<subseteq> new_key_of ` set (feature_requests t')"
proof (induction L ths h t rule: replay.induct)
  case (2 L ths x h t)
  then obtain t1 where t1: "replay_entry L ths x t = Some t1" "replay L ths h t1 = Some t'"
    by (auto split: option.splits)
  from replay_entry_keys[OF t1(1)] "2.IH"[OF t1] show ?case by (rule subset_trans)
qed simp

text \<open>Between two states, any transactions and other writes of the program were made.\<close>

definition written_between :: "pg_lib \<Rightarrow> pg \<Rightarrow> pg \<Rightarrow> bool" where
  "written_between L s s' \<longleftrightarrow> (\<exists>ths h. replay L ths h (tbl s) = Some (tbl s'))"

lemma written_keys:
  assumes "successively (written_between L) ss"
  shows "sorted_wrt (\<lambda>s s'. new_key_of ` set (feature_requests (tbl s)) \<subseteq> new_key_of ` set (feature_requests (tbl s'))) ss"
proof -
  let ?P = "\<lambda>s s'. new_key_of ` set (feature_requests (tbl s)) \<subseteq> new_key_of ` set (feature_requests (tbl s'))"
  have "successively ?P ss"
    using assms by (rule successively_mono) (auto simp: written_between_def dest: replay_keys)
  moreover have "transp ?P" by (auto intro!: transpI)
  ultimately show ?thesis using successively_conv_sorted_wrt[of ?P ss] by blast
qed

lemma sorted_wrt_related:
  "sorted_wrt P xs \<Longrightarrow> x \<in> set xs \<Longrightarrow> y \<in> set xs \<Longrightarrow> x = y \<or> P x y \<or> P y x"
  by (induction xs) auto

lemma sorted_wrt_distinct: "sorted_wrt (\<noteq>) xs \<longleftrightarrow> distinct xs"
  by (induction xs) auto

text \<open>A request has one place in the newest-first order, whichever state it is seen in.\<close>

lemma id_determines_key:
  assumes "sorted_wrt (\<lambda>s s'. new_key_of ` set (feature_requests (tbl s)) \<subseteq> new_key_of ` set (feature_requests (tbl s'))) ss"
    and "\<forall>s \<in> set ss. tables_ok L (tbl s)" and "s \<in> set ss" and "s' \<in> set ss"
    and "q \<in> set (feature_requests (tbl s))" and "q' \<in> set (feature_requests (tbl s'))" and "r_id q = r_id q'"
  shows "new_key_of q = new_key_of q'"
proof -
  have *: "new_key_of a = new_key_of b"
    if "new_key_of ` set (feature_requests (tbl z)) \<subseteq> new_key_of ` set (feature_requests (tbl z'))"
      "z' \<in> set ss" "a \<in> set (feature_requests (tbl z))" "b \<in> set (feature_requests (tbl z'))" "r_id a = r_id b" for z z' a b
  proof -
    from that(1,3) have "new_key_of a \<in> new_key_of ` set (feature_requests (tbl z'))" by blast
    then obtain c where c: "c \<in> set (feature_requests (tbl z'))" "new_key_of c = new_key_of a" by force
    then have "r_id c = r_id b" using that(5) by (simp add: new_key_of_def)
    moreover have "distinct (map r_id (feature_requests (tbl z')))" using assms(2) that(2) by (auto simp: tables_ok_def)
    ultimately have "c = b" using c(1) that(4) by (metis distinct_map inj_onD)
    with c(2) show ?thesis by simp
  qed
  from sorted_wrt_related[OF assms(1,3,4)] show ?thesis
    using *[OF _ assms(4-7)] *[OF _ assms(3,6,5) assms(7)[symmetric]] by auto
qed

text \<open>
  C12: Paging through the newest-first list while the service is in use misses and repeats nothing:
  whatever votes are cast and removed, counters repaired, requests submitted and accounts created
  between one page and the next, a client that follows the cursors comes to an end, sees every
  request that was there when it started, sees none twice, and sees them in descending order of
  creation.
\<close>

theorem newest_first_paging_survives_writes:
  assumes "\<forall>s \<in> set ss. lists_ready L s (ViewerID p)" and "successively (written_between L) ss"
    and "Sort p \<notin> {''top'', ''trending''}" and "Cursor p = None"
    and "length (feature_requests (tbl (last ss))) < length ss"
  shows "\<exists>items. collect_live ss (RankingService_List (postgres_RankingRepo L)) p = Some items
     \<and> distinct (map fr_ID items) \<and> sorted_wrt (\<lambda>x y. fr_CreatedAt y \<le> fr_CreatedAt x) items
     \<and> r_id ` set (feature_requests (tbl (hd ss))) \<subseteq> fr_ID ` set items"
proof -
  let ?f = "wrap (''list requests ('' @ Sort p @ ''): '')"
  note mono = written_keys[OF assms(2)]
  have "card {k \<in> new_key_of ` set (feature_requests (tbl (last ss))). below None k} < length ss"
    using assms(5) card_length[of "map new_key_of (feature_requests (tbl (last ss)))"] by (simp add: Collect_mem_eq)
  moreover have "live_new.standing L p None" using assms(4) by (simp add: live_new.standing_def)
  ultimately obtain qs where
    run: "collect_live ss (list_page (ListRequestsByNew L) ?f) p = Some (map (\<lambda>(s, q). row_item s (ViewerID p) q) qs)"
    and sorted: "sorted_wrt (\<lambda>a b. new_key_of (snd b) < new_key_of (snd a)) qs"
    and origin: "\<forall>(s, q) \<in> set qs. s \<in> set ss \<and> q \<in> set (feature_requests (tbl s))"
    and covered: "\<forall>q \<in> set (feature_requests (tbl (hd ss))). new_key_of q \<in> (new_key_of \<circ> snd) ` set qs"
    using live_new.live_collect[OF assms(1) _ mono, where c = None and f = ?f] by auto
  let ?items = "map (\<lambda>(s, q). row_item s (ViewerID p) q) qs"
  have svc: "RankingService_List (postgres_RankingRepo L) p' s' = list_page (ListRequestsByNew L) ?f p' s'"
    if "Sort p' = Sort p" for p' s'
    using assms(3) that by (simp add: RankingService_List_page postgres_ranking_lister)
  have id: "fr_ID (case z of (s, q) \<Rightarrow> row_item s (ViewerID p) q) = r_id (snd z)" for z
    by (simp add: row_item_def scan_row_def split: prod.split)
  have "collect_live ss (RankingService_List (postgres_RankingRepo L)) p = Some ?items"
    using run collect_live_cong[of p _ "list_page (ListRequestsByNew L) ?f", OF svc] by simp
  moreover have "distinct (map fr_ID ?items)"
  proof -
    have "sorted_wrt (\<lambda>a b. r_id (snd a) \<noteq> r_id (snd b)) qs"
    proof (rule sorted_wrt_mono_rel[OF _ sorted])
      fix a b assume ab: "a \<in> set qs" "b \<in> set qs" "new_key_of (snd b) < new_key_of (snd a)"
      then show "r_id (snd a) \<noteq> r_id (snd b)"
        using id_determines_key[OF mono, of L "fst a" "fst b" "snd a" "snd b"] assms(1) bspec[OF origin, of a] bspec[OF origin, of b]
        by (auto simp: lists_ready_def case_prod_beta)
    qed
    then have "sorted_wrt (\<noteq>) (map fr_ID ?items)" by (simp add: sorted_wrt_map id)
    then show ?thesis by (simp only: sorted_wrt_distinct)
  qed
  moreover have "sorted_wrt (\<lambda>x y. fr_CreatedAt y \<le> fr_CreatedAt x) ?items"
    unfolding sorted_wrt_map
    by (rule sorted_wrt_mono_rel[OF _ sorted])
       (auto simp: row_item_def scan_row_def time_of_timestamptz_def less_new_key_def new_key_of_def)
  moreover have "r_id q \<in> fr_ID ` set ?items" if q: "q \<in> set (feature_requests (tbl (hd ss)))" for q
  proof -
    obtain z where "z \<in> set qs" "new_key_of (snd z) = new_key_of q" using covered q by force
    then have "z \<in> set qs" "r_id (snd z) = r_id q" by (simp_all add: new_key_of_def)
    then show ?thesis by (force simp: image_image id)
  qed
  ultimately show ?thesis by blast
qed

text \<open>Two requests of alice; bob has voted for the older one, and then votes for the newer one.\<close>

definition live_request :: "string \<Rightarrow> int \<Rightarrow> int \<Rightarrow> request_row" where
  "live_request i votes_held created =
     \<lparr>r_id = i, r_author_id = ''alice'', r_title = ''Title'', r_description = ''Text'',
      r_vote_count = votes_held, r_created_at = created, r_updated_at = created\<rparr>"

definition live_before :: pg where
  "live_before = demo_pg\<lparr>tbl := demo_tables\<lparr>feature_requests := [live_request ''r1'' 1 3, live_request ''r2'' 0 4],
     votes := [\<lparr>v_user_id = ''bob'', v_request_id = ''r1'', v_created_at = 5\<rparr>]\<rparr>\<rparr>"

definition live_after :: pg where
  "live_after = live_before\<lparr>tbl := add_vote 6 ''bob'' ''r2'' (tbl live_before)\<rparr>"

lemma live_requests:
  "feature_requests (tbl live_before) = [live_request ''r1'' 1 3, live_request ''r2'' 0 4]"
  "feature_requests (tbl live_after) = [live_request ''r1'' 1 3, (live_request ''r2'' 1 4)\<lparr>r_updated_at := 6\<rparr>]"
  by (simp_all add: live_after_def live_before_def add_vote_def count_update_def set_count_def live_request_def)

lemma live_ready: "lists_ready demo_lib live_before v" "lists_ready demo_lib live_after v"
proof -
  have users: "users (tbl live_before) = users demo_tables" "users (tbl live_after) = users demo_tables"
    by (simp_all add: live_after_def live_before_def add_vote_def)
  have votes: "map vote_key (votes (tbl live_before)) = [(''bob'', ''r1'')]"
    "map vote_key (votes (tbl live_after)) = [(''bob'', ''r1''), (''bob'', ''r2'')]"
    by (simp_all add: live_after_def live_before_def add_vote_def vote_key_def)
  have fk: "\<forall>x \<in> set (votes (tbl live_before)). v_user_id x = ''bob'' \<and> v_request_id x \<in> {''r1'', ''r2''}"
    "\<forall>x \<in> set (votes (tbl live_after)). v_user_id x = ''bob'' \<and> v_request_id x \<in> {''r1'', ''r2''}"
    by (simp_all add: live_after_def live_before_def add_vote_def)
  have faults: "faults live_before = []" "faults live_after = []" by (simp_all add: live_after_def live_before_def)
  have demo: "distinct (map u_id (users demo_tables))" "distinct (map (\<lambda>u. citext_fold demo_lib (u_email u)) (users demo_tables))"
    using demo_tables_ok by (simp_all add: tables_ok_def)
  have "tables_ok demo_lib (tbl live_before)" "tables_ok demo_lib (tbl live_after)"
    using fk demo by (auto simp: tables_ok_def users votes live_requests demo_rows live_request_def int32_range_def)
  then show "lists_ready demo_lib live_before v" "lists_ready demo_lib live_after v"
    by (simp_all add: lists_ready_def times_ok_def ids_ok_def live_requests faults live_request_def
        time_of_timestamptz_def int64_range_def)
qed

lemma live_written: "written_between demo_lib live_before live_after"
proof -
  let ?th = "\<lparr>vt_op = Casting, vt_now = 6, vt_user = ''bob'', vt_request = ''r2''\<rparr>"
  have "insert_vote_tx demo_lib 6 ''bob'' ''r2'' (tbl live_before) = Inr (True, tbl live_after)"
  proof -
    have "(''bob'', ''r2'') \<notin> vote_key ` set (votes (tbl live_before))" by (simp add: live_before_def vote_key_def)
    moreover have "''bob'' \<in> u_id ` set (users (tbl live_before))" by (simp add: live_before_def demo_rows)
    moreover have "''r2'' \<in> r_id ` set (feature_requests (tbl live_before))" by (simp add: live_requests live_request_def)
    ultimately show ?thesis
      using insert_vote_tx_eq[of demo_lib "''bob''" "''bob''" "''r2''" "''r2''" "tbl live_before" 6]
      by (simp add: live_after_def) (simp add: live_requests live_request_def int32_range_def)
  qed
  then have "replay demo_lib [?th] [Settled 0 True] (tbl live_before) = Some (tbl live_after)"
    by (simp add: atomic_tx_def)
  then show ?thesis unfolding written_between_def by blast
qed

lemma written_between_refl: "written_between L s s"
  unfolding written_between_def by (intro exI[of _ "[]"]) simp

theorem newest_first_paging_survives_writes_witness:
  "\<exists>items. collect_live [live_before, live_after, live_after] (RankingService_List (postgres_RankingRepo demo_lib))
       \<lparr>Sort = ''new'', Cursor = None, Limit = 1, ViewerID = ''bob''\<rparr> = Some items
     \<and> {''r1'', ''r2''} \<subseteq> fr_ID ` set items \<and> distinct (map fr_ID items)"
proof -
  let ?p = "\<lparr>Sort = ''new'', Cursor = None, Limit = 1, ViewerID = ''bob''\<rparr>" and ?ss = "[live_before, live_after, live_after]"
  have "successively (written_between demo_lib) ?ss" by (simp add: live_written written_between_refl)
  moreover have "\<forall>s \<in> set ?ss. lists_ready demo_lib s (ViewerID ?p)" by (simp add: live_ready)
  ultimately show ?thesis
    using newest_first_paging_survives_writes[of ?ss demo_lib ?p] by (auto simp: live_requests live_request_def)
qed


end
