(* ===== verification/Configuration.thy ===== *)
theory Configuration
  imports Domain Go_Time
begin

text \<open>
  \<open>internal/config/config.go\<close>: the settings the server reads from its environment. \<open>getenv\<close> is
  \<open>os.Getenv\<close> (an unset variable reads as the empty string), \<open>quote\<close> the \<open>%q\<close> verb of an
  arbitrary text, whose Unicode tables are left out. A panic is a value of its own, so that loading
  panics, reports an error or returns.
\<close>

record Config =
  DatabaseURL :: string
  RedisURL :: string
  JWTAccessSecret :: string
  JWTRefreshSecret :: string
  JWTAccessTTL :: duration
  JWTRefreshTTL :: duration
  TrendingRecomputeInterval :: duration
  Port :: string

definition requireEnv :: "(string \<Rightarrow> string) \<Rightarrow> string \<Rightarrow> string outcome" where
  "requireEnv getenv key =
     (let v = getenv key in
      if v = [] then Panic (''required environment variable '' @ CHR 0x22 # key @ CHR 0x22 # '' is not set'')
      else Done v)"

definition envOr :: "(string \<Rightarrow> string) \<Rightarrow> string \<Rightarrow> string \<Rightarrow> string" where
  "envOr getenv key fallback = (let v = getenv key in if v \<noteq> [] then v else fallback)"

text \<open>\<open>time.Duration(days) * 24 * time.Hour\<close> is computed in \<open>int64\<close> and wraps.\<close>

definition parseDuration ::
  "fp \<Rightarrow> (string \<Rightarrow> string) \<Rightarrow> (string \<Rightarrow> string) \<Rightarrow> string \<Rightarrow> string \<Rightarrow> duration result" where
  "parseDuration F quote getenv key fallback =
     (let raw = envOr getenv key fallback;
          bad = Inl (Wrapf (''invalid duration for '' @ key @ ''='' @ quote raw @ '': '')
                       (Opaque ''time: invalid duration'') [])
      in case ParseDuration F raw of
           Some d \<Rightarrow> Inr d
         | None \<Rightarrow>
             if length raw > 1 \<and> last raw = CHR ''d''
             then (case atoi (butlast raw) of
                     Some days \<Rightarrow> Inr (wrap64 (wrap64 (days * 24) * Hour))
                   | None \<Rightarrow> bad)
             else bad)"

definition Load ::
  "fp \<Rightarrow> (string \<Rightarrow> string) \<Rightarrow> (string \<Rightarrow> string) \<Rightarrow> (Config result) outcome" where
  "Load F quote getenv =
     (case requireEnv getenv ''DATABASE_URL'' of Panic m \<Rightarrow> Panic m | Done db \<Rightarrow>
      (case requireEnv getenv ''REDIS_URL'' of Panic m \<Rightarrow> Panic m | Done rd \<Rightarrow>
      (case requireEnv getenv ''JWT_ACCESS_SECRET'' of Panic m \<Rightarrow> Panic m | Done sa \<Rightarrow>
      (case requireEnv getenv ''JWT_REFRESH_SECRET'' of Panic m \<Rightarrow> Panic m | Done sr \<Rightarrow>
       let port = envOr getenv ''PORT'' ''8080'' in
       Done (case parseDuration F quote getenv ''JWT_ACCESS_TTL'' ''15m'' of Inl e \<Rightarrow> Inl e | Inr ta \<Rightarrow>
            (case parseDuration F quote getenv ''JWT_REFRESH_TTL'' ''168h'' of Inl e \<Rightarrow> Inl e | Inr tr \<Rightarrow>
            (case parseDuration F quote getenv ''TRENDING_RECOMPUTE_INTERVAL'' ''2m'' of Inl e \<Rightarrow> Inl e | Inr ti \<Rightarrow>
               Inr \<lparr>DatabaseURL = db, RedisURL = rd, JWTAccessSecret = sa, JWTRefreshSecret = sr,
                    JWTAccessTTL = ta, JWTRefreshTTL = tr, TrendingRecomputeInterval = ti, Port = port\<rparr>)))))))"

definition required_settings :: "string list" where
  "required_settings = [''DATABASE_URL'', ''REDIS_URL'', ''JWT_ACCESS_SECRET'', ''JWT_REFRESH_SECRET'']"

lemma envOr_nonempty: "fallback \<noteq> [] \<Longrightarrow> envOr getenv key fallback \<noteq> []"
  by (simp add: envOr_def Let_def)

lemma default_durations [simp]:
  "ParseDuration F ''15m'' = Some (15 * Minute)"
  "ParseDuration F ''168h'' = Some (168 * Hour)"
  "ParseDuration F ''2m'' = Some (2 * Minute)"
  by (simp_all add: ParseDuration_def split_sign_def duration_parts.simps duration_part_def is_digit_def
      digit_val_def unitMap_def Let_def Minute_def Second_def Hour_def)

lemma days_in_int64: "int64_range (days * 24 * Hour) \<Longrightarrow> wrap64 (wrap64 (days * 24) * Hour) = days * 24 * Hour"
proof -
  assume r: "int64_range (days * 24 * Hour)"
  then have "int64_range (days * 24)" by (simp add: int64_range_def Hour_def)
  with r show ?thesis by (simp add: wrap64_id)
qed

text \<open>
  A setting given in days (\<open>7d\<close>, as the comment promises) is read as that many times
  24 hours whenever the product is a duration at all; a larger count of days is accepted too, and
  wraps around, so that a setting of more than 292 years can come out negative.
\<close>

theorem days_suffix_exact:
  assumes "getenv key = format_int days @ ''d''" and "int64_range days"
  shows "parseDuration F quote getenv key fallback = Inr (wrap64 (wrap64 (days * 24) * Hour))
     \<and> (int64_range (days * 24 * Hour) \<longrightarrow>
          parseDuration F quote getenv key fallback = Inr (days * 24 * Hour))"
proof -
  have "atoi (format_int days) = Some days"
    using assms(2) by (simp add: atoi_def parse_int_format signed_range_64)
  then have "parseDuration F quote getenv key fallback = Inr (wrap64 (wrap64 (days * 24) * Hour))"
    using assms(1) by (simp add: parseDuration_def envOr_def ParseDuration_days butlast_append)
  then show ?thesis by (simp add: days_in_int64)
qed

theorem days_suffix_exact_witness:
  "parseDuration exact_fp (\<lambda>s. s) (\<lambda>_. ''7d'') ''JWT_REFRESH_TTL'' ''168h'' = Inr 604800000000000
   \<and> parseDuration exact_fp (\<lambda>s. s) (\<lambda>_. ''200000d'') ''JWT_REFRESH_TTL'' ''168h'' = Inr (- 1166744073709551616)"
proof (rule conjI)
  have "format_int 7 = ''7''" "format_int 200000 = ''200000''"
    by (simp_all add: format_int_def digits.simps digit_char_def char_of_def bit_Suc_0_iff)
  then have week: "''7d'' = format_int 7 @ ''d''" and ages: "''200000d'' = format_int 200000 @ ''d''" by simp_all
  show "parseDuration exact_fp (\<lambda>s. s) (\<lambda>_. ''7d'') ''JWT_REFRESH_TTL'' ''168h'' = Inr 604800000000000"
    using days_suffix_exact[of "\<lambda>_. ''7d''", OF week] by (simp add: int64_range_def Hour_def wrap64_def)
  show "parseDuration exact_fp (\<lambda>s. s) (\<lambda>_. ''200000d'') ''JWT_REFRESH_TTL'' ''168h'' = Inr (- 1166744073709551616)"
    using days_suffix_exact[of "\<lambda>_. ''200000d''", OF ages] by (simp add: int64_range_def Hour_def wrap64_def)
qed



end
