(* ===== verification/Startup.thy ===== *)
theory Startup
  imports Configuration System Metrics_Registry
begin

text \<open>
  The start and the end of the process: \<open>cmd/server/main.go\<close>, \<open>connectRedis\<close> of \<open>adapters.go\<close>,
  \<open>NewPool\<close>, \<open>NewClient\<close>, \<open>NewTracer\<close> and \<open>internal/platform/server.go\<close>. What the libraries answer is
  a record of parameters. A run is the list of externally visible steps it takes, in order, with how
  it ends. Log lines at level Info are left out; warnings and errors are kept by their message.
\<close>

section \<open>Clients\<close>

record pool_config =
  MaxConns :: nat
  MinConns :: nat

text \<open>
  \<open>'p\<close> is a connection pool and \<open>'c\<close> a Redis client. \<open>pl_parse\<close> is \<open>pgxpool.ParseConfig\<close> (with the
  settings the code does not override inside the returned function), \<open>pl_ping\<close> the first ping.
\<close>

record 'p pgx_lib =
  pl_parse :: "string \<Rightarrow> (pool_config \<Rightarrow> 'p result) result"
  pl_ping :: "'p \<Rightarrow> unit result"

definition NewPool :: "'p pgx_lib \<Rightarrow> string \<Rightarrow> 'p result" where
  "NewPool L dsn =
     (case pl_parse L dsn of
        Inl e \<Rightarrow> Inl (wrap ''parse postgres config: '' e)
      | Inr newWithConfig \<Rightarrow>
          (case newWithConfig \<lparr>MaxConns = 20, MinConns = 2\<rparr> of
             Inl e \<Rightarrow> Inl (wrap ''create postgres pool: '' e)
           | Inr pool \<Rightarrow>
               (case pl_ping L pool of
                  Inl e \<Rightarrow> Inl (wrap ''ping postgres: '' e)
                | Inr _ \<Rightarrow> Inr pool)))"

record 'c redis_client_lib =
  rl_parse :: "string \<Rightarrow> 'c result"
  rl_ping :: "'c \<Rightarrow> unit result"

definition NewClient :: "'c redis_client_lib \<Rightarrow> string \<Rightarrow> 'c result" where
  "NewClient L url =
     (case rl_parse L url of
        Inl e \<Rightarrow> Inl (wrap ''parse redis url: '' e)
      | Inr client \<Rightarrow>
          (case rl_ping L client of
             Inl e \<Rightarrow> Inl (wrap ''ping redis: '' e)
           | Inr _ \<Rightarrow> Inr client))"

text \<open>The server's own variant only warns when Redis does not answer; the flag says that it did.\<close>

definition connectRedis :: "'c redis_client_lib \<Rightarrow> string \<Rightarrow> bool \<times> 'c result" where
  "connectRedis L url =
     (case rl_parse L url of
        Inl e \<Rightarrow> (False, Inl (wrap ''parse redis url: '' e))
      | Inr client \<Rightarrow> ((\<exists>e. rl_ping L client = Inl e), Inr client))"

text \<open>\<open>NewTracer\<close>: the exporter, then the resource, then the provider, which becomes the global one.\<close>

record tracing_lib =
  tl_exporter :: "unit result"
  tl_resource :: "string \<Rightarrow> unit result"

definition NewTracer :: "tracing_lib \<Rightarrow> string \<Rightarrow> string option \<Rightarrow> string result \<times> string option" where
  "NewTracer L serviceName provider =
     (case tl_exporter L of
        Inl e \<Rightarrow> (Inl e, provider)
      | Inr _ \<Rightarrow>
          (case tl_resource L serviceName of
             Inl e \<Rightarrow> (Inl e, provider)
           | Inr _ \<Rightarrow> (Inr serviceName, Some serviceName)))"

section \<open>The HTTP server\<close>

record Server =
  Addr :: string
  ReadTimeout :: duration
  WriteTimeout :: duration
  IdleTimeout :: duration

definition NewServer :: "string \<Rightarrow> Server" where
  "NewServer port = \<lparr>Addr = CHR '':'' # port, ReadTimeout = 15 * Second, WriteTimeout = 30 * Second, IdleTimeout = 60 * Second\<rparr>"

text \<open>How \<open>net/http\<close>'s \<open>ListenAndServe\<close> ended: it always returns an error, after a shutdown the known one.\<close>

datatype serve_end = ErrServerClosed | ServeError goerror

definition ListenAndServe :: "serve_end \<Rightarrow> unit result" where
  "ListenAndServe r =
     (case r of ErrServerClosed \<Rightarrow> Inr () | ServeError e \<Rightarrow> Inl (wrap ''listen and serve: '' e))"

section \<open>Services\<close>

definition NewAuthService :: "string \<Rightarrow> string \<Rightarrow> duration \<Rightarrow> duration \<Rightarrow> AuthService" where
  "NewAuthService accessSecret refreshSecret accessTTL refreshTTL =
     \<lparr>as_accessSecret = accessSecret, as_refreshSecret = refreshSecret, as_accessTTL = accessTTL, as_refreshTTL = refreshTTL\<rparr>"

text \<open>The application \<open>main\<close> builds from its settings, the libraries and stores given.\<close>

definition configured_app :: "Config \<Rightarrow> 'r app \<Rightarrow> 'r app" where
  "configured_app cfg A =
     A\<lparr>ap_env := (ap_env A)\<lparr>e_svc := NewAuthService (JWTAccessSecret cfg) (JWTRefreshSecret cfg)
                                          (JWTAccessTTL cfg) (JWTRefreshTTL cfg)\<rparr>\<rparr>"

lemma configured_app_ok [simp]: "app_ok L (configured_app cfg A) \<longleftrightarrow> app_ok L A"
  by (simp add: configured_app_def app_ok_def)

section \<open>The process\<close>

datatype boot_event =
    InstallTracer string
  | OpenPool
  | LogError string
  | LogWarn string
  | StartTrending duration
  | StartReconcile duration
  | StartServer Server
  | CancelContext
  | ShutdownServer duration
  | CloseRedis
  | ClosePool
  | ShutdownTracer

datatype ending = Crashed | Exited int

record ('p, 'c) boot =
  bt_fp :: fp
  bt_quote :: "string \<Rightarrow> string"
  bt_getenv :: "string \<Rightarrow> string"
  bt_tracing :: tracing_lib
  bt_register :: registerer
  bt_pgx :: "'p pgx_lib"
  bt_redis :: "'c redis_client_lib"

text \<open>
  Up to the point where the server runs. \<open>os.Exit(1)\<close> skips the deferred calls. The two jobs run in
  goroutines of their own; a panic there ends the process, and the only one they have is that of
  \<open>time.NewTicker\<close> on an interval that is not positive.
\<close>

definition reconcile_interval :: duration where
  "reconcile_interval = 5 * Minute"

definition start :: "('p, 'c) boot \<Rightarrow> boot_event list \<times> (ending + Config)" where
  "start B =
     (case Load (bt_fp B) (bt_quote B) (bt_getenv B) of
        Panic m \<Rightarrow> ([], Inl Crashed)
      | Done (Inl e) \<Rightarrow> ([LogError ''load config''], Inl (Exited 1))
      | Done (Inr cfg) \<Rightarrow>
          (case NewTracer (bt_tracing B) ''feature-voting-system'' None of
             (Inl e, _) \<Rightarrow> ([LogError ''init tracer''], Inl (Exited 1))
           | (Inr t, _) \<Rightarrow>
               let ev1 = [InstallTracer t] in
               (case NewMetrics (bt_register B) [] of
                  Panic m \<Rightarrow> (ev1, Inl Crashed)
                | Done metrics \<Rightarrow>
               (case NewPool (bt_pgx B) (DatabaseURL cfg) of
                  Inl e \<Rightarrow> (ev1 @ [LogError ''connect postgres''], Inl (Exited 1))
                | Inr pool \<Rightarrow>
                    let ev2 = ev1 @ [OpenPool] in
                    (case connectRedis (bt_redis B) (RedisURL cfg) of
                       (_, Inl e) \<Rightarrow> (ev2 @ [LogError ''connect redis''], Inl (Exited 1))
                     | (unreachable, Inr client) \<Rightarrow>
                         let ev3 = ev2 @ (if unreachable then [LogWarn ''redis not reachable at startup''] else [])
                                     @ [StartTrending (TrendingRecomputeInterval cfg), StartReconcile reconcile_interval]
                         in if TrendingRecomputeInterval cfg \<le> 0 then (ev3, Inl Crashed)
                            else (ev3 @ [StartServer (NewServer (Port cfg))], Inr cfg))))))"

text \<open>
  From there: an end of the serving goroutine other than by a shutdown is logged and nothing else
  happens until a signal arrives; then the jobs' context is cancelled, the server is given 30
  seconds, and the deferred calls run, last one first.
\<close>

definition serving_ended :: "serve_end \<Rightarrow> boot_event list" where
  "serving_ended r = (case ListenAndServe r of Inl e \<Rightarrow> [LogError ''server error''] | Inr _ \<Rightarrow> [])"

text \<open>\<open>Server.Shutdown\<close> hands on what \<open>net/http\<close>'s shutdown answers within the time of its context.\<close>

definition Shutdown :: "duration \<Rightarrow> unit result \<Rightarrow> boot_event list \<times> unit result" where
  "Shutdown timeout answer = ([ShutdownServer timeout], answer)"

definition stop :: "unit result \<Rightarrow> boot_event list" where
  "stop shutdown =
     [CancelContext]
       @ (case Shutdown (30 * Second) shutdown of
            (ev, Inl e) \<Rightarrow> ev @ [LogError ''graceful shutdown failed''] | (ev, Inr _) \<Rightarrow> ev)
       @ [CloseRedis, ClosePool, ShutdownTracer, CancelContext]"

text \<open>
  One run of \<open>main\<close>: what happens to the serving goroutine before a signal (\<open>early\<close>), whether a
  signal ever arrives, and how the shutdown ends.
\<close>

definition main :: "('p, 'c) boot \<Rightarrow> serve_end option \<Rightarrow> bool \<Rightarrow> unit result \<Rightarrow> boot_event list \<times> ending option" where
  "main B early signalled shutdown =
     (case start B of
        (evs, Inl e) \<Rightarrow> (evs, Some e)
      | (evs, Inr cfg) \<Rightarrow>
          let evs1 = evs @ (case early of None \<Rightarrow> [] | Some r \<Rightarrow> serving_ended r)
          in if signalled then (evs1 @ stop shutdown, Some (Exited 0)) else (evs1, None))"

section \<open>Starting and stopping\<close>

text \<open>Everything the server needs before it listens.\<close>

definition can_serve :: "('p, 'c) boot \<Rightarrow> Config \<Rightarrow> bool" where
  "can_serve B cfg \<longleftrightarrow>
     Load (bt_fp B) (bt_quote B) (bt_getenv B) = Done (Inr cfg) \<and> 0 < TrendingRecomputeInterval cfg
   \<and> tl_exporter (bt_tracing B) = Inr () \<and> tl_resource (bt_tracing B) ''feature-voting-system'' = Inr ()
   \<and> (\<exists>ms. NewMetrics (bt_register B) [] = Done ms)
   \<and> (\<exists>p. NewPool (bt_pgx B) (DatabaseURL cfg) = Inr p) \<and> (\<exists>c. rl_parse (bt_redis B) (RedisURL cfg) = Inr c)"

lemma start_cases:
  obtains (serving) cfg evs where "can_serve B cfg" "start B = (evs @ [StartServer (NewServer (Port cfg))], Inr cfg)"
      "StartServer (NewServer (Port cfg)) \<notin> set evs"
  | (failed) evs e where "\<nexists>cfg. can_serve B cfg" "start B = (evs, Inl e)" "e \<in> {Crashed, Exited 1}"
      "\<forall>srv. StartServer srv \<notin> set evs"
proof (cases "\<exists>cfg. can_serve B cfg")
  case True
  then obtain cfg where c: "can_serve B cfg" ..
  then have "\<exists>evs. start B = (evs @ [StartServer (NewServer (Port cfg))], Inr cfg) \<and> StartServer (NewServer (Port cfg)) \<notin> set evs"
    by (auto simp: can_serve_def start_def NewTracer_def connectRedis_def Let_def)
  with c show ?thesis using serving by blast
next
  case False
  let ?ok = "\<lambda>x. \<exists>evs e. x = (evs, Inl e) \<and> e \<in> {Crashed, Exited 1} \<and> (\<forall>srv. StartServer srv \<notin> set evs)"
  have "?ok (start B)"
  proof (cases "Load (bt_fp B) (bt_quote B) (bt_getenv B)")
    case (Done r)
    show ?thesis
    proof (cases r)
      case (Inr cfg)
      note no = False[unfolded can_serve_def not_ex, rule_format, of cfg]
      show ?thesis
      proof (cases "tl_exporter (bt_tracing B) = Inr () \<and> tl_resource (bt_tracing B) ''feature-voting-system'' = Inr ()")
        case True
        then show ?thesis using no Done Inr
          by (cases "NewPool (bt_pgx B) (DatabaseURL cfg)"; cases "rl_parse (bt_redis B) (RedisURL cfg)")
            (auto simp: start_def NewTracer_def connectRedis_def Let_def split: outcome.splits)
      next
        case False
        then show ?thesis using Done Inr by (auto simp: start_def NewTracer_def split: sum.splits)
      qed
    qed (use Done in \<open>simp add: start_def\<close>)
  qed (simp add: start_def)
  then obtain evs e where f: "start B = (evs, Inl e)" "e \<in> {Crashed, Exited 1}" "\<forall>srv. StartServer srv \<notin> set evs"
    by blast
  show ?thesis by (rule failed[OF False f])
qed


text \<open>A boot whose Redis does not answer.\<close>

definition demo_boot :: "(unit, unit) boot" where
  "demo_boot =
     \<lparr>bt_fp = \<lparr>fp_round = (\<lambda>x. x), fp_pow = (\<lambda>x. x)\<rparr>, bt_quote = (\<lambda>s. s),
      bt_getenv = (\<lambda>k. if k \<in> set required_settings then ''x'' else []),
      bt_tracing = \<lparr>tl_exporter = Inr (), tl_resource = (\<lambda>_. Inr ())\<rparr>,
      bt_register = (\<lambda>m reg. Done (reg @ [m])),
      bt_pgx = \<lparr>pl_parse = (\<lambda>_. Inr (\<lambda>c. if MinConns c \<le> MaxConns c then Inr () else Inl (Opaque ''limits''))),
                pl_ping = (\<lambda>_. Inr ())\<rparr>,
      bt_redis = \<lparr>rl_parse = (\<lambda>_. Inr ()), rl_ping = (\<lambda>_. Inl (Opaque ''refused''))\<rparr>\<rparr>"

lemma demo_can_serve: "\<exists>cfg. can_serve demo_boot cfg"
  by (simp add: can_serve_def demo_boot_def Load_def requireEnv_def required_settings_def parseDuration_def
      NewMetrics_def envOr_def Let_def NewPool_def Minute_def Second_def)


end
