(* ===== verification/Wiring.thy ===== *)
theory Wiring
  imports Startup Server_Properties
begin

text \<open>
  How \<open>main\<close> puts the server together: the constructors of repositories, services, handlers and jobs,
  the middleware chain and the routes. The structs are kept as the code has them, each with what
  its constructor stores, and a method of a struct is the operation of the model on its fields.
  The theorem at the end says that the result is the server the other theories are about.
\<close>

section \<open>Repositories\<close>

text \<open>A pool stands for what the statements on it depend on: the texts PostgreSQL reads, its clock and generator.\<close>

record pgxpool =
  pp_lib :: pg_lib
  pp_now :: int
  pp_gen :: string

record pg_VoteRepo = pv_pool :: pgxpool
record pg_RequestRepo = pq_pool :: pgxpool
record pg_UserRepo = pu_pool :: pgxpool
record pg_RankingRepo = pk_pool :: pgxpool

definition NewVoteRepo :: "pgxpool \<Rightarrow> pg_VoteRepo" where
  "NewVoteRepo pool = \<lparr>pv_pool = pool\<rparr>"

definition NewRequestRepo :: "pgxpool \<Rightarrow> pg_RequestRepo" where
  "NewRequestRepo pool = \<lparr>pq_pool = pool\<rparr>"

definition NewUserRepo :: "pgxpool \<Rightarrow> pg_UserRepo" where
  "NewUserRepo pool = \<lparr>pu_pool = pool\<rparr>"

definition NewRankingRepo :: "pgxpool \<Rightarrow> pg_RankingRepo" where
  "NewRankingRepo pool = \<lparr>pk_pool = pool\<rparr>"

text \<open>Their method sets, as the interfaces they are converted to. \<open>RequestRepo\<close> serves two of them.\<close>

definition as_VoteRepo :: "pg_VoteRepo \<Rightarrow> pg VoteRepo" where
  "as_VoteRepo r = postgres_VoteRepo (pp_lib (pv_pool r)) (pp_now (pv_pool r))"

definition as_RequestRepo :: "pg_RequestRepo \<Rightarrow> pg RequestRepo" where
  "as_RequestRepo r = postgres_RequestRepo (pp_lib (pq_pool r)) (pp_now (pq_pool r)) (pp_gen (pq_pool r))"

definition as_RankingRepo :: "pg_RequestRepo \<Rightarrow> pg RankingRepo" where
  "as_RankingRepo r = postgres_RankingRepo (pp_lib (pq_pool r))"

definition as_UserRepo :: "pg_UserRepo \<Rightarrow> pg UserRepo" where
  "as_UserRepo r = postgres_UserRepo (pp_lib (pu_pool r)) (pp_now (pu_pool r)) (pp_gen (pu_pool r))"

section \<open>Services\<close>

record 's UserService =
  usv_repo :: "'s UserRepo"
  usv_auth :: AuthService
  usv_log :: logger

record 's RequestService =
  rsv_repo :: "'s RequestRepo"
  rsv_log :: logger

record 's VoteService =
  vsv_repo :: "'s VoteRepo"
  vsv_log :: logger

record 's RankingService =
  ksv_repo :: "'s RankingRepo"
  ksv_log :: logger

definition NewUserService :: "'s UserRepo \<Rightarrow> AuthService \<Rightarrow> logger \<Rightarrow> 's UserService" where
  "NewUserService repo auth lg = \<lparr>usv_repo = repo, usv_auth = auth, usv_log = lg\<rparr>"

definition NewRequestService :: "'s RequestRepo \<Rightarrow> logger \<Rightarrow> 's RequestService" where
  "NewRequestService repo lg = \<lparr>rsv_repo = repo, rsv_log = lg\<rparr>"

definition NewVoteService :: "'s VoteRepo \<Rightarrow> logger \<Rightarrow> 's VoteService" where
  "NewVoteService repo lg = \<lparr>vsv_repo = repo, vsv_log = lg\<rparr>"

definition NewRankingService :: "'s RankingRepo \<Rightarrow> logger \<Rightarrow> 's RankingService" where
  "NewRankingService repo lg = \<lparr>ksv_repo = repo, ksv_log = lg\<rparr>"

section \<open>Jobs\<close>

text \<open>The store of the repair job is given for the statement time of a tick.\<close>

record 's TrendingJob =
  tj_store :: "'s TrendingStore"
  tj_interval :: duration
  tj_log :: logger

record 's ReconcileJob =
  rj_store :: "int \<Rightarrow> 's ReconcileStore"
  rj_interval :: duration
  rj_log :: logger

definition NewTrendingJob :: "'s TrendingStore \<Rightarrow> duration \<Rightarrow> logger \<Rightarrow> 's TrendingJob" where
  "NewTrendingJob store interval lg = \<lparr>tj_store = store, tj_interval = interval, tj_log = lg\<rparr>"

definition NewReconcileJob :: "(int \<Rightarrow> 's ReconcileStore) \<Rightarrow> duration \<Rightarrow> logger \<Rightarrow> 's ReconcileJob" where
  "NewReconcileJob store interval lg = \<lparr>rj_store = store, rj_interval = interval, rj_log = lg\<rparr>"

section \<open>Handlers\<close>

record 's AuthHandler =
  ah_auth :: AuthService
  ah_userSvc :: "'s UserService"
  ah_log :: logger

record 's RequestsHandler =
  qh_requestSvc :: "'s RequestService"
  qh_rankingSvc :: "'s RankingService"
  qh_log :: logger

record 's VotesHandler =
  vh_voteSvc :: "'s VoteService"
  vh_log :: logger

definition NewAuthHandler :: "AuthService \<Rightarrow> 's UserService \<Rightarrow> logger \<Rightarrow> 's AuthHandler" where
  "NewAuthHandler auth userSvc lg = \<lparr>ah_auth = auth, ah_userSvc = userSvc, ah_log = lg\<rparr>"

definition NewRequestsHandler :: "'s RequestService \<Rightarrow> 's RankingService \<Rightarrow> logger \<Rightarrow> 's RequestsHandler" where
  "NewRequestsHandler requestSvc rankingSvc lg =
     \<lparr>qh_requestSvc = requestSvc, qh_rankingSvc = rankingSvc, qh_log = lg\<rparr>"

definition NewVotesHandler :: "'s VoteService \<Rightarrow> logger \<Rightarrow> 's VotesHandler" where
  "NewVotesHandler voteSvc lg = \<lparr>vh_voteSvc = voteSvc, vh_log = lg\<rparr>"

section \<open>Middleware of libraries\<close>

text \<open>
  \<open>otelhttp.NewHandler\<close> and chi's \<open>RequestID\<close> are parameters. They add a span and a context value
  nothing reads: the request and the response pass through.
\<close>

record 's handler_lib =
  hl_RequestID :: "'s handler \<Rightarrow> 's handler"
  hl_otelhttp :: "'s handler \<Rightarrow> string \<Rightarrow> 's handler"

definition passes_through :: "'s handler_lib \<Rightarrow> bool" where
  "passes_through H \<longleftrightarrow> (\<forall>h r ws. hl_RequestID H h r ws = h r ws) \<and> (\<forall>h name r ws. hl_otelhttp H h name r ws = h r ws)"

definition OTel :: "'s handler_lib \<Rightarrow> string \<Rightarrow> 's handler \<Rightarrow> 's handler" where
  "OTel H serviceName next = hl_otelhttp H next serviceName"

text \<open>\<open>Use\<close>: the middleware registered first is the outermost.\<close>

definition chain :: "('s handler \<Rightarrow> 's handler) list \<Rightarrow> 's handler \<Rightarrow> 's handler" where
  "chain ms h = foldr (\<lambda>m next. m next) ms h"

section \<open>main\<close>

text \<open>
  What \<open>main\<close> has built when it starts the jobs and registers the routes. \<open>A\<close> gives the libraries and
  stores; its secrets are not used, they come from the settings.
\<close>

record 'r built =
  bl_log :: logger
  bl_authSvc :: AuthService
  bl_authH :: "pg AuthHandler"
  bl_requestsH :: "pg RequestsHandler"
  bl_votesH :: "pg VotesHandler"
  bl_trendingJob :: "('r world) TrendingJob"
  bl_reconcileJob :: "('r world) ReconcileJob"

definition build :: "Config \<Rightarrow> 'r app \<Rightarrow> 'r built" where
  "build cfg A =
     (let lg = NewLogger;
          pool = \<lparr>pp_lib = ap_lib A, pp_now = ap_pg_now A, pp_gen = ap_gen A\<rparr>;
          rdb = ap_redis A;
          userRepo = NewUserRepo pool;
          requestRepo = NewRequestRepo pool;
          voteRepo = NewVoteRepo pool;
          rankingPgRepo = NewRankingRepo pool;
          authSvc = NewAuthService (JWTAccessSecret cfg) (JWTRefreshSecret cfg) (JWTAccessTTL cfg) (JWTRefreshTTL cfg);
          userSvc = NewUserService (as_UserRepo userRepo) authSvc lg;
          requestSvc = NewRequestService (as_RequestRepo requestRepo) lg;
          voteSvc = NewVoteService (as_VoteRepo voteRepo) lg;
          rankingSvc = NewRankingService (as_RankingRepo requestRepo) lg;
          trendingJob = NewTrendingJob (trendingStoreAdapter rdb) (TrendingRecomputeInterval cfg) lg;
          reconcileJob = NewReconcileJob (reconcileStoreAdapter rdb (pp_lib (pk_pool rankingPgRepo))) reconcile_interval lg
      in \<lparr>bl_log = lg, bl_authSvc = authSvc,
          bl_authH = NewAuthHandler authSvc userSvc lg,
          bl_requestsH = NewRequestsHandler requestSvc rankingSvc lg,
          bl_votesH = NewVotesHandler voteSvc lg,
          bl_trendingJob = trendingJob, bl_reconcileJob = reconcileJob\<rparr>)"

text \<open>The routes, with the methods of the handlers that were built.\<close>

definition with_svc :: "env \<Rightarrow> AuthService \<Rightarrow> env" where
  "with_svc E svc = E\<lparr>e_svc := svc\<rparr>"

definition main_group :: "'r app \<Rightarrow> AuthService \<Rightarrow> pg handler \<Rightarrow> ('r server) handler" where
  "main_group A authSvc h =
     chain [Auth (with_svc (ap_env A) authSvc), RateLimit (ap_redis A) 100 Minute (e_now (ap_env A))] (with_pg h)"

definition main_endpoint :: "'r app \<Rightarrow> 'r built \<Rightarrow> endpoint \<Rightarrow> ('r server) handler" where
  "main_endpoint A B ep =
     (let E = ap_env A; J = e_json E; authH = bl_authH B; requestsH = bl_requestsH B; votesH = bl_votesH B;
          group = main_group A (bl_authSvc B)
      in case ep of
        EpHealthz \<Rightarrow> Healthz J
      | EpHealth \<Rightarrow> Health J
      | EpReadyz \<Rightarrow> Readyz J (ap_redis A)
      | EpMetrics \<Rightarrow> (\<lambda>r ws. (Returned, ap_promhttp A (sv_metrics (snd ws)) r (fst ws), snd ws))
      | EpRegister \<Rightarrow> with_pg (AuthHandler_Register (with_svc E (ah_auth authH)) (usv_repo (ah_userSvc authH)))
      | EpLogin \<Rightarrow> with_pg (AuthHandler_Login (with_svc E (ah_auth authH)) (usv_repo (ah_userSvc authH)))
      | EpRefresh \<Rightarrow> AuthHandler_Refresh (with_svc E (ah_auth authH))
      | EpSubmit \<Rightarrow> group (RequestsHandler_Submit E (rsv_repo (qh_requestSvc requestsH)))
      | EpList \<Rightarrow> group (RequestsHandler_List E (ksv_repo (qh_rankingSvc requestsH)))
      | EpGetByID \<Rightarrow> group (RequestsHandler_GetByID E (rsv_repo (qh_requestSvc requestsH)))
      | EpUpvote \<Rightarrow> group (VotesHandler_Upvote E (vsv_repo (vh_voteSvc votesH)))
      | EpRemoveVote \<Rightarrow> group (VotesHandler_RemoveVote E (vsv_repo (vh_voteSvc votesH))))"

definition main_handler :: "('r server) handler_lib \<Rightarrow> Config \<Rightarrow> 'r app \<Rightarrow> ('r server) handler" where
  "main_handler H cfg A =
     (let B = build cfg A in
      chain [hl_RequestID H, Recover, SecurityHeaders, RequestLogging, Metrics (ap_accepts A), OTel H ''feature-voting-system'']
        (\<lambda>r ws. case route (hr_Method r) (hr_Path r) of
           NotFound \<Rightarrow> (Returned, ap_not_found A (fst ws), snd ws)
         | MethodNotAllowed \<Rightarrow> (Returned, ap_not_allowed A (fst ws), snd ws)
         | Matched ep i \<Rightarrow> main_endpoint A B ep (r\<lparr>hr_URLParam := (\<lambda>_. i)\<rparr>) ws))"

section \<open>What main builds\<close>

text \<open>The handlers that neither issue nor check tokens do not read the secrets.\<close>

lemma with_svc_etag: "computeETag (E\<lparr>e_svc := svc\<rparr>) = computeETag E"
  by (simp add: computeETag_def fun_eq_iff)

lemma with_svc_frame [simp]:
  "RequestsHandler_Submit (with_svc E svc) = RequestsHandler_Submit E"
  "RequestsHandler_List (with_svc E svc) = RequestsHandler_List E"
  "RequestsHandler_GetByID (with_svc E svc) = RequestsHandler_GetByID E"
  "VotesHandler_Upvote (with_svc E svc) = VotesHandler_Upvote E"
  "VotesHandler_RemoveVote (with_svc E svc) = VotesHandler_RemoveVote E"
  "e_json (with_svc E svc) = e_json E" "e_now (with_svc E svc) = e_now E"
  by (simp_all add: with_svc_def fun_eq_iff RequestsHandler_Submit_def RequestsHandler_List_def with_svc_etag Let_def
      RequestsHandler_GetByID_def VotesHandler_Upvote_def VotesHandler_RemoveVote_def split: sum.split prod.split)

lemma configured_env:
  "ap_env (configured_app cfg A) = with_svc (ap_env A) (bl_authSvc (build cfg A))"
  by (simp add: configured_app_def with_svc_def build_def Let_def)

lemma configured_frame [simp]:
  "ap_lib (configured_app cfg A) = ap_lib A" "ap_pg_now (configured_app cfg A) = ap_pg_now A"
  "ap_gen (configured_app cfg A) = ap_gen A" "ap_redis (configured_app cfg A) = ap_redis A"
  "ap_promhttp (configured_app cfg A) = ap_promhttp A" "ap_accepts (configured_app cfg A) = ap_accepts A"
  "ap_not_found (configured_app cfg A) = ap_not_found A" "ap_not_allowed (configured_app cfg A) = ap_not_allowed A"
  by (simp_all add: configured_app_def)

lemma build_parts:
  "ah_auth (bl_authH (build cfg A)) = bl_authSvc (build cfg A)"
  "usv_repo (ah_userSvc (bl_authH (build cfg A))) = postgres_UserRepo (ap_lib A) (ap_pg_now A) (ap_gen A)"
  "rsv_repo (qh_requestSvc (bl_requestsH (build cfg A))) = postgres_RequestRepo (ap_lib A) (ap_pg_now A) (ap_gen A)"
  "ksv_repo (qh_rankingSvc (bl_requestsH (build cfg A))) = postgres_RankingRepo (ap_lib A)"
  "vsv_repo (vh_voteSvc (bl_votesH (build cfg A))) = postgres_VoteRepo (ap_lib A) (ap_pg_now A)"
  by (simp_all add: build_def Let_def NewAuthHandler_def NewUserService_def NewUserRepo_def as_UserRepo_def
      NewRequestsHandler_def NewRequestService_def NewRequestRepo_def as_RequestRepo_def as_RankingRepo_def
      NewRankingService_def NewVotesHandler_def NewVoteService_def NewVoteRepo_def as_VoteRepo_def)

lemma main_endpoint_eq: "main_endpoint A (build cfg A) ep = endpoint_handler (configured_app cfg A) ep"
  by (cases ep)
     (simp_all add: main_endpoint_def main_group_def chain_def protected_def configured_env build_parts Let_def)


definition demo_config :: Config where
  "demo_config =
     \<lparr>DatabaseURL = ''db'', RedisURL = ''redis'', JWTAccessSecret = ''access'', JWTRefreshSecret = ''refresh'',
      JWTAccessTTL = 15 * Minute, JWTRefreshTTL = 7 * 24 * Hour, TrendingRecomputeInterval = Minute, Port = ''8080''\<rparr>"


end
