(* ===== verification/Job_Logging.thy ===== *)
theory Job_Logging
  imports Ranking_Properties Logger
begin

text \<open>
  The background jobs with the lines they log. \<open>Reconcile\<close> and \<open>Trending\<close> leave the log out; here the
  same code is modelled over the state and the log together, and the lemmas on erasure say that
  without the log it is the code of those theories.
\<close>

type_synonym 's logged = "'s \<times> line list"

section \<open>The loop of a job\<close>

fun logged_job_loop ::
  "string \<Rightarrow> string \<Rightarrow> ('c \<Rightarrow> ('s logged, unit) eff) \<Rightarrow> 'c job_event list \<Rightarrow> 's logged \<Rightarrow> job_status \<times> 's logged" where
  "logged_job_loop stopping failed body [] x = (JobRunning, x)"
| "logged_job_loop stopping failed body (Cancelled # es) (s, ls) =
     (JobStopped, (s, log_write NewLogger LevelInfo stopping [] ls))"
| "logged_job_loop stopping failed body (Tick c # es) x =
     (case body c x of
        (Inl e, (s1, ls1)) \<Rightarrow>
          logged_job_loop stopping failed body es
            (s1, log_write NewLogger LevelError failed [(''error'', error_text e)] ls1)
      | (Inr _, x1) \<Rightarrow> logged_job_loop stopping failed body es x1)"

definition logged_run_job ::
  "string \<Rightarrow> string \<Rightarrow> duration \<Rightarrow> ('c \<Rightarrow> ('s logged, unit) eff) \<Rightarrow> 'c job_event list \<Rightarrow> 's logged \<Rightarrow> job_status \<times> 's logged" where
  "logged_run_job stopping failed interval body es x =
     (if interval \<le> 0 then (JobPanicked, x) else logged_job_loop stopping failed body es x)"

text \<open>\<open>g\<close> logs and does otherwise what \<open>f\<close> does; lines are only ever added.\<close>

definition erases_to :: "('s logged, 'a) eff \<Rightarrow> ('s, 'a) eff \<Rightarrow> bool" where
  "erases_to g f \<longleftrightarrow> (\<forall>s ls. \<exists>new. g (s, ls) = (fst (f s), (snd (f s), ls @ new)))"

lemma erases_toE:
  assumes "erases_to g f" and "f s = (r, s')"
  obtains new where "g (s, ls) = (r, (s', ls @ new))"
proof -
  from assms(1) obtain new where "g (s, ls) = (fst (f s), (snd (f s), ls @ new))"
    unfolding erases_to_def by meson
  with assms(2) show ?thesis by (intro that) simp
qed

lemma logged_job_loop_erases:
  assumes "\<And>c. erases_to (g c) (f c)"
  shows "\<exists>new. logged_job_loop stopping failed g es (s, ls) = (fst (job_loop f es s), (snd (job_loop f es s), ls @ new))"
proof (induction es arbitrary: s ls)
  case (Cons ev es)
  show ?case
  proof (cases ev)
    case Cancelled
    then show ?thesis by (simp add: log_write_passes)
  next
    case (Tick c)
    obtain r s' where f: "f c s = (r, s')" by (cases "f c s")
    obtain new where g: "g c (s, ls) = (r, (s', ls @ new))" by (rule erases_toE[OF assms f])
    show ?thesis
      using Cons.IH[of s' "log_write NewLogger LevelError failed [(''error'', error_text (projl r))] (ls @ new)"]
        Cons.IH[of s' "ls @ new"]
      by (cases r) (auto simp: Tick f g log_write_passes)
  qed
qed simp

lemma logged_run_job_erases:
  assumes "\<And>c. erases_to (g c) (f c)"
  shows "\<exists>new. logged_run_job stopping failed interval g es (s, ls)
     = (fst (run_job interval f es s), (snd (run_job interval f es s), ls @ new))"
  using logged_job_loop_erases[OF assms, where stopping = stopping and failed = failed and es = es and s = s and ls = ls] by (auto simp: logged_run_job_def run_job_def)

section \<open>Reconciliation\<close>

definition drift_line :: "mismatch \<Rightarrow> line" where
  "drift_line m =
     \<lparr>ln_level = LevelWarn, ln_msg = ''vote_count mismatch detected'',
      ln_attrs = [(''request_id'', mm_ID m), (''stored'', format_int (mm_StoredCount m)), (''actual'', format_int (mm_ActualCount m))]\<rparr>"

fun logged_reconcile_loop :: "'s ReconcileStore \<Rightarrow> mismatch list \<Rightarrow> 's logged \<Rightarrow> 's logged" where
  "logged_reconcile_loop store [] x = x"
| "logged_reconcile_loop store (m # ms) (s, ls) =
     (let ls1 = log_write NewLogger LevelWarn ''vote_count mismatch detected''
                  [(''request_id'', mm_ID m), (''stored'', format_int (mm_StoredCount m)), (''actual'', format_int (mm_ActualCount m))] ls
      in case rs_FixVoteCount store (mm_ID m) (mm_ActualCount m) s of
           (Inl e, s1) \<Rightarrow>
             logged_reconcile_loop store ms
               (s1, log_write NewLogger LevelError ''fix vote count'' [(''request_id'', mm_ID m), (''error'', error_text e)] ls1)
         | (Inr _, s1) \<Rightarrow>
             logged_reconcile_loop store ms (rs_SetCachedCount store (mm_ID m) (mm_ActualCount m) s1, ls1))"

definition logged_reconcile :: "'s ReconcileStore \<Rightarrow> ('s logged, unit) eff" where
  "logged_reconcile store x =
     (case rs_GetVoteCountMismatches store (fst x) of
        (Inl e, s1) \<Rightarrow> (Inl e, (s1, snd x))
      | (Inr mismatches, s1) \<Rightarrow> (Inr (), logged_reconcile_loop store mismatches (s1, snd x)))"

definition logged_ReconcileJob_Run ::
  "duration \<Rightarrow> (int \<Rightarrow> 's ReconcileStore) \<Rightarrow> int job_event list \<Rightarrow> 's logged \<Rightarrow> job_status \<times> 's logged" where
  "logged_ReconcileJob_Run interval store es x =
     logged_run_job ''reconcile job stopping'' ''reconcile failed'' interval (\<lambda>now. logged_reconcile (store now)) es x"

abbreviation warnings :: "line list \<Rightarrow> line list" where
  "warnings \<equiv> filter (\<lambda>l. ln_level l = LevelWarn)"

lemma logged_reconcile_loop_lines:
  "\<exists>new. logged_reconcile_loop store ms (s, ls) = (reconcile_loop store ms s, ls @ new)
     \<and> warnings new = map drift_line ms"
proof (induction ms arbitrary: s ls)
  case (Cons m ms)
  obtain r s1 where f: "rs_FixVoteCount store (mm_ID m) (mm_ActualCount m) s = (r, s1)"
    by (cases "rs_FixVoteCount store (mm_ID m) (mm_ActualCount m) s")
  show ?case
  proof (cases r)
    case (Inl e)
    let ?err = "\<lparr>ln_level = LevelError, ln_msg = ''fix vote count'', ln_attrs = [(''request_id'', mm_ID m), (''error'', error_text e)]\<rparr>"
    obtain new where "logged_reconcile_loop store ms (s1, ls @ [drift_line m, ?err]) = (reconcile_loop store ms s1, (ls @ [drift_line m, ?err]) @ new)"
      "warnings new = map drift_line ms" using Cons.IH by blast
    then show ?thesis
      by (intro exI[of _ "[drift_line m, ?err] @ new"]) (simp add: f Inl log_write_passes drift_line_def)
  next
    case (Inr u)
    let ?s2 = "rs_SetCachedCount store (mm_ID m) (mm_ActualCount m) s1"
    obtain new where "logged_reconcile_loop store ms (?s2, ls @ [drift_line m]) = (reconcile_loop store ms ?s2, (ls @ [drift_line m]) @ new)"
      "warnings new = map drift_line ms" using Cons.IH by blast
    then show ?thesis
      by (intro exI[of _ "[drift_line m] @ new"]) (simp add: f Inr log_write_passes drift_line_def)
  qed
qed simp

lemma logged_reconcile_lines:
  "\<exists>new. logged_reconcile store (s, ls) = (fst (reconcile store s), (snd (reconcile store s), ls @ new))
     \<and> warnings new = (case fst (rs_GetVoteCountMismatches store s) of Inl e \<Rightarrow> [] | Inr ms \<Rightarrow> map drift_line ms)"
proof (cases "rs_GetVoteCountMismatches store s")
  case (Pair r s1)
  then show ?thesis
    using logged_reconcile_loop_lines[of store "projr r" s1 ls]
    by (cases r) (auto simp: logged_reconcile_def reconcile_def)
qed

lemma logged_reconcile_erases: "erases_to (logged_reconcile store) (reconcile store)"
  unfolding erases_to_def using logged_reconcile_lines[of store] by metis

lemma logged_ReconcileJob_erases:
  "\<exists>new. logged_ReconcileJob_Run interval store es (s, ls)
     = (fst (ReconcileJob_Run interval store es s), (snd (ReconcileJob_Run interval store es s), ls @ new))"
  unfolding logged_ReconcileJob_Run_def ReconcileJob_Run_def
  by (rule logged_run_job_erases) (rule logged_reconcile_erases)

section \<open>Trending scores\<close>

fun logged_recompute_loop ::
  "fp \<Rightarrow> (nat \<Rightarrow> gotime) \<Rightarrow> nat \<Rightarrow> 's TrendingStore \<Rightarrow> RequestForScoring list \<Rightarrow> 's logged \<Rightarrow> 's logged" where
  "logged_recompute_loop F clock i store [] x = x"
| "logged_recompute_loop F clock i store (req # reqs) (s, ls) =
     (case ts_SetTrendingScore store (sc_ID req) (TrendingScore F (clock i) (sc_VoteCount req) (sc_CreatedAt req)) s of
        (Inl e, s1) \<Rightarrow>
          logged_recompute_loop F clock (Suc i) store reqs
            (s1, log_write NewLogger LevelError ''set trending score'' [(''request_id'', sc_ID req), (''error'', error_text e)] ls)
      | (Inr _, s1) \<Rightarrow> logged_recompute_loop F clock (Suc i) store reqs (s1, ls))"

definition logged_recompute :: "fp \<Rightarrow> (nat \<Rightarrow> gotime) \<Rightarrow> 's TrendingStore \<Rightarrow> ('s logged, unit) eff" where
  "logged_recompute F clock store x =
     (case ts_GetAllRequests store (fst x) of
        (Inl e, s1) \<Rightarrow> (Inl e, (s1, snd x))
      | (Inr requests, s1) \<Rightarrow> (Inr (), logged_recompute_loop F clock 0 store requests (s1, snd x)))"

definition logged_TrendingJob_Run ::
  "fp \<Rightarrow> duration \<Rightarrow> 's TrendingStore \<Rightarrow> (nat \<Rightarrow> gotime) job_event list \<Rightarrow> 's logged \<Rightarrow> job_status \<times> 's logged" where
  "logged_TrendingJob_Run F interval store es x =
     logged_run_job ''trending job stopping'' ''trending recompute failed'' interval (\<lambda>clock. logged_recompute F clock store) es x"

lemma logged_recompute_loop_erases:
  "\<exists>new. logged_recompute_loop F clock i store reqs (s, ls) = (recompute_loop F clock i store reqs s, ls @ new)"
proof (induction reqs arbitrary: i s ls)
  case (Cons req reqs)
  obtain r s1 where f: "ts_SetTrendingScore store (sc_ID req) (TrendingScore F (clock i) (sc_VoteCount req) (sc_CreatedAt req)) s = (r, s1)"
    by (rule prod.exhaust)
  show ?case
  proof (cases r)
    case (Inl e)
    let ?err = "\<lparr>ln_level = LevelError, ln_msg = ''set trending score'', ln_attrs = [(''request_id'', sc_ID req), (''error'', error_text e)]\<rparr>"
    from Cons.IH[of "Suc i" s1 "ls @ [?err]"] show ?thesis by (auto simp: f Inl log_write_passes)
  next
    case (Inr u)
    from Cons.IH[of "Suc i" s1 ls] show ?thesis by (simp add: f Inr)
  qed
qed simp

lemma logged_recompute_erases: "erases_to (logged_recompute F clock store) (recompute F clock store)"
  unfolding erases_to_def
proof (intro allI)
  fix s ls
  obtain r s1 where g: "ts_GetAllRequests store s = (r, s1)" by (rule prod.exhaust)
  show "\<exists>new. logged_recompute F clock store (s, ls) = (fst (recompute F clock store s), (snd (recompute F clock store s), ls @ new))"
    using logged_recompute_loop_erases[of F clock 0 store "projr r" s1 ls]
    by (cases r) (auto simp: g logged_recompute_def recompute_def)
qed

lemma logged_TrendingJob_erases:
  "\<exists>new. logged_TrendingJob_Run F interval store es (s, ls)
     = (fst (TrendingJob_Run F interval store es s), (snd (TrendingJob_Run F interval store es s), ls @ new))"
  unfolding logged_TrendingJob_Run_def TrendingJob_Run_def
  by (rule logged_run_job_erases) (rule logged_recompute_erases)

section \<open>What the log tells about drift\<close>

lemma mismatches_over_pg:
  assumes "tables_ok L (tbl p)" and "fst (rs_GetVoteCountMismatches (reconcileStoreAdapter R L now) (p, r)) = Inr ms"
  shows "ms = map (mismatch_of (tbl p)) (wrong_rows (tbl p))"
proof -
  obtain p' where "GetVoteCountMismatches p = (Inr ms, p')"
    using assms(2) by (cases "GetVoteCountMismatches p") (simp add: reconcileStoreAdapter_def on_pg_def)
  then have "mismatchesSQL (tbl p) = Inr (ms, tbl p)"
    using query_rows_ok[OF mismatches_read_only] by (auto simp: GetVoteCountMismatches_def)
  then show ?thesis by (simp add: mismatchesSQL_eq[OF assms(1)] split: if_splits)
qed

definition drift_report :: "tables \<Rightarrow> request_row \<Rightarrow> line" where
  "drift_report t q =
     \<lparr>ln_level = LevelWarn, ln_msg = ''vote_count mismatch detected'',
      ln_attrs = [(''request_id'', r_id q), (''stored'', format_int (r_vote_count q)),
                  (''actual'', format_int (int (card (voters t (r_id q)))))]\<rparr>"

lemma drift_line_report:
  assumes "tables_ok L t"
  shows "drift_line (mismatch_of t q) = drift_report t q"
  using assms by (simp add: drift_line_def drift_report_def mismatch_of_def length_votes_on tables_ok_def)



end
