(* ===== verification/Spec2Isabelle.thy ===== *)
theory Spec2Isabelle
  imports Cursor Vote_Properties Request_Properties Ranking_Properties Vote_Cache User_Properties
    Server_Properties Response_Types Error_Logging Session_Properties Http_Properties List_Properties
    Rate_Limit Concurrency Serialisability Live_Paging Configuration Startup Wiring Job_Logging
begin

text \<open>
  A model of the feature voting service (Go; the server is \<open>cmd/server\<close>) with its correctness.

  The program. Users register, submit feature requests and vote for the requests of others; lists
  are served newest first or by votes, with keyset cursors. Handlers (\<open>internal/handler\<close>) decode
  HTTP and call services (\<open>internal/service\<close>), which call repositories over PostgreSQL
  (\<open>internal/repository/postgres\<close>). A counter \<open>vote_count\<close> is kept beside the table of votes, so
  the central question is whether the two can come apart. Two background jobs (\<open>internal/ranking\<close>)
  repair counters and compute trending scores; Redis holds rate limit counters, scores and a cache
  of counts. \<open>main\<close> reads the configuration, connects the stores, starts the jobs and serves until
  a signal.

  Reading order, with the code each theory models.

  \<^item> \<open>Go_Prelude\<close>, \<open>Go_Text\<close>, \<open>Go_Base64\<close>, \<open>Go_Time\<close>: what the code uses of Go (error chains and
    \<open>errors.Is\<close>, \<open>int32\<close>/\<open>int64\<close>, string and number functions, base64, durations and
    \<open>time.ParseDuration\<close>). \<open>Domain\<close>: the structs the layers exchange.
  \<^item> \<open>Cursor\<close>: \<open>handler/cursor.go\<close> and the two copies of its functions in the service and the
    repository.
  \<^item> \<open>Database\<close>: the tables of \<open>migrations/0001_init.up.sql\<close>, their constraints, and pgx calls
    under a script of faults. \<open>Vote_Repo\<close>, \<open>Vote_Tables\<close>, \<open>Vote_Service\<close>, \<open>Vote_Properties\<close>:
    \<open>votes.go\<close> and \<open>service/vote.go\<close>.
  \<^item> \<open>Keyset\<close>, \<open>Request_Repo\<close>, \<open>Request_Service\<close>, \<open>Request_Properties\<close>: \<open>postgres/requests.go\<close>,
    \<open>service/request.go\<close>, \<open>service/ranking.go\<close>.
  \<^item> \<open>Auth_Service\<close>, \<open>User_Repo\<close>, \<open>User_Service\<close>, \<open>User_Properties\<close>: \<open>service/auth.go\<close>,
    \<open>service/user.go\<close>, \<open>postgres/users.go\<close>, \<open>postgres/user_repo.go\<close>.
  \<^item> \<open>Redis_Ops\<close>, \<open>Vote_Cache\<close>, \<open>Ranking_Repo\<close>, \<open>Jobs\<close>, \<open>Reconcile\<close>, \<open>Trending\<close>,
    \<open>Ranking_Properties\<close>: \<open>repository/redis/votes.go\<close>, \<open>postgres/ranking.go\<close>, \<open>internal/ranking\<close>,
    \<open>cmd/server/adapters.go\<close>.
  \<^item> \<open>Logger\<close>, \<open>Http\<close>, \<open>Handlers\<close>, \<open>Metrics_Registry\<close>, \<open>Middleware\<close>, \<open>Router\<close>, \<open>Responses\<close>,
    \<open>Response_Types\<close>, \<open>Rate_Limit\<close>, \<open>Error_Logging\<close>: \<open>internal/handler\<close>, \<open>internal/middleware\<close>,
    \<open>observability/logging.go\<close> and \<open>metrics.go\<close>, \<open>platform/health.go\<close>, and the routes of
    \<open>main.go\<close>. A response carries the error lines its handlers log (\<open>w_log\<close>).
  \<^item> \<open>Endpoints\<close>, \<open>Sessions\<close>, \<open>System\<close>: what every endpoint keeps of the invariant, whom the
    account endpoints sign tokens for, and the whole server as a step relation whose states carry
    the users with tokens. \<open>Server_Properties\<close>, \<open>Session_Properties\<close>, \<open>Http_Properties\<close>,
    \<open>List_Properties\<close>: what its clients can rely on.
  \<^item> \<open>Interleaving\<close>, \<open>Concurrency\<close>: vote operations and repair passes cut at their repository
    calls, under every schedule. \<open>Transactions\<close>, \<open>Serialisability\<close>: the vote transactions cut at
    their statements, among all other writes of the program. \<open>Live_Paging\<close>: cursors over changing
    tables.
  \<^item> \<open>Configuration\<close>, \<open>Startup\<close>: \<open>internal/config\<close>, \<open>postgres/pool.go\<close>, \<open>redis/client.go\<close>,
    \<open>observability/tracing.go\<close>, \<open>platform/server.go\<close>, \<open>main\<close> itself. \<open>Wiring\<close>: the constructors,
    and what \<open>main\<close> builds with them.
  \<^item> \<open>Job_Logging\<close>: the two jobs with the lines they log; without them they are those of
    \<open>Reconcile\<close> and \<open>Trending\<close>.
  \<^item> \<open>Demo\<close>, \<open>Redis_Demo\<close>: a small database and a small Redis for the witnesses.

  Modelling. A fallible Go function returns \<open>goerror + 'a\<close>; one with effects is a function on an
  explicit state that also returns the state it leaves. An interface is a record of operations, a
  method a function over that record. The state of PostgreSQL is its tables and a list of faults,
  one per round trip: nothing goes wrong, the statement fails without effect, or it takes effect
  and its answer is lost; statements the server refuses for reasons not modelled (a NUL byte in a
  text, a full disk) are faults of the second kind. Every theorem that does not say \<open>faults s =
  []\<close> holds for every such list. SQL statements are functions on the tables, with the constraint
  violations and the INTEGER overflow the server would report. A panic is a value (\<open>control\<close>,
  \<open>outcome\<close>).

  Parameters, for code outside the repository: how PostgreSQL reads a UUID and folds citext
  (\<open>pg_lib\<close>), Redis commands (\<open>redis\<close>), Argon2 and JWT signing and parsing (\<open>auth_lib\<close>), texts of
  JSON documents (\<open>json_lib\<close>; the trees and the decoding into structs are modelled), SHA-256, the
  rounding of floats (\<open>fp\<close>), chi's answers for unknown routes, promhttp, chi's request id and
  otelhttp (\<open>handler_lib\<close>), and what the Prometheus client accepts when metrics are registered
  (\<open>registerer\<close>) and label values used (\<open>ap_accepts\<close>). What a theorem asks of them is a named
  hypothesis (\<open>argon2_law\<close>, \<open>jwt_law\<close>, \<open>zadd_law\<close>, \<open>strings_law\<close>, \<open>incr_law\<close>, \<open>fp_ok\<close>,
  \<open>passes_through\<close>), satisfied by the instance in its witness; what the Prometheus client
  documents is stated as \<open>register_law\<close> and \<open>labels_law\<close>, used by lemmas only. That nobody else
  can sign tokens is a premise of the system's request step (\<open>unforged\<close>): a token that verifies
  was signed by this server for its user, at some earlier step. Clock readings and generated
  identifiers are arguments.

  Interfaces as locales: \<open>vote_contract\<close> (the vote repository), \<open>keyset_lister\<close> and \<open>live_lister\<close>
  (list queries), \<open>reconcile_contract\<close> and \<open>reconcile_reliable\<close> (the store of the repair job),
  \<open>user_contract\<close> (the account repository); each is interpreted on the PostgreSQL model, and the
  properties rest on those interpretations.

  What is shown. Constraints, exact counters and the rule against voting for oneself hold in every
  reachable state and under every interleaving of votes and repair passes; successful operations
  report exact counts; the vote service refines a map from requests to sets of voters; following
  cursors lists everything once, and newest first also while the tables change; a repair pass
  makes every counter exact, and never makes one worse unless it overlaps a vote on a drifted
  counter (\<open>stale_repair\<close>); who gets tokens, and that a token lets its holder vote until it
  expires; accounts and passwords; the status codes and the types of the bodies of every endpoint,
  conditional requests and the rate limit as clients see them; that internal errors are logged and
  not shown, and drift is reported; that \<open>main\<close> builds this very server; start and shutdown. The
  loops of the code are structural recursions; the one bound is the number of pages a client
  follows, for which more than the number of rows is proved to be enough. \<open>ParseDuration\<close>
  terminates because each number with its unit shortens the text.

  Interleaving is modelled at two granularities. \<open>Concurrency\<close> interleaves the repository calls of
  vote operations and repair passes, each call one step. \<open>Serialisability\<close> shows why a vote
  transaction may be one step: under the row and key locks PostgreSQL takes, its statements run
  among those of other vote transactions and all other writes (repairs, new requests, new
  accounts, each a single statement) as if they came one after the other, and no transaction is
  blocked for good.

  A request that the metrics do not accept (\<open>labelled\<close>: the client library panics on a path that
  is not valid UTF-8) is carried out, but the error of the recovering middleware is appended to
  its answer. The theorems on whole answers assume \<open>labelled\<close>; those on the stores and on status
  codes do not need it.

  Not modelled: the text of log lines (they are levels, messages and attributes), durations and
  recovered panic values in them, and the lines at level Info of start and shutdown; the wording
  of errors raised inside libraries; spans; the schedule of connections, timeouts and context
  cancellation inside a handler (a cancelled call is a fault); the buckets of the histogram; the
  constructors of the vote cache and of \<open>UserRepository\<close>, which the program does not call; tests,
  migrations tooling and deployment files.
\<close>

end
